(* ===== verification/Prelude.thy ===== *)
theory Prelude
  imports Main "HOL-Library.Sublist"
begin

text \<open>
  Shared ground of the development: the outcomes a Go call can have, the
  combinators that compose calls the way the source does
  (\<^verbatim>\<open>if err != nil { return ... }\<close>, \<^verbatim>\<open>errors.Wrap\<close>, \<^verbatim>\<open>defer\<close>, a loop that
  returns at the first error), and the frame interface that every component
  uses to say which part of the state an operation leaves alone.
\<close>

named_theorems go_simps
  "unfolding rules of the control-flow combinators"

named_theorems keeps_intros
  "compositional rules for frame conditions"

section \<open>Errors, panics and process exits\<close>

datatype errno =
    ENOENT | EEXIST | ENOTDIR | EISDIR | EINVAL | ELOOP | ENOTEMPTY
  | EWOULDBLOCK | EPERM | EACCES | EIO | EBADF

text \<open>
  A Go error value: an operating-system error, a message of \<^verbatim>\<open>errors.New\<close> or
  \<^verbatim>\<open>errors.Errorf\<close>, or an error wrapped with a context message.
\<close>

datatype err =
    Errno errno
  | Msg string
  | Wrapped string err

text \<open>\<^verbatim>\<open>os.IsNotExist\<close> and \<^verbatim>\<open>os.IsExist\<close> look at the bare system error only.\<close>

definition is_not_exist :: "err \<Rightarrow> bool" where
  "is_not_exist e \<longleftrightarrow> e = Errno ENOENT"

definition is_exist :: "err \<Rightarrow> bool" where
  "is_exist e \<longleftrightarrow> e = Errno EEXIST \<or> e = Errno ENOTEMPTY"

text \<open>
  Ways in which control does not come back to the caller: a run-time panic,
  the end of the process, its replacement by another program, or a wait on a
  lock that another process holds.
\<close>

datatype abort =
    Panic string
  | Exited int
  | Execed string "string list" "string list"
  | Blocked

datatype 'a res = Ok 'a | Err err | Abort abort

type_synonym ('s, 'a) call = "'s \<Rightarrow> 'a res \<times> 's"

text \<open>Sequencing and looping for functions that compute an outcome without touching the state.\<close>

definition bind_res :: "'a res \<Rightarrow> ('a \<Rightarrow> 'b res) \<Rightarrow> 'b res" where
  "bind_res r f = (case r of Ok x \<Rightarrow> f x | Err e \<Rightarrow> Err e | Abort a \<Rightarrow> Abort a)"

definition wrap_res :: "string \<Rightarrow> 'a res \<Rightarrow> 'a res" where
  "wrap_res msg r = (case r of Err e \<Rightarrow> Err (Wrapped msg e) | _ \<Rightarrow> r)"

definition of_sum :: "err + 'a \<Rightarrow> 'a res" where
  "of_sum r = (case r of Inl e \<Rightarrow> Err e | Inr x \<Rightarrow> Ok x)"

primrec map_res :: "('a \<Rightarrow> 'b res) \<Rightarrow> 'a list \<Rightarrow> 'b list res" where
  "map_res f [] = Ok []"
| "map_res f (x # xs) = bind_res (f x) (\<lambda>y. bind_res (map_res f xs) (\<lambda>ys. Ok (y # ys)))"

lemma bind_res_simps [simp]:
  "bind_res (Ok x) f = f x" "bind_res (Err e) f = Err e" "bind_res (Abort a) f = Abort a"
  by (simp_all add: bind_res_def)

lemma bind_res_Ok: "bind_res r f = Ok y \<longleftrightarrow> (\<exists>x. r = Ok x \<and> f x = Ok y)"
  by (cases r) auto

lemma of_sum_simps [simp]: "of_sum (Inl e) = Err e" "of_sum (Inr x) = Ok x"
  by (simp_all add: of_sum_def)

lemma of_sum_Ok: "of_sum r = Ok x \<longleftrightarrow> r = Inr x"
  by (cases r) auto

lemma wrap_res_Ok: "wrap_res msg r = Ok x \<longleftrightarrow> r = Ok x"
  by (cases r) (auto simp: wrap_res_def)

lemma find_append: "find P (xs @ ys) = (case find P xs of None \<Rightarrow> find P ys | Some x \<Rightarrow> Some x)"
  by (induction xs) auto

section \<open>Combinators\<close>

definition ret :: "'a \<Rightarrow> ('s, 'a) call" where
  "ret x s = (Ok x, s)"

definition fail :: "err \<Rightarrow> ('s, 'a) call" where
  "fail e s = (Err e, s)"

definition abort :: "abort \<Rightarrow> ('s, 'a) call" where
  "abort a s = (Abort a, s)"

definition panic :: "string \<Rightarrow> ('s, 'a) call" where
  "panic msg = abort (Panic msg)"

definition seq :: "('s, 'a) call \<Rightarrow> ('a \<Rightarrow> ('s, 'b) call) \<Rightarrow> ('s, 'b) call" where
  "seq m f s = (case m s of
      (Ok x, s') \<Rightarrow> f x s'
    | (Err e, s') \<Rightarrow> (Err e, s')
    | (Abort a, s') \<Rightarrow> (Abort a, s'))"

text \<open>\<open>attempt m\<close> hands the error to the caller as a value, as \<^verbatim>\<open>x, err := m()\<close> does.\<close>

definition attempt :: "('s, 'a) call \<Rightarrow> ('s, err + 'a) call" where
  "attempt m s = (case m s of
      (Ok x, s') \<Rightarrow> (Ok (Inr x), s')
    | (Err e, s') \<Rightarrow> (Ok (Inl e), s')
    | (Abort a, s') \<Rightarrow> (Abort a, s'))"

definition on_err :: "('s, 'a) call \<Rightarrow> (err \<Rightarrow> ('s, 'a) call) \<Rightarrow> ('s, 'a) call" where
  "on_err m h = seq (attempt m) (\<lambda>r. case r of Inl e \<Rightarrow> h e | Inr x \<Rightarrow> ret x)"

definition wrap :: "string \<Rightarrow> ('s, 'a) call \<Rightarrow> ('s, 'a) call" where
  "wrap msg m = on_err m (\<lambda>e. fail (Wrapped msg e))"

text \<open>\<^verbatim>\<open>if err := m(); err != nil && !os.IsNotExist(err) { return err }\<close>\<close>

definition unless_missing :: "('s, unit) call \<Rightarrow> ('s, unit) call" where
  "unless_missing m = on_err m (\<lambda>e. if is_not_exist e then ret () else fail e)"

definition lift_res :: "'a res \<Rightarrow> ('s, 'a) call" where
  "lift_res r s = (r, s)"

definition get_state :: "('s \<Rightarrow> 'a) \<Rightarrow> ('s, 'a) call" where
  "get_state f s = (Ok (f s), s)"

text \<open>
  \<^verbatim>\<open>defer fin()\<close>: runs on every way out of the function that unwinds the stack;
  the end of the process (or of its waiting) skips it.
\<close>

definition defer_do :: "('s, unit) call \<Rightarrow> ('s, 'a) call \<Rightarrow> ('s, 'a) call" where
  "defer_do fin m s = (case m s of
      (Abort (Exited n), s') \<Rightarrow> (Abort (Exited n), s')
    | (Abort (Execed p a v), s') \<Rightarrow> (Abort (Execed p a v), s')
    | (Abort Blocked, s') \<Rightarrow> (Abort Blocked, s')
    | (r, s') \<Rightarrow> (case fin s' of
          (Abort a, s'') \<Rightarrow> (Abort a, s'')
        | (_, s'') \<Rightarrow> (r, s'')))"

text \<open>A \<^verbatim>\<open>for _, x := range xs\<close> loop whose body may return an error.\<close>

primrec each :: "('a \<Rightarrow> ('s, unit) call) \<Rightarrow> 'a list \<Rightarrow> ('s, unit) call" where
  "each f [] = ret ()"
| "each f (x # xs) = seq (f x) (\<lambda>_. each f xs)"

text \<open>The same with an accumulator.\<close>

primrec each_acc :: "('b \<Rightarrow> 'a \<Rightarrow> ('s, 'b) call) \<Rightarrow> 'b \<Rightarrow> 'a list \<Rightarrow> ('s, 'b) call" where
  "each_acc f acc [] = ret acc"
| "each_acc f acc (x # xs) = seq (f acc x) (\<lambda>acc'. each_acc f acc' xs)"

lemmas [go_simps] =
  ret_def fail_def abort_def panic_def seq_def attempt_def on_err_def wrap_def
  unless_missing_def lift_res_def get_state_def defer_do_def

lemma seq_ret [simp]: "seq (ret x) f = f x"
  by (rule ext) (simp add: go_simps)

lemma seq_fail [simp]: "seq (fail e) f = fail e"
  by (rule ext) (simp add: go_simps)

lemma seq_abort [simp]: "seq (abort a) f = abort a"
  by (rule ext) (simp add: go_simps)

lemma seq_assoc: "seq (seq m f) g = seq m (\<lambda>x. seq (f x) g)"
  by (rule ext) (simp add: seq_def split: prod.splits res.splits)

lemma seq_cases:
  obtains (ok) x s' where "m s = (Ok x, s')" "seq m f s = f x s'"
  | (err) e s' where "m s = (Err e, s')" "seq m f s = (Err e, s')"
  | (abort) a s' where "m s = (Abort a, s')" "seq m f s = (Abort a, s')"
  by (cases "m s"; cases "fst (m s)") (auto simp: seq_def)

lemma seq_OkD:
  assumes "seq m f s = (Ok y, t)"
  obtains x s' where "m s = (Ok x, s')" "f x s' = (Ok y, t)"
  using assms by (auto simp: seq_def split: prod.splits res.splits)

text \<open>One-step equations, for running a call whose callee's outcome is known.\<close>

lemma wrap_run: "wrap msg m s = (case m s of (Err e, t) \<Rightarrow> (Err (Wrapped msg e), t) | r \<Rightarrow> r)"
  by (simp add: go_simps split: prod.splits res.splits)

lemma on_err_run: "on_err m h s = (case m s of (Err e, t) \<Rightarrow> h e t | r \<Rightarrow> r)"
  by (simp add: go_simps split: prod.splits res.splits)

lemma unless_missing_run:
  "unless_missing m s = (case m s of
      (Err e, t) \<Rightarrow> if is_not_exist e then (Ok (), t) else (Err e, t) | r \<Rightarrow> r)"
  by (simp add: go_simps split: prod.splits res.splits)

lemmas run_simps = seq_def attempt_def wrap_run on_err_run unless_missing_run
  ret_def fail_def abort_def panic_def lift_res_def get_state_def

lemma wrap_OkD: "wrap msg m s = (Ok x, t) \<Longrightarrow> m s = (Ok x, t)"
  by (auto simp: wrap_run split: prod.splits res.splits)

section \<open>Frame conditions\<close>

text \<open>
  \<open>keeps R m\<close>: running \<open>m\<close> from any state leads to a state related by \<open>R\<close>,
  whatever the outcome. For any reflexive and transitive \<open>R\<close> (``the entries
  below this directory are the same'', ``if the invariant held it still holds'')
  the combinators preserve it.
\<close>

definition keeps :: "('s \<Rightarrow> 's \<Rightarrow> bool) \<Rightarrow> ('s, 'a) call \<Rightarrow> bool" where
  "keeps R m \<longleftrightarrow> (\<forall>s. R s (snd (m s)))"

lemma keepsD: "keeps R m \<Longrightarrow> m s = (r, t) \<Longrightarrow> R s t"
  by (metis keeps_def snd_conv)

lemma keepsI: "(\<And>s r t. m s = (r, t) \<Longrightarrow> R s t) \<Longrightarrow> keeps R m"
  by (metis keeps_def prod.collapse)

locale frame =
  fixes R :: "'s \<Rightarrow> 's \<Rightarrow> bool"
  assumes frame_refl: "R s s"
    and frame_trans: "R s t \<Longrightarrow> R t u \<Longrightarrow> R s u"
begin

lemma keeps_ret: "keeps R (ret x)"
  by (simp add: keeps_def ret_def frame_refl)

lemma keeps_fail: "keeps R (fail e)"
  by (simp add: keeps_def fail_def frame_refl)

lemma keeps_abort: "keeps R (abort a)"
  by (simp add: keeps_def abort_def frame_refl)

lemma keeps_panic: "keeps R (panic msg)"
  by (simp add: panic_def keeps_abort)

lemma keeps_lift_res: "keeps R (lift_res r)"
  by (simp add: keeps_def lift_res_def frame_refl)

lemma keeps_get_state: "keeps R (get_state f)"
  by (simp add: keeps_def get_state_def frame_refl)

lemma keeps_seq:
  assumes "keeps R m" and "\<And>x. keeps R (f x)"
  shows "keeps R (seq m f)"
proof (rule keepsI)
  fix s r t
  assume run: "seq m f s = (r, t)"
  show "R s t"
  proof (cases rule: seq_cases[of m s f])
    case (ok x s')
    with run have "f x s' = (r, t)" by simp
    with ok(1) assms show ?thesis by (blast dest: keepsD intro: frame_trans)
  qed (use run assms in \<open>auto dest: keepsD\<close>)
qed

lemma keeps_attempt: "keeps R m \<Longrightarrow> keeps R (attempt m)"
  by (rule keepsI) (auto simp: attempt_def dest: keepsD split: prod.splits res.splits)

lemma keeps_on_err: "keeps R m \<Longrightarrow> (\<And>e. keeps R (h e)) \<Longrightarrow> keeps R (on_err m h)"
  unfolding on_err_def
  by (rule keeps_seq) (auto intro: keeps_attempt keeps_ret split: sum.splits)

lemma keeps_wrap: "keeps R m \<Longrightarrow> keeps R (wrap msg m)"
  unfolding wrap_def by (rule keeps_on_err) (auto intro: keeps_fail)

lemma keeps_unless_missing: "keeps R m \<Longrightarrow> keeps R (unless_missing m)"
  unfolding unless_missing_def
  by (rule keeps_on_err) (auto intro: keeps_fail keeps_ret)

lemma keeps_defer_do:
  assumes "keeps R fin" and "keeps R m"
  shows "keeps R (defer_do fin m)"
proof (rule keepsI)
  fix s r t
  assume run: "defer_do fin m s = (r, t)"
  obtain r1 s1 where m: "m s = (r1, s1)" by fastforce
  obtain r2 s2 where f: "fin s1 = (r2, s2)" by fastforce
  from m f run have "t = s1 \<or> t = s2"
    by (auto simp: defer_do_def split: res.splits abort.splits)
  with m f assms show "R s t"
    by (auto dest: keepsD intro: frame_trans)
qed

lemma keeps_each: "(\<And>x. x \<in> set xs \<Longrightarrow> keeps R (f x)) \<Longrightarrow> keeps R (each f xs)"
  by (induction xs) (auto intro: keeps_ret keeps_seq)

lemma keeps_each_acc:
  "(\<And>acc x. x \<in> set xs \<Longrightarrow> keeps R (f acc x)) \<Longrightarrow> keeps R (each_acc f acc xs)"
  by (induction xs arbitrary: acc) (auto intro: keeps_ret keeps_seq)

lemma keeps_if: "keeps R a \<Longrightarrow> keeps R b \<Longrightarrow> keeps R (if c then a else b)"
  by simp

lemmas keeps_all =
  keeps_ret keeps_fail keeps_abort keeps_panic keeps_lift_res keeps_get_state
  keeps_seq keeps_attempt keeps_on_err keeps_wrap keeps_unless_missing
  keeps_defer_do keeps_each keeps_each_acc keeps_if

end

section \<open>Calls that always come back\<close>

text \<open>\<open>returns m\<close>: \<open>m\<close> neither panics nor ends the process nor waits.\<close>

definition returns :: "('s, 'a) call \<Rightarrow> bool" where
  "returns m \<longleftrightarrow> (\<forall>s a t. m s \<noteq> (Abort a, t))"

lemma returnsI: "(\<And>s a t. m s \<noteq> (Abort a, t)) \<Longrightarrow> returns m"
  by (simp add: returns_def)

lemma returnsD: "returns m \<Longrightarrow> m s \<noteq> (Abort a, t)"
  by (simp add: returns_def)

lemma returns_ret [intro]: "returns (ret x)"
  by (simp add: returns_def ret_def)

lemma returns_fail [intro]: "returns (fail e)"
  by (simp add: returns_def fail_def)

lemma returns_get_state [intro]: "returns (get_state f)"
  by (simp add: returns_def get_state_def)

lemma returns_lift_res: "(\<And>a. r \<noteq> Abort a) \<Longrightarrow> returns (lift_res r)"
  by (simp add: returns_def lift_res_def)

lemma returns_seq: "returns m \<Longrightarrow> (\<And>x. returns (f x)) \<Longrightarrow> returns (seq m f)"
  by (auto simp: returns_def seq_def split: prod.splits res.splits)

lemma returns_attempt: "returns m \<Longrightarrow> returns (attempt m)"
  by (auto simp: returns_def attempt_def split: prod.splits res.splits)

lemma returns_on_err: "returns m \<Longrightarrow> (\<And>e. returns (h e)) \<Longrightarrow> returns (on_err m h)"
  by (auto simp: returns_def on_err_run split: prod.splits res.splits)

lemma returns_wrap: "returns m \<Longrightarrow> returns (wrap msg m)"
  unfolding wrap_def by (rule returns_on_err) auto

lemma returns_unless_missing: "returns m \<Longrightarrow> returns (unless_missing m)"
  unfolding unless_missing_def by (rule returns_on_err) auto

lemma returns_each_acc: "(\<And>acc x. x \<in> set xs \<Longrightarrow> returns (f acc x)) \<Longrightarrow> returns (each_acc f acc xs)"
  by (induction xs arbitrary: acc) (auto intro: returns_seq)

lemmas returns_all = returns_seq returns_attempt returns_wrap returns_unless_missing
  returns_each_acc returns_ret returns_fail returns_get_state

end
