(* ===== verification/Go_Strings.thy ===== *)
theory Go_Strings
  imports Prelude
begin

text \<open>
  The operations of Go's \<^verbatim>\<open>strings\<close>, \<^verbatim>\<open>strconv\<close> and \<^verbatim>\<open>fmt\<close> packages that the
  program uses, on byte strings (\<open>char list\<close>). Case folding and white space are
  the ASCII ones: the program applies them to option keywords, to the output of
  \<^verbatim>\<open>getent\<close> and to lines of desktop files.
\<close>

section \<open>Splitting and joining\<close>

text \<open>\<^verbatim>\<open>strings.Split(s, sep)\<close> for a one-byte separator.\<close>

fun split_on :: "char \<Rightarrow> string \<Rightarrow> string list" where
  "split_on c [] = [[]]"
| "split_on c (x # xs) =
     (if x = c then [] # split_on c xs
      else (case split_on c xs of
              [] \<Rightarrow> [[x]]
            | y # ys \<Rightarrow> (x # y) # ys))"

text \<open>\<^verbatim>\<open>strings.Join(xs, sep)\<close>\<close>

fun join :: "string \<Rightarrow> string list \<Rightarrow> string" where
  "join sep [] = []"
| "join sep [x] = x"
| "join sep (x # y # ys) = x @ sep @ join sep (y # ys)"

text \<open>\<^verbatim>\<open>strings.SplitN(s, sep, 2)\<close>: one part, or the parts around the first separator.\<close>

fun split_n2 :: "char \<Rightarrow> string \<Rightarrow> string list" where
  "split_n2 c [] = [[]]"
| "split_n2 c (x # xs) =
     (if x = c then [[], xs]
      else (case split_n2 c xs of
              [] \<Rightarrow> [[x]]
            | y # ys \<Rightarrow> (x # y) # ys))"

lemma split_on_nonempty [simp]: "split_on c s \<noteq> []"
  by (induction s) (auto split: list.splits)

lemma split_n2_nonempty [simp]: "split_n2 c s \<noteq> []"
  by (induction s) (auto split: list.splits)

lemma split_on_no_sep: "c \<notin> set s \<Longrightarrow> split_on c s = [s]"
  by (induction s) auto

lemma split_on_append_sep:
  "c \<notin> set x \<Longrightarrow> split_on c (x @ c # s) = x # split_on c s"
  by (induction x) auto

lemma split_on_append:
  "split_on c (s @ c # t) = split_on c s @ split_on c t"
proof (induction s)
  case (Cons a s)
  then show ?case by (cases "split_on c s") auto
qed simp

lemma split_on_join:
  "xs \<noteq> [] \<Longrightarrow> \<forall>x\<in>set xs. c \<notin> set x \<Longrightarrow> split_on c (join [c] xs) = xs"
  by (induction "[c]" xs rule: join.induct)
    (auto simp: split_on_no_sep split_on_append_sep)

lemma join_split_on: "join [c] (split_on c s) = s"
proof (induction s)
  case (Cons a s)
  then show ?case
    by (cases "split_on c s"; cases "tl (split_on c s)") (auto split: list.splits)
qed simp

lemma split_on_parts: "x \<in> set (split_on c s) \<Longrightarrow> c \<notin> set x"
proof (induction s arbitrary: x)
  case (Cons a s)
  then show ?case
    by (cases "split_on c s") (auto split: if_splits)
qed simp

lemma split_n2_no_sep: "c \<notin> set s \<Longrightarrow> split_n2 c s = [s]"
  by (induction s) auto

lemma split_n2_append: "c \<notin> set x \<Longrightarrow> split_n2 c (x @ c # s) = [x, s]"
  by (induction x) auto

lemma split_n2_cases:
  obtains (none) "c \<notin> set s" "split_n2 c s = [s]"
  | (found) a b where "s = a @ c # b" "c \<notin> set a" "split_n2 c s = [a, b]"
  by (metis split_list_first split_n2_append split_n2_no_sep)

lemma split_n2_length: "length (split_n2 c s) = (if c \<in> set s then 2 else 1)"
  by (cases rule: split_n2_cases[of c s]) auto

section \<open>Searching and replacing\<close>

text \<open>\<^verbatim>\<open>strings.HasPrefix\<close> and \<^verbatim>\<open>strings.HasSuffix\<close>\<close>

definition has_prefix :: "string \<Rightarrow> string \<Rightarrow> bool" where
  "has_prefix s p \<longleftrightarrow> prefix p s"

definition has_suffix :: "string \<Rightarrow> string \<Rightarrow> bool" where
  "has_suffix s p \<longleftrightarrow> prefix (rev p) (rev s)"

lemma has_suffix_iff: "has_suffix s p \<longleftrightarrow> (\<exists>t. s = t @ p)"
  unfolding has_suffix_def by (metis prefix_def rev_append rev_rev_ident suffix_def suffix_to_prefix)

text \<open>\<^verbatim>\<open>strings.Contains\<close>\<close>

fun contains :: "string \<Rightarrow> string \<Rightarrow> bool" where
  "contains [] p = (p = [])"
| "contains (x # xs) p = (prefix p (x # xs) \<or> contains xs p)"

lemma contains_iff: "contains s p \<longleftrightarrow> (\<exists>a b. s = a @ p @ b)"
proof (induction s)
  case (Cons x xs)
  show ?case
  proof
    assume "contains (x # xs) p"
    then consider "prefix p (x # xs)" | "contains xs p" by auto
    then show "\<exists>a b. x # xs = a @ p @ b"
    proof cases
      case 1
      then show ?thesis by (metis append_Nil prefixE)
    next
      case 2
      then show ?thesis by (metis Cons.IH append_Cons)
    qed
  next
    assume "\<exists>a b. x # xs = a @ p @ b"
    then obtain a b where ab: "x # xs = a @ p @ b" by blast
    show "contains (x # xs) p"
    proof (cases a)
      case Nil
      with ab have "prefix p (x # xs)" by (simp add: prefixI)
      then show ?thesis by simp
    next
      case (Cons a' as)
      with ab have "xs = as @ p @ b" by simp
      then show ?thesis using Cons.IH by auto
    qed
  qed
qed auto

text \<open>\<^verbatim>\<open>strings.Index\<close> and \<^verbatim>\<open>strings.LastIndex\<close> of a byte, with \<open>None\<close> for -1.\<close>

fun index_of :: "char \<Rightarrow> string \<Rightarrow> nat option" where
  "index_of c [] = None"
| "index_of c (x # xs) = (if x = c then Some 0 else map_option Suc (index_of c xs))"

fun last_index_of :: "char \<Rightarrow> string \<Rightarrow> nat option" where
  "last_index_of c [] = None"
| "last_index_of c (x # xs) =
     (case last_index_of c xs of
        Some i \<Rightarrow> Some (Suc i)
      | None \<Rightarrow> if x = c then Some 0 else None)"

lemma index_of_None: "index_of c s = None \<longleftrightarrow> c \<notin> set s"
  by (induction s) auto

lemma index_of_append: "c \<notin> set a \<Longrightarrow> index_of c (a @ c # b) = Some (length a)"
  by (induction a) auto

lemma last_index_of_None: "last_index_of c s = None \<longleftrightarrow> c \<notin> set s"
  by (induction s) (auto split: option.splits)

lemma last_index_of_append: "c \<notin> set b \<Longrightarrow> last_index_of c (a @ c # b) = Some (length a)"
  by (induction a) (auto simp: last_index_of_None[THEN iffD2] split: option.splits)

text \<open>\<^verbatim>\<open>strings.ReplaceAll\<close> for a one-byte pattern.\<close>

fun replace_all :: "char \<Rightarrow> string \<Rightarrow> string \<Rightarrow> string" where
  "replace_all c r [] = []"
| "replace_all c r (x # xs) = (if x = c then r else [x]) @ replace_all c r xs"

lemma replace_all_append: "replace_all c r (s @ t) = replace_all c r s @ replace_all c r t"
  by (induction s) auto

text \<open>
  \<^verbatim>\<open>strings.NewReplacer(old1, new1, ...).Replace(s)\<close>: one pass from the left, at
  each position the first pair whose (non-empty) old string matches there, no
  rescanning of replaced text. \<open>skip\<close> counts the bytes of the last match that
  are still to be dropped.
\<close>

fun replacer_from :: "(string \<times> string) list \<Rightarrow> nat \<Rightarrow> string \<Rightarrow> string" where
  "replacer_from ps n [] = []"
| "replacer_from ps (Suc n) (x # xs) = replacer_from ps n xs"
| "replacer_from ps 0 (x # xs) =
     (case find (\<lambda>(old, new). prefix old (x # xs)) ps of
        Some (old, new) \<Rightarrow> new @ replacer_from ps (length old - 1) xs
      | None \<Rightarrow> x # replacer_from ps 0 xs)"

definition replacer :: "(string \<times> string) list \<Rightarrow> string \<Rightarrow> string" where
  "replacer ps s = replacer_from ps 0 s"

text \<open>\<^verbatim>\<open>strings.TrimSpace\<close>\<close>

definition is_space :: "char \<Rightarrow> bool" where
  "is_space c \<longleftrightarrow> (of_char c :: nat) \<in> {9, 10, 11, 12, 13, 32}"

definition trim_space :: "string \<Rightarrow> string" where
  "trim_space s = rev (dropWhile is_space (rev (dropWhile is_space s)))"

text \<open>\<^verbatim>\<open>strings.ToLower\<close>\<close>

definition lower_char :: "char \<Rightarrow> char" where
  "lower_char c = (if 65 \<le> (of_char c :: nat) \<and> (of_char c :: nat) \<le> 90
                   then char_of ((of_char c :: nat) + 32) else c)"

definition to_lower :: "string \<Rightarrow> string" where
  "to_lower s = map lower_char s"

section \<open>Numbers\<close>

text \<open>\<^verbatim>\<open>fmt.Sprint(n)\<close> and \<^verbatim>\<open>%d\<close>\<close>

fun show_nat :: "nat \<Rightarrow> string" where
  "show_nat n = (if n < 10 then [char_of (48 + n)]
                 else show_nat (n div 10) @ [char_of (48 + n mod 10)])"

declare show_nat.simps [simp del]

definition show_int :: "int \<Rightarrow> string" where
  "show_int i = (if i < 0 then CHR ''-'' # show_nat (nat (- i)) else show_nat (nat i))"

definition is_digit :: "char \<Rightarrow> bool" where
  "is_digit c \<longleftrightarrow> 48 \<le> (of_char c :: nat) \<and> (of_char c :: nat) \<le> 57"

fun read_nat_acc :: "nat \<Rightarrow> string \<Rightarrow> nat option" where
  "read_nat_acc acc [] = Some acc"
| "read_nat_acc acc (c # cs) =
     (if is_digit c then read_nat_acc (10 * acc + (of_char c - 48)) cs else None)"

definition read_nat :: "string \<Rightarrow> nat option" where
  "read_nat s = (if s = [] then None else read_nat_acc 0 s)"

text \<open>\<^verbatim>\<open>strconv.ParseInt(s, 10, bits)\<close>: an optional sign, digits, and a range check.\<close>

definition parse_int :: "nat \<Rightarrow> string \<Rightarrow> int option" where
  "parse_int bits s =
     (let (neg, ds) = (case s of
            [] \<Rightarrow> (False, [])
          | c # cs \<Rightarrow> if c = CHR ''-'' then (True, cs)
                      else if c = CHR ''+'' then (False, cs) else (False, c # cs))
      in case read_nat ds of
           None \<Rightarrow> None
         | Some n \<Rightarrow>
             let v = (if neg then - int n else int n)
             in if - (2 ^ (bits - 1)) \<le> v \<and> v < 2 ^ (bits - 1) then Some v else None)"

lemma show_nat_nonempty [simp]: "show_nat n \<noteq> []"
  by (subst show_nat.simps) simp

lemma show_nat_digits: "c \<in> set (show_nat n) \<Longrightarrow> is_digit c"
proof (induction n rule: show_nat.induct)
  case (1 n)
  then show ?case
    by (subst (asm) (2) show_nat.simps) (auto simp: is_digit_def split: if_splits)
qed

lemma read_nat_acc_append:
  "read_nat_acc acc (s @ t) =
     (case read_nat_acc acc s of None \<Rightarrow> None | Some a \<Rightarrow> read_nat_acc a t)"
  by (induction s arbitrary: acc) auto

lemma read_nat_acc_show: "read_nat_acc 0 (show_nat n) = Some n"
proof (induction n rule: show_nat.induct)
  case (1 n)
  show ?case
    by (subst show_nat.simps) (use 1 in \<open>auto simp: read_nat_acc_append is_digit_def\<close>)
qed

lemma read_show_nat [simp]: "read_nat (show_nat n) = Some n"
  by (simp add: read_nat_def read_nat_acc_show)

lemma show_nat_inj: "show_nat m = show_nat n \<Longrightarrow> m = n"
  by (metis option.inject read_show_nat)

lemma show_nat_hd: "\<exists>c cs. show_nat n = c # cs \<and> is_digit c"
  by (metis list.exhaust list.set_intros(1) show_nat_digits show_nat_nonempty)

lemma parse_show_int:
  assumes "- (2 ^ (bits - 1)) \<le> i" and "i < 2 ^ (bits - 1)"
  shows "parse_int bits (show_int i) = Some i"
proof (cases "i < 0")
  case True
  with assms show ?thesis
    by (simp add: parse_int_def show_int_def)
next
  case False
  obtain c cs where c: "show_nat (nat i) = c # cs" "is_digit c"
    using show_nat_hd by blast
  from c(2) have "c \<noteq> CHR ''-''" "c \<noteq> CHR ''+''"
    by (auto simp: is_digit_def)
  moreover have "read_nat (c # cs) = Some (nat i)"
    using c(1) by (metis read_show_nat)
  ultimately show ?thesis
    using c False assms by (simp add: parse_int_def show_int_def)
qed

text \<open>
  \<^verbatim>\<open>strconv.ParseInt(s, 0, bits)\<close>, as the flag package uses it: the base is taken
  from a prefix (\<^verbatim>\<open>0x\<close>, \<^verbatim>\<open>0o\<close>, \<^verbatim>\<open>0b\<close>, a leading zero for octal), and underscores may
  separate digits.
\<close>

definition digit_value :: "char \<Rightarrow> nat" where
  "digit_value c = (let n = (of_char (lower_char c) :: nat) in
     if 48 \<le> n \<and> n \<le> 57 then n - 48 else if 97 \<le> n \<and> n \<le> 122 then n - 87 else 36)"

fun read_base :: "nat \<Rightarrow> nat \<Rightarrow> string \<Rightarrow> nat option" where
  "read_base b acc [] = Some acc"
| "read_base b acc (c # cs) =
     (if c = CHR ''_'' then read_base b acc cs
      else if digit_value c < b then read_base b (b * acc + digit_value c) cs
      else None)"

fun underscores_ok :: "bool \<Rightarrow> char \<Rightarrow> string \<Rightarrow> bool" where
  "underscores_ok hex prev [] = (prev \<noteq> CHR ''_'')"
| "underscores_ok hex prev (c # cs) =
     (if is_digit c \<or> (hex \<and> digit_value c < 16) then underscores_ok hex CHR ''0'' cs
      else if c = CHR ''_'' then prev = CHR ''0'' \<and> underscores_ok hex c cs
      else prev \<noteq> CHR ''_'' \<and> underscores_ok hex CHR ''!'' cs)"

definition split_base :: "string \<Rightarrow> nat \<times> string" where
  "split_base s = (case s of
      c # d # e # cs \<Rightarrow>
        if c \<noteq> CHR ''0'' then (10, s)
        else if lower_char d = CHR ''b'' then (2, e # cs)
        else if lower_char d = CHR ''o'' then (8, e # cs)
        else if lower_char d = CHR ''x'' then (16, e # cs)
        else (8, d # e # cs)
    | c # cs \<Rightarrow> if c = CHR ''0'' then (8, cs) else (10, s)
    | [] \<Rightarrow> (10, []))"

definition parse_uint0 :: "string \<Rightarrow> nat option" where
  "parse_uint0 s =
     (if s = [] then None
      else let (b, ds) = split_base s in
        if CHR ''_'' \<in> set ds \<and>
           \<not> underscores_ok (b = 16) (if length ds + 2 = length s then CHR ''0'' else CHR ''^'') 
               (if length ds + 2 = length s then ds else s)
        then None
        else read_base b 0 ds)"

definition parse_int0 :: "nat \<Rightarrow> string \<Rightarrow> int option" where
  "parse_int0 bits s =
     (let (neg, ds) = (case s of
            [] \<Rightarrow> (False, [])
          | c # cs \<Rightarrow> if c = CHR ''-'' then (True, cs)
                      else if c = CHR ''+'' then (False, cs) else (False, c # cs))
      in case parse_uint0 ds of
           None \<Rightarrow> None
         | Some n \<Rightarrow>
             let v = (if neg then - int n else int n)
             in if - (2 ^ (bits - 1)) \<le> v \<and> v < 2 ^ (bits - 1) then Some v else None)"

lemma read_base_digits:
  "list_all is_digit s \<Longrightarrow> read_base 10 acc s = read_nat_acc acc s"
proof (induction s arbitrary: acc)
  case (Cons c s)
  then have d: "is_digit c" by simp
  then have "lower_char c = c" by (auto simp: lower_char_def is_digit_def)
  then have "digit_value c = of_char c - 48" "digit_value c < 10"
    using d by (auto simp: digit_value_def is_digit_def Let_def)
  moreover have "c \<noteq> CHR ''_''" using d by (auto simp: is_digit_def)
  ultimately show ?case using Cons d by simp
qed simp

lemma show_nat_first_zero: "show_nat n = CHR ''0'' # cs \<Longrightarrow> n = 0 \<and> cs = []"
proof (induction n arbitrary: cs rule: show_nat.induct)
  case (1 n)
  show ?case
  proof (cases "n < 10")
    case True
    then have "show_nat n = [char_of (48 + n)]" by (simp add: show_nat.simps)
    with "1.prems" have "(of_char (char_of (48 + n) :: char) :: nat) = of_char CHR ''0''" "cs = []" by auto
    then show ?thesis using True by simp
  next
    case False
    then have s: "show_nat n = show_nat (n div 10) @ [char_of (48 + n mod 10)]"
      by (subst show_nat.simps) simp
    obtain ds where "show_nat (n div 10) = CHR ''0'' # ds"
      using "1.prems" unfolding s by (cases "show_nat (n div 10)") auto
    then have "n div 10 = 0" using "1.IH"[OF False] by simp
    then show ?thesis using False by simp
  qed
qed

lemma parse_uint0_show [simp]: "parse_uint0 (show_nat n) = Some n"
proof (cases "hd (show_nat n) = CHR ''0''")
  case True
  then have n: "show_nat n = CHR ''0'' # tl (show_nat n)" by (metis list.collapse show_nat_nonempty)
  then have "n = 0" "show_nat n = ''0''" using show_nat_first_zero[OF n] by (blast, metis)
  moreover have "parse_uint0 ''0'' = Some 0" by (simp add: parse_uint0_def split_base_def)
  ultimately show ?thesis by simp
next
  case False
  have digits: "list_all is_digit (show_nat n)" using show_nat_digits by (auto simp: list_all_iff)
  have "split_base (show_nat n) = (10, show_nat n)"
    using False by (auto simp: split_base_def split: list.splits)
  moreover have "CHR ''_'' \<notin> set (show_nat n)"
    using show_nat_digits by (force simp: is_digit_def)
  ultimately show ?thesis
    using read_base_digits[OF digits, of 0] read_nat_acc_show by (simp add: parse_uint0_def)
qed

lemma parse_int0_show:
  assumes "- (2 ^ (bits - 1)) \<le> i" and "i < 2 ^ (bits - 1)"
  shows "parse_int0 bits (show_int i) = Some i"
proof (cases "i < 0")
  case True
  with assms show ?thesis
    by (simp add: parse_int0_def show_int_def)
next
  case False
  obtain c cs where c: "show_nat (nat i) = c # cs" "is_digit c"
    using show_nat_hd by blast
  from c(2) have "c \<noteq> CHR ''-''" "c \<noteq> CHR ''+''"
    by (auto simp: is_digit_def)
  moreover have "parse_uint0 (c # cs) = Some (nat i)"
    using c(1) by (metis parse_uint0_show)
  ultimately show ?thesis
    using c False assms by (simp add: parse_int0_def show_int_def)
qed

end
