(* ===== verification/Go_Flag.thy ===== *)
theory Go_Flag
  imports Go_Strings
begin

text \<open>
  Go's \<^verbatim>\<open>flag\<close> package. A command's flags are functions on the command's state
  \<open>'s\<close> (its struct of options): \<open>lookup name\<close> says whether the flag exists, whether
  it is boolean, and what its \<^verbatim>\<open>Set\<close> does. \<open>flag_parse\<close> is \<^verbatim>\<open>FlagSet.Parse\<close>: it
  returns the names that were set, in order, and the positional arguments.
  The locale \<open>flag_value\<close> is the contract of a \<^verbatim>\<open>flag.Value\<close>.
\<close>

type_synonym 's flag = "bool \<times> (string \<Rightarrow> ('s, unit) call)"

text \<open>\<^verbatim>\<open>-name\<close>, \<^verbatim>\<open>-name=value\<close>, with one or two dashes; \<open>None\<close> is a syntax error.\<close>

definition flag_name_value :: "string \<Rightarrow> (string \<times> string option) option" where
  "flag_name_value name =
     (case name of
        [] \<Rightarrow> None
      | c # cs \<Rightarrow>
          if c = CHR ''-'' \<or> c = CHR ''='' then None
          else Some (case split_n2 CHR ''='' cs of
                 [n, v] \<Rightarrow> (c # n, Some v)
               | _ \<Rightarrow> (c # cs, None)))"

definition strip_dashes :: "string \<Rightarrow> string" where
  "strip_dashes s = (if length s > 1 \<and> s ! 1 = CHR ''-'' then drop 2 s else drop 1 s)"

definition is_flag_arg :: "string \<Rightarrow> bool" where
  "is_flag_arg s \<longleftrightarrow> 2 \<le> length s \<and> hd s = CHR ''-''"

text \<open>
  The value a flag is set to and the arguments after it: a boolean flag takes no
  following argument, any other flag without \<^verbatim>\<open>=\<close> takes the next one.
\<close>

definition flag_argument ::
  "bool \<Rightarrow> string option \<Rightarrow> string list \<Rightarrow> (string \<times> string list) option" where
  "flag_argument is_bool value args =
     (case value of
        Some v \<Rightarrow> Some (v, args)
      | None \<Rightarrow> if is_bool then Some (''true'', args)
                else (case args of [] \<Rightarrow> None | v # rest \<Rightarrow> Some (v, rest)))"

function (sequential) flag_parse ::
  "(string \<Rightarrow> 's flag option) \<Rightarrow> string list \<Rightarrow> ('s, string list \<times> string list) call" where
  "flag_parse lookup [] = ret ([], [])"
| "flag_parse lookup (s # args) =
     (if \<not> is_flag_arg s then ret ([], s # args)
      else if s = ''--'' then ret ([], args)
      else case flag_name_value (strip_dashes s) of
        None \<Rightarrow> fail (Msg (''bad flag syntax: '' @ s))
      | Some (name, value) \<Rightarrow>
          (case lookup name of
             None \<Rightarrow> fail (Msg (''flag provided but not defined: -'' @ name))
           | Some (is_bool, upd) \<Rightarrow>
               (case flag_argument is_bool value args of
                  None \<Rightarrow> fail (Msg (''flag needs an argument: -'' @ name))
                | Some (v, rest) \<Rightarrow>
                    seq (upd v) (\<lambda>_.
                    seq (flag_parse lookup rest) (\<lambda>(names, pos).
                    ret (name # names, pos))))))"
  by pat_completeness auto
termination
  by (relation "measure (\<lambda>(l, args). length args)")
    (auto simp: flag_argument_def split: if_splits option.splits list.splits)

declare flag_parse.simps(2) [simp del]

text \<open>\<^verbatim>\<open>strconv.ParseBool\<close> and the boolean flag's \<^verbatim>\<open>String\<close>\<close>

definition show_bool :: "bool \<Rightarrow> string" where
  "show_bool b = (if b then ''true'' else ''false'')"

definition parse_bool :: "string \<Rightarrow> bool option" where
  "parse_bool s =
     (if s \<in> set [''1'', ''t'', ''T'', ''true'', ''TRUE'', ''True''] then Some True
      else if s \<in> set [''0'', ''f'', ''F'', ''false'', ''FALSE'', ''False''] then Some False
      else None)"

definition set_bool :: "string \<Rightarrow> (bool, unit) call" where
  "set_bool s b = (case parse_bool s of
      None \<Rightarrow> (Err (Msg ''parse error''), b)
    | Some b' \<Rightarrow> (Ok (), b'))"

definition set_string :: "string \<Rightarrow> (string, unit) call" where
  "set_string s old = (Ok (), s)"

text \<open>An \<^verbatim>\<open>int\<close> flag, 64 bits wide.\<close>

definition set_int :: "string \<Rightarrow> (int, unit) call" where
  "set_int s i = (case parse_int0 64 s of
      None \<Rightarrow> (Err (Msg ''parse error''), i)
    | Some i' \<Rightarrow> (Ok (), i'))"

text \<open>A flag of one field of the command's state.\<close>

definition on_field ::
  "('s \<Rightarrow> 'v) \<Rightarrow> ('v \<Rightarrow> 's \<Rightarrow> 's) \<Rightarrow> ('v, unit) call \<Rightarrow> ('s, unit) call" where
  "on_field rd wr m s = (case m (rd s) of (r, v) \<Rightarrow> (r, wr v s))"

section \<open>Flag values\<close>

text \<open>
  A flag's value type: \<open>str\<close> and \<open>set\<close> are its \<^verbatim>\<open>String\<close> and \<^verbatim>\<open>Set\<close> methods,
  \<open>fresh\<close> the value a newly made command has, \<open>valid\<close> what \<^verbatim>\<open>Set\<close> maintains.
  The law is the one the privileged re-execution relies on: printing a value and
  setting it on a fresh command gives the value back.
\<close>

locale flag_value =
  fixes str :: "'v \<Rightarrow> string"
    and set_to :: "string \<Rightarrow> ('v, unit) call"
    and fresh :: 'v
    and valid :: "'v \<Rightarrow> bool"
  assumes valid_fresh: "valid fresh"
    and valid_set: "valid v \<Longrightarrow> set_to s v = (Ok (), v') \<Longrightarrow> valid v'"
    and set_str: "valid v \<Longrightarrow> set_to (str v) fresh = (Ok (), v)"
begin

lemma valid_each: "valid v \<Longrightarrow> each set_to args v = (Ok (), v') \<Longrightarrow> valid v'"
proof (induction args arbitrary: v)
  case (Cons a args)
  from Cons.prems(2) obtain u where u: "set_to a v = (Ok (), u)" "each set_to args u = (Ok (), v')"
    by (auto elim: seq_OkD)
  show ?case using Cons.IH[OF valid_set[OF Cons.prems(1) u(1)] u(2)] .
qed (simp add: ret_def)

text \<open>However often a flag was given, forwarding its final value reproduces it.\<close>

lemma forward: "each set_to args fresh = (Ok (), v) \<Longrightarrow> set_to (str v) fresh = (Ok (), v)"
  by (rule set_str) (rule valid_each[OF valid_fresh])

lemma str_inj: "valid u \<Longrightarrow> valid v \<Longrightarrow> str u = str v \<Longrightarrow> u = v"
  by (metis prod.inject set_str)

end

interpretation bool_flag: flag_value show_bool set_bool False "\<lambda>_. True"
  by unfold_locales (auto simp: set_bool_def show_bool_def parse_bool_def)

interpretation string_flag: flag_value "\<lambda>s. s" set_string "''''" "\<lambda>_. True"
  by unfold_locales (auto simp: set_string_def)

lemma parse_int0_range: "parse_int0 bits s = Some i \<Longrightarrow> - (2 ^ (bits - 1)) \<le> i \<and> i < 2 ^ (bits - 1)"
  by (auto simp: parse_int0_def Let_def split: option.splits prod.splits if_splits)

interpretation int_flag: flag_value show_int set_int 0 "\<lambda>i. - (2 ^ 63) \<le> i \<and> i < 2 ^ 63"
proof unfold_locales
  show "- (2 ^ 63) \<le> v' \<and> v' < 2 ^ 63" if "set_int s v = (Ok (), v')" for s v v'
    using that parse_int0_range[of 64 s v'] by (auto simp: set_int_def split: option.splits)
  show "set_int (show_int v) 0 = (Ok (), v)" if "- (2 ^ 63) \<le> v \<and> v < 2 ^ 63" for v
    using that parse_int0_show[of 64 v] by (simp add: set_int_def)
qed auto

section \<open>Parsing an argument that carries its value\<close>

lemma flag_name_value_eq:
  assumes "name \<noteq> []" and "hd name \<noteq> CHR ''-''" and "CHR ''='' \<notin> set name"
  shows "flag_name_value (name @ CHR ''='' # v) = Some (name, Some v)"
  using assms by (cases name) (auto simp: flag_name_value_def split_n2_append)

lemma flag_name_value_bare:
  assumes "name \<noteq> []" and "hd name \<noteq> CHR ''-''" and "CHR ''='' \<notin> set name"
  shows "flag_name_value name = Some (name, None)"
  using assms by (cases name) (auto simp: flag_name_value_def split_n2_no_sep)

definition flag_word :: "string \<Rightarrow> bool" where
  "flag_word name \<longleftrightarrow> name \<noteq> [] \<and> hd name \<noteq> CHR ''-'' \<and> CHR ''='' \<notin> set name"

lemma strip_dash_word: "flag_word name \<Longrightarrow> strip_dashes (CHR ''-'' # name @ rest) = name @ rest"
  by (cases name) (auto simp: strip_dashes_def flag_word_def)

lemma flag_parse_assign:
  assumes "flag_word name" and "lookup name = Some (b, upd)"
  shows "flag_parse lookup ((CHR ''-'' # name @ CHR ''='' # v) # args) =
    seq (upd v) (\<lambda>_. seq (flag_parse lookup args) (\<lambda>(names, pos). ret (name # names, pos)))"
proof -
  have "is_flag_arg (CHR ''-'' # name @ CHR ''='' # v)"
    by (simp add: is_flag_arg_def)
  moreover have "CHR ''-'' # name @ CHR ''='' # v \<noteq> ''--''"
    using assms(1) by (cases name) (auto simp: flag_word_def)
  ultimately show ?thesis
    using assms strip_dash_word[OF assms(1), of "CHR ''='' # v"]
    by (simp add: flag_parse.simps(2) flag_name_value_eq flag_word_def flag_argument_def)
qed

lemma flag_parse_switch:
  assumes "flag_word name" and "lookup name = Some (True, upd)"
  shows "flag_parse lookup ((CHR ''-'' # name) # args) =
    seq (upd ''true'') (\<lambda>_. seq (flag_parse lookup args) (\<lambda>(names, pos). ret (name # names, pos)))"
proof -
  have "is_flag_arg (CHR ''-'' # name)"
    using assms(1) by (cases name) (auto simp: is_flag_arg_def flag_word_def)
  moreover have "CHR ''-'' # name \<noteq> ''--''"
    using assms(1) by (cases name) (auto simp: flag_word_def)
  ultimately show ?thesis
    using assms strip_dash_word[OF assms(1), of "[]"]
    by (simp add: flag_parse.simps(2) flag_name_value_bare flag_word_def flag_argument_def)
qed

lemma flag_parse_dashes: "flag_parse lookup (''--'' # args) = ret ([], args)"
  by (simp add: flag_parse.simps(2) is_flag_arg_def)

lemma flag_parse_positional: "\<not> is_flag_arg s \<Longrightarrow> flag_parse lookup (s # args) = ret ([], s # args)"
  by (simp add: flag_parse.simps(2))

text \<open>A flag bound to one field, and the runs of the three primitive kinds.\<close>

definition field_flag ::
  "bool \<Rightarrow> ('s \<Rightarrow> 'v) \<Rightarrow> (('v \<Rightarrow> 'v) \<Rightarrow> 's \<Rightarrow> 's) \<Rightarrow> (string \<Rightarrow> ('v, unit) call) \<Rightarrow> 's flag" where
  "field_flag is_bool rd upd set_to = (is_bool, \<lambda>s. on_field rd (\<lambda>v. upd (\<lambda>_. v)) (set_to s))"

lemma on_field_run:
  "on_field rd wr (set_string s) st = (Ok (), wr s st)"
  "on_field rdb wrb (set_bool (show_bool b)) st = (Ok (), wrb b st)"
  "on_field rdb wrb (set_bool ''true'') st = (Ok (), wrb True st)"
  "- (2 ^ 63) \<le> i \<and> i < 2 ^ 63 \<Longrightarrow> on_field rdi wri (set_int (show_int i)) st = (Ok (), wri i st)"
  by (simp_all add: on_field_def set_string_def set_bool_def parse_bool_def show_bool_def
      set_int_def parse_int0_show)

end
