(* ===== verification/Go_Path.thy ===== *)
theory Go_Path
  imports Go_Strings
begin

text \<open>
  Go's \<^verbatim>\<open>path/filepath\<close> on Unix: lexical operations on slash-separated names.
  The lemmas at the end relate them to component lists: a cleaned absolute path
  is \<open>path_of cs\<close> for a list \<open>cs\<close> of plain names, and joining plain names to it
  appends to that list.
\<close>

section \<open>Clean, Join, Base, Dir, Rel\<close>

definition rooted :: "string \<Rightarrow> bool" where
  "rooted s \<longleftrightarrow> (case s of [] \<Rightarrow> False | c # _ \<Rightarrow> c = CHR ''/'')"

fun clean_parts :: "bool \<Rightarrow> string list \<Rightarrow> string list \<Rightarrow> string list" where
  "clean_parts r acc [] = rev acc"
| "clean_parts r acc (c # cs) =
     (if c = '''' \<or> c = ''.'' then clean_parts r acc cs
      else if c = ''..'' then
        (case acc of
           [] \<Rightarrow> if r then clean_parts r [] cs else clean_parts r [''..''] cs
         | a # as \<Rightarrow> if a = ''..'' then clean_parts r (''..'' # acc) cs
                     else clean_parts r as cs)
      else clean_parts r (c # acc) cs)"

definition path_parts :: "string \<Rightarrow> string list" where
  "path_parts s = clean_parts (rooted s) [] (split_on CHR ''/'' s)"

text \<open>\<open>path_of cs\<close> is the absolute path with the components \<open>cs\<close>.\<close>

definition path_of :: "string list \<Rightarrow> string" where
  "path_of cs = CHR ''/'' # join ''/'' cs"

text \<open>\<^verbatim>\<open>filepath.Clean\<close>\<close>

definition clean :: "string \<Rightarrow> string" where
  "clean s = (if rooted s then path_of (path_parts s)
              else if path_parts s = [] then ''.'' else join ''/'' (path_parts s))"

text \<open>\<^verbatim>\<open>filepath.Join\<close>\<close>

definition path_join :: "string list \<Rightarrow> string" where
  "path_join es = (case dropWhile (\<lambda>e. e = '''') es of
      [] \<Rightarrow> ''''
    | fs \<Rightarrow> clean (join ''/'' fs))"

text \<open>\<^verbatim>\<open>filepath.Base\<close> and \<^verbatim>\<open>filepath.Dir\<close>\<close>

definition path_base :: "string \<Rightarrow> string" where
  "path_base s = (if s = '''' then ''.'' else
     let t = rev (dropWhile (\<lambda>c. c = CHR ''/'') (rev s))
     in if t = '''' then ''/'' else last (split_on CHR ''/'' t))"

definition path_dir :: "string \<Rightarrow> string" where
  "path_dir s = clean (case last_index_of CHR ''/'' s of
      None \<Rightarrow> ''''
    | Some i \<Rightarrow> take (Suc i) s)"

text \<open>\<^verbatim>\<open>filepath.IsAbs\<close> and \<^verbatim>\<open>path.IsAbs\<close>\<close>

definition is_abs :: "string \<Rightarrow> bool" where
  "is_abs s \<longleftrightarrow> rooted s"

fun strip_common :: "string list \<Rightarrow> string list \<Rightarrow> string list \<times> string list" where
  "strip_common (a # as) (b # bs) = (if a = b then strip_common as bs else (a # as, b # bs))"
| "strip_common as bs = (as, bs)"

text \<open>\<^verbatim>\<open>filepath.Rel(base, target)\<close>; \<open>None\<close> for its error.\<close>

definition path_rel :: "string \<Rightarrow> string \<Rightarrow> string option" where
  "path_rel b t =
     (if rooted b \<noteq> rooted t then None
      else case strip_common (path_parts b) (path_parts t) of
        (b', t') \<Rightarrow>
          if b' \<noteq> [] \<and> hd b' = ''..'' then None
          else if b' = [] \<and> t' = [] then Some ''.''
          else Some (join ''/'' (replicate (length b') ''..'' @ t')))"

section \<open>Component lists\<close>

definition plain :: "string \<Rightarrow> bool" where
  "plain c \<longleftrightarrow> c \<noteq> '''' \<and> c \<noteq> ''.'' \<and> c \<noteq> ''..'' \<and> CHR ''/'' \<notin> set c"

lemma rooted_path_of [simp]: "rooted (path_of cs)"
  by (simp add: rooted_def path_of_def)

lemma clean_parts_plain:
  "list_all plain cs \<Longrightarrow> clean_parts r acc cs = rev acc @ cs"
  by (induction cs arbitrary: acc) (auto simp: plain_def)

lemma clean_parts_append_plain:
  "list_all plain cs \<Longrightarrow> clean_parts r acc (xs @ cs) = clean_parts r acc xs @ cs"
  by (induction r acc xs rule: clean_parts.induct)
    (auto simp: clean_parts_plain split: list.splits)

lemma clean_parts_plain_empty:
  "list_all plain cs \<Longrightarrow> clean_parts r acc (cs @ [[]]) = rev acc @ cs"
  by (induction cs arbitrary: acc) (auto simp: plain_def)

lemma clean_parts_rooted_plain:
  "list_all plain acc \<Longrightarrow> \<forall>c\<in>set cs. CHR ''/'' \<notin> set c \<Longrightarrow>
     list_all plain (clean_parts True acc cs)"
proof (induction "True" acc cs rule: clean_parts.induct)
  case (2 acc c cs)
  consider "c = '''' \<or> c = ''.''" | "c = ''..''" | "plain c"
    using 2 by (auto simp: plain_def)
  then show ?case
  proof cases
    case 2
    then show ?thesis
      using "2.hyps" "2.prems" by (cases acc) (auto simp: plain_def)
  next
    case 3
    then have "clean_parts True acc (c # cs) = clean_parts True (c # acc) cs"
      by (simp add: plain_def)
    moreover have "list_all plain (clean_parts True (c # acc) cs)"
      using 3 "2.prems" by (intro "2.hyps") (auto simp: plain_def)
    ultimately show ?thesis by simp
  qed (use 2 in auto)
qed (simp add: list_all_iff)

lemma path_parts_plain: "rooted s \<Longrightarrow> list_all plain (path_parts s)"
  unfolding path_parts_def
  by (auto intro!: clean_parts_rooted_plain dest: split_on_parts)

lemma split_on_join_plain:
  "list_all plain cs \<Longrightarrow> cs \<noteq> [] \<Longrightarrow> split_on CHR ''/'' (join ''/'' cs) = cs"
  by (rule split_on_join) (auto simp: list_all_iff plain_def)

lemma path_parts_path_of [simp]:
  assumes "list_all plain cs"
  shows "path_parts (path_of cs) = cs"
proof (cases "cs = []")
  case True
  then show ?thesis by (simp add: path_parts_def path_of_def)
next
  case False
  then have "path_parts (path_of cs) = clean_parts True [] ([] # cs)"
    using assms by (simp add: path_parts_def rooted_def path_of_def split_on_join_plain)
  then show ?thesis
    using assms by (simp add: clean_parts_plain)
qed

lemma clean_path_of: "list_all plain cs \<Longrightarrow> clean (path_of cs) = path_of cs"
  by (simp add: clean_def)

lemma clean_rooted: "rooted s \<Longrightarrow> clean s = path_of (path_parts s)"
  by (simp add: clean_def)

lemma clean_idem_rooted: "rooted s \<Longrightarrow> clean (clean s) = clean s"
  by (simp add: clean_rooted path_parts_plain)

lemma path_of_inj:
  "list_all plain cs \<Longrightarrow> list_all plain ds \<Longrightarrow> path_of cs = path_of ds \<Longrightarrow> cs = ds"
  by (metis path_parts_path_of)

lemma join_Cons: "ns \<noteq> [] \<Longrightarrow> join sep (s # ns) = s @ sep @ join sep ns"
  by (cases ns) auto

lemma path_join_rooted:
  assumes "rooted s" and "list_all plain ns"
  shows "path_join (s # ns) = path_of (path_parts s @ ns)"
proof -
  from assms(1) have s: "s \<noteq> []" by (auto simp: rooted_def)
  have r: "rooted (join ''/'' (s # ns))"
    using assms(1) by (cases ns; cases s) (auto simp: rooted_def)
  have "split_on CHR ''/'' (join ''/'' (s # ns)) = split_on CHR ''/'' s @ ns"
    using assms(2) by (cases "ns = []") (simp_all add: join_Cons split_on_append split_on_join_plain)
  then have "path_parts (join ''/'' (s # ns)) = path_parts s @ ns"
    using assms r by (simp add: path_parts_def clean_parts_append_plain)
  then show ?thesis
    using s r by (simp add: path_join_def clean_rooted)
qed

lemma path_join_path_of [simp]:
  "list_all plain cs \<Longrightarrow> list_all plain ns \<Longrightarrow>
     path_join (path_of cs # ns) = path_of (cs @ ns)"
  by (simp add: path_join_rooted)

lemma join_snoc: "cs \<noteq> [] \<Longrightarrow> join sep (cs @ [n]) = join sep cs @ sep @ n"
  by (induction sep cs rule: join.induct) auto

lemma path_of_snoc:
  "path_of (cs @ [n]) = (if cs = [] then '''' else path_of cs) @ CHR ''/'' # n"
  by (simp add: path_of_def join_snoc)

lemma last_sep_path_of:
  assumes "plain n"
  shows "last_index_of CHR ''/'' (path_of (cs @ [n])) =
           Some (length (if cs = [] then '''' else path_of cs))"
  unfolding path_of_snoc by (rule last_index_of_append) (use assms in \<open>simp add: plain_def\<close>)

lemma path_dir_path_of [simp]:
  assumes "list_all plain cs" and "plain n"
  shows "path_dir (path_of (cs @ [n])) = path_of cs"
proof -
  let ?d = "(if cs = [] then '''' else path_of cs) @ ''/''"
  have tk: "take (Suc (length (if cs = [] then '''' else path_of cs))) (path_of (cs @ [n])) = ?d"
    by (simp add: path_of_snoc)
  have r: "rooted ?d" by (simp add: rooted_def path_of_def)
  have "split_on CHR ''/'' ?d = (if cs = [] then [[], []] else [] # cs @ [[]])"
    using assms(1) split_on_append[of "CHR ''/''" "path_of cs" "[]"]
    by (simp add: path_of_def split_on_join_plain)
  then have "path_parts ?d = clean_parts True [] (cs @ [[]])"
    using r by (simp add: path_parts_def)
  then have "path_parts ?d = cs"
    using assms(1) by (simp add: clean_parts_plain_empty)
  then show ?thesis
    using r assms(2) by (simp add: path_dir_def last_sep_path_of tk clean_rooted)
qed

lemma path_base_path_of [simp]:
  assumes "list_all plain cs" and "plain n"
  shows "path_base (path_of (cs @ [n])) = n"
proof -
  from assms(2) obtain x where x: "n \<noteq> []" "last n \<noteq> CHR ''/''"
    by (metis last_in_set plain_def)
  have ne: "path_of (cs @ [n]) \<noteq> []" by (simp add: path_of_def)
  have l: "last (path_of (cs @ [n])) = last n"
    using x by (simp add: path_of_snoc)
  have "dropWhile (\<lambda>c. c = CHR ''/'') (rev (path_of (cs @ [n]))) = rev (path_of (cs @ [n]))"
    using ne l x by (cases "rev (path_of (cs @ [n]))") (auto simp: rev_eq_Cons_iff)
  moreover have "last (split_on CHR ''/'' (path_of (cs @ [n]))) = n"
    using assms by (simp add: path_of_snoc split_on_append split_on_no_sep plain_def)
  ultimately show ?thesis
    using ne by (simp add: path_base_def)
qed

section \<open>Relative names without dot-dot\<close>

text \<open>The components that a relative name without \<^verbatim>\<open>..\<close> adds to a directory.\<close>

definition descend :: "string \<Rightarrow> string list" where
  "descend p = filter (\<lambda>c. c \<noteq> '''' \<and> c \<noteq> ''.'') (split_on CHR ''/'' p)"

lemma clean_parts_descend:
  "''..'' \<notin> set cs \<Longrightarrow>
     clean_parts r acc (xs @ cs) = clean_parts r acc xs @ filter (\<lambda>c. c \<noteq> '''' \<and> c \<noteq> ''.'') cs"
proof (induction r acc xs rule: clean_parts.induct)
  case (1 r acc)
  then show ?case
    by (induction cs arbitrary: acc) auto
qed (auto split: list.splits)

lemma path_join_descend:
  assumes "rooted s" and "''..'' \<notin> set (split_on CHR ''/'' p)"
  shows "path_join [s, p] = path_of (path_parts s @ descend p)"
proof -
  have r: "rooted (s @ ''/'' @ p)" using assms(1) by (cases s) (auto simp: rooted_def)
  have "split_on CHR ''/'' (s @ ''/'' @ p) = split_on CHR ''/'' s @ split_on CHR ''/'' p"
    by (simp add: split_on_append)
  then have "path_parts (s @ ''/'' @ p) = path_parts s @ descend p"
    using assms r by (simp add: path_parts_def descend_def clean_parts_descend)
  moreover have "s \<noteq> []" using assms(1) by (auto simp: rooted_def)
  ultimately show ?thesis
    using r by (simp add: path_join_def clean_rooted)
qed

lemma split_on_infix: "x \<in> set (split_on c s) \<Longrightarrow> \<exists>a b. s = a @ x @ b"
proof (induction s arbitrary: x)
  case (Cons d s)
  show ?case
  proof (cases "d = c")
    case True
    then have "x = [] \<or> x \<in> set (split_on c s)" using Cons.prems by auto
    then show ?thesis
    proof
      assume "x \<in> set (split_on c s)"
      then obtain a b where "s = a @ x @ b" using Cons.IH by blast
      then show ?thesis by (metis append_Cons)
    qed auto
  next
    case False
    obtain y ys where y: "split_on c s = y # ys" by (cases "split_on c s") auto
    then have "x = d # y \<or> x \<in> set ys" using Cons.prems False by auto
    then show ?thesis
    proof
      assume "x = d # y"
      moreover have "\<exists>b. s = y @ b"
        using join_split_on[of c s] y by (cases ys) (auto simp: join_Cons)
      ultimately show ?thesis by (metis append_Cons append_Nil)
    next
      assume "x \<in> set ys"
      then obtain a b where "s = a @ x @ b" using Cons.IH[of x] y by auto
      then show ?thesis by (metis append_Cons)
    qed
  qed
qed simp

lemma no_dotdot_part: "\<not> contains p ''..'' \<Longrightarrow> ''..'' \<notin> set (split_on CHR ''/'' p)"
  using split_on_infix contains_iff by blast

end
