(* ===== verification/File_System.thy ===== *)
theory File_System
  imports Go_Path "HOL-Library.List_Lexorder" "HOL-Library.Char_ord"
begin

text \<open>
  The operating system as the program sees it: a tree of inodes addressed by
  component lists, the \<^verbatim>\<open>flock\<close> table, the descriptors and environment of the
  process, and what it has printed. The \<^verbatim>\<open>os\<close>, \<^verbatim>\<open>ioutil\<close> and \<^verbatim>\<open>unix\<close> calls of the
  source are functions on this state. Each call first consults \<open>fault\<close>, the
  environment's choice of calls that fail, so every error path can be taken;
  a theorem that quantifies over all states quantifies over all such choices.
  File contents that \<^verbatim>\<open>encoding/json\<close> reads back as a document are kept as
  that document.
\<close>

section \<open>The store of inodes\<close>

datatype json =
    JNull
  | JBool bool
  | JNum int
  | JStr string
  | JArr "json list"
  | JObj "(string \<times> json) list"

datatype content = Raw string | Doc json

datatype kind = Directory | Regular content | Symlink string

record inode =
  i_ino :: nat
  i_kind :: kind
  i_mode :: nat
  i_uid :: int
  i_gid :: int

type_synonym loc = "string list"

locale tree_store =
  fixes get :: "'t \<Rightarrow> loc \<Rightarrow> 'n option"
    and put :: "loc \<Rightarrow> 'n \<Rightarrow> 't \<Rightarrow> 't"
    and del :: "(loc \<Rightarrow> bool) \<Rightarrow> 't \<Rightarrow> 't"
    and move :: "loc \<Rightarrow> loc \<Rightarrow> 't \<Rightarrow> 't"
    and names :: "'t \<Rightarrow> loc \<Rightarrow> string list"
  assumes get_put: "get (put p n t) q = (if q = p then Some n else get t q)"
    and get_del: "get (del P t) q = (if P q then None else get t q)"
    and get_move: "\<not> prefix a b \<Longrightarrow> \<not> prefix b a \<Longrightarrow>
      get (move a b t) q =
        (if prefix b q then get t (a @ drop (length b) q)
         else if prefix a q then None else get t q)"
    and set_names: "set (names t p) = {n. get t (p @ [n]) \<noteq> None}"
    and sorted_names: "sorted (names t p)"
    and distinct_names: "distinct (names t p)"
begin

lemma get_put_same: "get (put p n t) p = Some n"
  by (simp add: get_put)

lemma get_put_other: "q \<noteq> p \<Longrightarrow> get (put p n t) q = get t q"
  by (simp add: get_put)

text \<open>What was below the source is below the destination, and nothing else is.\<close>

lemma get_move_dest:
  "\<not> prefix a b \<Longrightarrow> \<not> prefix b a \<Longrightarrow> get (move a b t) (b @ q) = get t (a @ q)"
  by (simp add: get_move)

lemma get_move_source:
  "\<not> prefix a b \<Longrightarrow> \<not> prefix b a \<Longrightarrow> get (move a b t) (a @ q) = None"
  by (simp add: get_move) (metis prefix_append prefix_order.order_refl prefix_same_cases)

lemma get_move_elsewhere:
  "\<not> prefix a b \<Longrightarrow> \<not> prefix b a \<Longrightarrow> \<not> prefix a q \<Longrightarrow> \<not> prefix b q \<Longrightarrow>
     get (move a b t) q = get t q"
  by (simp add: get_move)

lemma names_empty_iff: "names t p = [] \<longleftrightarrow> (\<forall>n. get t (p @ [n]) = None)"
  using set_names[of t p] by auto

end

text \<open>The implementation: an association list from locations to inodes.\<close>

type_synonym disk = "(loc \<times> inode) list"

definition fs_get :: "disk \<Rightarrow> loc \<Rightarrow> inode option" where
  "fs_get t q = map_of t q"

definition fs_del :: "(loc \<Rightarrow> bool) \<Rightarrow> disk \<Rightarrow> disk" where
  "fs_del P t = filter (\<lambda>e. \<not> P (fst e)) t"

definition fs_put :: "loc \<Rightarrow> inode \<Rightarrow> disk \<Rightarrow> disk" where
  "fs_put p n t = (p, n) # fs_del (\<lambda>q. q = p) t"

definition fs_move :: "loc \<Rightarrow> loc \<Rightarrow> disk \<Rightarrow> disk" where
  "fs_move a b t = map (\<lambda>e. if prefix a (fst e) then (b @ drop (length a) (fst e), snd e) else e)
                       (fs_del (prefix b) t)"

definition fs_names :: "disk \<Rightarrow> loc \<Rightarrow> string list" where
  "fs_names t p = sort (remdups (map (\<lambda>e. last (fst e))
      (filter (\<lambda>e. fst e \<noteq> [] \<and> butlast (fst e) = p) t)))"

lemma map_of_fs_del: "map_of (fs_del P t) q = (if P q then None else map_of t q)"
  by (induction t) (auto simp: fs_del_def)

lemma map_of_move_keys:
  assumes "\<not> prefix a b" and "\<forall>e\<in>set t. \<not> prefix b (fst e)"
  shows "map_of (map (\<lambda>e. if prefix a (fst e) then (b @ drop (length a) (fst e), snd e) else e) t) q =
    (if prefix b q then map_of t (a @ drop (length b) q)
     else if prefix a q then None else map_of t q)"
  using assms(2)
proof (induction t)
  case (Cons e t)
  obtain k n where e: "e = (k, n)" by fastforce
  have k: "\<not> prefix b k" using Cons.prems e by simp
  have IH: "map_of (map (\<lambda>e. if prefix a (fst e) then (b @ drop (length a) (fst e), snd e) else e) t) q =
    (if prefix b q then map_of t (a @ drop (length b) q)
     else if prefix a q then None else map_of t q)"
    using Cons by simp
  show ?case
  proof (cases "prefix a k")
    case True
    then obtain r where r: "k = a @ r" by (auto simp: prefix_def)
    show ?thesis
    proof (cases "prefix b q")
      case True
      then obtain s where "q = b @ s" by (auto simp: prefix_def)
      then show ?thesis using e r IH by simp
    next
      case False
      then have "q \<noteq> b @ r" by auto
      with False show ?thesis using e r IH by auto
    qed
  next
    case False
    have "q = k \<Longrightarrow> \<not> prefix b q" using k by simp
    moreover have "a @ drop (length b) q \<noteq> k" using False by auto
    ultimately show ?thesis using e False IH by auto
  qed
qed simp

interpretation disk: tree_store fs_get fs_put fs_del fs_move fs_names
proof unfold_locales
  show "fs_get (fs_put p n t) q = (if q = p then Some n else fs_get t q)" for p n t q
    by (simp add: fs_get_def fs_put_def map_of_fs_del)
  show "fs_get (fs_del P t) q = (if P q then None else fs_get t q)" for P t q
    by (simp add: fs_get_def map_of_fs_del)
  show "fs_get (fs_move a b t) q =
      (if prefix b q then fs_get t (a @ drop (length b) q)
       else if prefix a q then None else fs_get t q)"
    if "\<not> prefix a b" "\<not> prefix b a" for a b t q
  proof -
    have del: "\<forall>e\<in>set (fs_del (prefix b) t). \<not> prefix b (fst e)"
      by (simp add: fs_del_def)
    have "\<not> prefix b (a @ x)" for x
      using that by (metis prefix_append prefix_order.refl prefix_same_cases)
    then show ?thesis
      unfolding fs_get_def fs_move_def map_of_move_keys[OF that(1) del]
      by (simp add: map_of_fs_del)
  qed
  show "set (fs_names t p) = {n. fs_get t (p @ [n]) \<noteq> None}" for t p
  proof -
    have "set (fs_names t p) = (\<lambda>e. last (fst e)) ` {e\<in>set t. fst e \<noteq> [] \<and> butlast (fst e) = p}"
      by (simp add: fs_names_def)
    also have "\<dots> = {n. p @ [n] \<in> fst ` set t}"
      by (force simp: image_iff) 
    also have "\<dots> = {n. fs_get t (p @ [n]) \<noteq> None}"
      by (simp add: fs_get_def map_of_eq_None_iff)
    finally show ?thesis .
  qed
  show "sorted (fs_names t p)" "distinct (fs_names t p)" for t p
    by (simp_all add: fs_names_def)
qed

lemmas fs_get_simps [simp] = disk.get_put disk.get_del

section \<open>The state of the process and of the machine\<close>

text \<open>The holder of a file lock: one of our descriptors, or another process.\<close>

datatype holder = Mine nat | Theirs nat

record world =
  disk :: disk
  flocks :: "nat \<Rightarrow> holder option"
  fds :: "nat \<Rightarrow> nat option"
  next_fd :: nat
  next_ino :: nat
  proc_uid :: int
  proc_gid :: int
  environ :: "string list"
  cwd :: loc
  stdout :: "string list"
  tick :: nat
  fault :: "nat \<Rightarrow> (errno \<times> (loc \<Rightarrow> bool)) option"
  calls :: "(string \<times> string list) list"

type_synonym 'a io = "(world, 'a) call"

definition root_inode :: inode where
  "root_inode = \<lparr>i_ino = 0, i_kind = Directory, i_mode = 493, i_uid = 0, i_gid = 0\<rparr>"

definition node_at :: "world \<Rightarrow> loc \<Rightarrow> inode option" where
  "node_at w q = (if q = [] then Some root_inode else fs_get (disk w) q)"

section \<open>Path resolution\<close>

definition names_of :: "string \<Rightarrow> string list" where
  "names_of s = filter (\<lambda>c. c \<noteq> '''' \<and> c \<noteq> ''.'') (split_on CHR ''/'' s)"

text \<open>
  The kernel's walk: \<open>n\<close> symbolic links may still be followed (Linux gives up
  with ELOOP after 40), \<open>d\<close> is the directory reached so far. The last component
  may be missing; whether a link in last position is followed depends on the call.
\<close>

function walk :: "disk \<Rightarrow> bool \<Rightarrow> nat \<Rightarrow> loc \<Rightarrow> string list \<Rightarrow> errno + loc" where
  "walk t follow n d [] = Inr d"
| "walk t follow n d (c # cs) =
     (if c = ''..'' then walk t follow n (butlast d) cs
      else case fs_get t (d @ [c]) of
        None \<Rightarrow> if cs = [] then Inr (d @ [c]) else Inl ENOENT
      | Some i \<Rightarrow> (case i_kind i of
          Directory \<Rightarrow> walk t follow n (d @ [c]) cs
        | Regular _ \<Rightarrow> if cs = [] then Inr (d @ [c]) else Inl ENOTDIR
        | Symlink tgt \<Rightarrow>
            if cs = [] \<and> \<not> follow then Inr (d @ [c])
            else if n = 0 then Inl ELOOP
            else walk t follow (n - 1) (if rooted tgt then [] else d) (names_of tgt @ cs)))"
  by pat_completeness auto
termination
  by (relation "measures [\<lambda>(t, follow, n, d, cs). n, \<lambda>(t, follow, n, d, cs). length cs]") auto

declare walk.simps [simp del]

definition max_links :: nat where "max_links = 40"

definition resolve :: "bool \<Rightarrow> world \<Rightarrow> string \<Rightarrow> errno + loc" where
  "resolve follow w p =
     (if p = '''' then Inl ENOENT
      else walk (disk w) follow max_links (if rooted p then [] else cwd w) (names_of p))"

section \<open>System calls\<close>

definition sys :: "'a io \<Rightarrow> 'a io" where
  "sys m w = (let w' = w\<lparr>tick := Suc (tick w)\<rparr> in
     case fault w (tick w) of
       Some (e, _) \<Rightarrow> (Err (Errno e), w')
     | None \<Rightarrow> m w')"

definition at_path :: "bool \<Rightarrow> string \<Rightarrow> (loc \<Rightarrow> 'a io) \<Rightarrow> 'a io" where
  "at_path follow p f w = (case resolve follow w p of
      Inl e \<Rightarrow> (Err (Errno e), w)
    | Inr q \<Rightarrow> f q w)"

definition put_node :: "loc \<Rightarrow> kind \<Rightarrow> nat \<Rightarrow> world \<Rightarrow> world" where
  "put_node q k m w = w\<lparr>
     disk := fs_put q \<lparr>i_ino = next_ino w, i_kind = k, i_mode = m,
                       i_uid = proc_uid w, i_gid = proc_gid w\<rparr> (disk w),
     next_ino := Suc (next_ino w)\<rparr>"

definition set_node :: "loc \<Rightarrow> inode \<Rightarrow> world \<Rightarrow> world" where
  "set_node q i w = w\<lparr>disk := fs_put q i (disk w)\<rparr>"

definition stat_with :: "bool \<Rightarrow> string \<Rightarrow> inode io" where
  "stat_with follow p = sys (at_path follow p (\<lambda>q w.
     case node_at w q of
       None \<Rightarrow> (Err (Errno ENOENT), w)
     | Some i \<Rightarrow> (Ok i, w)))"

definition os_Stat :: "string \<Rightarrow> inode io" where
  "os_Stat = stat_with True"

definition os_Lstat :: "string \<Rightarrow> inode io" where
  "os_Lstat = stat_with False"

definition os_Mkdir :: "string \<Rightarrow> nat \<Rightarrow> unit io" where
  "os_Mkdir p m = sys (at_path False p (\<lambda>q w.
     case node_at w q of
       Some _ \<Rightarrow> (Err (Errno EEXIST), w)
     | None \<Rightarrow> (Ok (), put_node q Directory m w)))"

definition is_dir :: "inode \<Rightarrow> bool" where
  "is_dir i \<longleftrightarrow> i_kind i = Directory"

text \<open>\<^verbatim>\<open>os.MkdirAll\<close> on the reversed components of an absolute path.\<close>

primrec mkdir_all :: "nat \<Rightarrow> string list \<Rightarrow> unit io" where
  "mkdir_all m [] = ret ()"
| "mkdir_all m (c # rcs) =
     (let p = path_of (rev (c # rcs)) in
      seq (attempt (os_Stat p)) (\<lambda>r. case r of
        Inr i \<Rightarrow> if is_dir i then ret () else fail (Errno ENOTDIR)
      | Inl _ \<Rightarrow>
          seq (mkdir_all m rcs) (\<lambda>_.
          on_err (os_Mkdir p m) (\<lambda>e.
          seq (attempt (os_Lstat p)) (\<lambda>r'. case r' of
            Inr i \<Rightarrow> if is_dir i then ret () else fail e
          | Inl _ \<Rightarrow> fail e)))))"

definition os_MkdirAll :: "string \<Rightarrow> nat \<Rightarrow> unit io" where
  "os_MkdirAll p m = mkdir_all m (rev (path_parts p))"

text \<open>\<^verbatim>\<open>os.Create\<close>: the result is the location of the opened file.\<close>

definition os_Create :: "string \<Rightarrow> loc io" where
  "os_Create p = sys (at_path True p (\<lambda>q w.
     case node_at w q of
       None \<Rightarrow> (Ok q, put_node q (Regular (Raw '''')) 438 w)
     | Some i \<Rightarrow> (case i_kind i of
         Regular _ \<Rightarrow> (Ok q, set_node q (i\<lparr>i_kind := Regular (Raw '''')\<rparr>) w)
       | _ \<Rightarrow> (Err (Errno EISDIR), w))))"

text \<open>Writing to, and changing the mode of, a file opened by \<open>os_Create\<close>.\<close>

definition file_write :: "loc \<Rightarrow> content \<Rightarrow> unit io" where
  "file_write q c = sys (\<lambda>w.
     case node_at w q of
       None \<Rightarrow> (Err (Errno EBADF), w)
     | Some i \<Rightarrow> (Ok (), set_node q (i\<lparr>i_kind := Regular c\<rparr>) w))"

text \<open>Appending to a file opened by \<open>os_Create\<close>.\<close>

definition file_append :: "loc \<Rightarrow> string \<Rightarrow> unit io" where
  "file_append q s = sys (\<lambda>w.
     case node_at w q of
       None \<Rightarrow> (Err (Errno EBADF), w)
     | Some i \<Rightarrow> (case i_kind i of
         Regular (Raw t) \<Rightarrow> (Ok (), set_node q (i\<lparr>i_kind := Regular (Raw (t @ s))\<rparr>) w)
       | _ \<Rightarrow> (Err (Errno EINVAL), w)))"

definition file_chmod :: "loc \<Rightarrow> nat \<Rightarrow> unit io" where
  "file_chmod q m = sys (\<lambda>w.
     case node_at w q of
       None \<Rightarrow> (Err (Errno EBADF), w)
     | Some i \<Rightarrow> (Ok (), set_node q (i\<lparr>i_mode := m\<rparr>) w))"

definition os_Chmod :: "string \<Rightarrow> nat \<Rightarrow> unit io" where
  "os_Chmod p m = sys (at_path True p (\<lambda>q w.
     case node_at w q of
       None \<Rightarrow> (Err (Errno ENOENT), w)
     | Some i \<Rightarrow> (Ok (), set_node q (i\<lparr>i_mode := m\<rparr>) w)))"

definition os_Chown :: "string \<Rightarrow> int \<Rightarrow> int \<Rightarrow> unit io" where
  "os_Chown p u g = sys (at_path True p (\<lambda>q w.
     case node_at w q of
       None \<Rightarrow> (Err (Errno ENOENT), w)
     | Some i \<Rightarrow> (Ok (), set_node q (i\<lparr>i_uid := u, i_gid := g\<rparr>) w)))"

text \<open>\<^verbatim>\<open>os.Open\<close>, which opens directories too, and reading a whole opened file.\<close>

definition os_Open :: "string \<Rightarrow> loc io" where
  "os_Open p = sys (at_path True p (\<lambda>q w.
     case node_at w q of
       None \<Rightarrow> (Err (Errno ENOENT), w)
     | Some i \<Rightarrow> (Ok q, w)))"

definition file_read :: "loc \<Rightarrow> content io" where
  "file_read q = sys (\<lambda>w.
     case node_at w q of
       None \<Rightarrow> (Err (Errno EBADF), w)
     | Some i \<Rightarrow> (case i_kind i of
         Regular c \<Rightarrow> (Ok c, w)
       | _ \<Rightarrow> (Err (Errno EISDIR), w)))"

text \<open>\<^verbatim>\<open>ioutil.ReadFile\<close>\<close>

definition os_ReadFile :: "string \<Rightarrow> content io" where
  "os_ReadFile p = sys (at_path True p (\<lambda>q w.
     case node_at w q of
       None \<Rightarrow> (Err (Errno ENOENT), w)
     | Some i \<Rightarrow> (case i_kind i of
         Regular c \<Rightarrow> (Ok c, w)
       | _ \<Rightarrow> (Err (Errno EISDIR), w))))"

text \<open>\<^verbatim>\<open>ioutil.WriteFile\<close>\<close>

definition os_WriteFile :: "string \<Rightarrow> string \<Rightarrow> nat \<Rightarrow> unit io" where
  "os_WriteFile p s m = sys (at_path True p (\<lambda>q w.
     case node_at w q of
       None \<Rightarrow> (Ok (), put_node q (Regular (Raw s)) m w)
     | Some i \<Rightarrow> (case i_kind i of
         Regular _ \<Rightarrow> (Ok (), set_node q (i\<lparr>i_kind := Regular (Raw s)\<rparr>) w)
       | _ \<Rightarrow> (Err (Errno EISDIR), w))))"

definition os_Remove :: "string \<Rightarrow> unit io" where
  "os_Remove p = sys (at_path False p (\<lambda>q w.
     case node_at w q of
       None \<Rightarrow> (Err (Errno ENOENT), w)
     | Some i \<Rightarrow>
         if is_dir i \<and> fs_names (disk w) q \<noteq> [] then (Err (Errno ENOTEMPTY), w)
         else (Ok (), w\<lparr>disk := fs_del (\<lambda>r. r = q) (disk w)\<rparr>)))"

text \<open>
  \<^verbatim>\<open>os.RemoveAll\<close>, which never reports that something is missing. When it fails it may have deleted part of the tree: the fault
  says which entries it had not reached yet (their parents survive with them).
\<close>

definition survives :: "disk \<Rightarrow> (loc \<Rightarrow> bool) \<Rightarrow> loc \<Rightarrow> bool" where
  "survives t keep q \<longleftrightarrow> list_ex (\<lambda>e. prefix q (fst e) \<and> keep (fst e)) t"

definition os_RemoveAll :: "string \<Rightarrow> unit io" where
  "os_RemoveAll p w = (let w' = w\<lparr>tick := Suc (tick w)\<rparr> in
     case resolve False w p of
       Inl e \<Rightarrow> if e = ENOENT then (Ok (), w') else (Err (Errno e), w')
     | Inr q \<Rightarrow> (case fault w (tick w) of
         Some (e, keep) \<Rightarrow>
           if e = ENOENT then (Ok (), w'\<lparr>disk := fs_del (prefix q) (disk w)\<rparr>)
           else (Err (Errno e), w'\<lparr>disk := fs_del (\<lambda>r. prefix q r \<and> \<not> survives (disk w) keep r) (disk w)\<rparr>)
       | None \<Rightarrow> (Ok (), w'\<lparr>disk := fs_del (prefix q) (disk w)\<rparr>)))"

text \<open>
  \<^verbatim>\<open>os.Rename\<close>: Go refuses a destination that is a directory, the kernel refuses
  to move a directory onto a file or into itself.
\<close>

definition os_Rename :: "string \<Rightarrow> string \<Rightarrow> unit io" where
  "os_Rename a b = sys (at_path False a (\<lambda>p. at_path False b (\<lambda>q w.
     case node_at w p of
       None \<Rightarrow> (Err (Errno ENOENT), w)
     | Some i \<Rightarrow> (case node_at w q of
         None \<Rightarrow>
           if prefix p q then (Err (Errno EINVAL), w)
           else (Ok (), w\<lparr>disk := fs_move p q (disk w)\<rparr>)
       | Some j \<Rightarrow>
           if is_dir j then (Err (Errno EEXIST), w)
           else if p = q then (Ok (), w)
           else if is_dir i then (Err (Errno ENOTDIR), w)
           else (Ok (), w\<lparr>disk := fs_move p q (disk w)\<rparr>)))))"

definition os_Symlink :: "string \<Rightarrow> string \<Rightarrow> unit io" where
  "os_Symlink tgt p = sys (at_path False p (\<lambda>q w.
     case node_at w q of
       Some _ \<Rightarrow> (Err (Errno EEXIST), w)
     | None \<Rightarrow> (Ok (), put_node q (Symlink tgt) 511 w)))"

definition os_Readlink :: "string \<Rightarrow> string io" where
  "os_Readlink p = sys (at_path False p (\<lambda>q w.
     case node_at w q of
       None \<Rightarrow> (Err (Errno ENOENT), w)
     | Some i \<Rightarrow> (case i_kind i of
         Symlink tgt \<Rightarrow> (Ok tgt, w)
       | _ \<Rightarrow> (Err (Errno EINVAL), w))))"

text \<open>\<^verbatim>\<open>ioutil.ReadDir\<close>: the entry names in byte order.\<close>

definition os_ReadDir :: "string \<Rightarrow> string list io" where
  "os_ReadDir p = sys (at_path True p (\<lambda>q w.
     case node_at w q of
       None \<Rightarrow> (Err (Errno ENOENT), w)
     | Some i \<Rightarrow> if is_dir i then (Ok (fs_names (disk w) q), w)
                 else (Err (Errno ENOTDIR), w)))"

text \<open>Descriptors and \<^verbatim>\<open>flock\<close>: locks belong to the open file description.\<close>

definition unix_Open :: "string \<Rightarrow> bool \<Rightarrow> nat io" where
  "unix_Open p want_dir = sys (at_path True p (\<lambda>q w.
     case node_at w q of
       None \<Rightarrow> (Err (Errno ENOENT), w)
     | Some i \<Rightarrow>
         if want_dir \<and> \<not> is_dir i then (Err (Errno ENOTDIR), w)
         else (Ok (next_fd w),
               w\<lparr>fds := (fds w)(next_fd w := Some (i_ino i)), next_fd := Suc (next_fd w)\<rparr>)))"

definition unix_Flock :: "nat \<Rightarrow> bool \<Rightarrow> unit io" where
  "unix_Flock fd nonblocking = sys (\<lambda>w.
     case fds w fd of
       None \<Rightarrow> (Err (Errno EBADF), w)
     | Some n \<Rightarrow> (case flocks w n of
         None \<Rightarrow> (Ok (), w\<lparr>flocks := (flocks w)(n := Some (Mine fd))\<rparr>)
       | Some h \<Rightarrow>
           if h = Mine fd then (Ok (), w)
           else if nonblocking then (Err (Errno EWOULDBLOCK), w)
           else (Abort Blocked, w)))"

text \<open>Linux gives the descriptor (and its lock) up even when \<^verbatim>\<open>close\<close> reports an error.\<close>

definition unix_Close :: "nat \<Rightarrow> unit io" where
  "unix_Close fd w = (let w' = w\<lparr>tick := Suc (tick w)\<rparr> in
     case fds w fd of
       None \<Rightarrow> (Err (Errno EBADF), w')
     | Some n \<Rightarrow>
         (case fault w (tick w) of None \<Rightarrow> Ok () | Some (e, _) \<Rightarrow> Err (Errno e),
          w'\<lparr>fds := (fds w)(fd := None),
             flocks := (if flocks w n = Some (Mine fd) then (flocks w)(n := None) else flocks w)\<rparr>))"

text \<open>
  A request to another program or service (a method on the bus, a signal, a child
  process): it is recorded, and answers with an error or not.
\<close>

definition request :: "string \<Rightarrow> string list \<Rightarrow> err option \<Rightarrow> unit io" where
  "request what args answer w =
     (case answer of Some e \<Rightarrow> Err e | None \<Rightarrow> Ok (), w\<lparr>calls := calls w @ [(what, args)]\<rparr>)"

text \<open>\<^verbatim>\<open>filepath.Rel\<close> as a call\<close>

definition path_Rel :: "string \<Rightarrow> string \<Rightarrow> string io" where
  "path_Rel base target = (case path_rel base target of
      None \<Rightarrow> fail (Msg (''Rel: can not make '' @ target @ '' relative to '' @ base))
    | Some rel \<Rightarrow> ret rel)"

definition print :: "string \<Rightarrow> unit io" where
  "print line w = (Ok (), w\<lparr>stdout := stdout w @ [line]\<rparr>)"

end
