(* ===== verification/Args.thy ===== *)
theory Args
  imports Go_Flag File_System
begin

text \<open>
  \<^verbatim>\<open>internal/args\<close>: the list-valued options of \<^verbatim>\<open>nsbox config\<close> (\<^verbatim>\<open>array.go\<close>) and
  the command wrapper (\<^verbatim>\<open>args.go\<close>).
\<close>

section \<open>List transforms (array.go)\<close>

datatype arrayTransformKind = arrayTransformAdd | arrayTransformDel | arrayTransformSet

fun arrayTransformKindToChar :: "arrayTransformKind \<Rightarrow> char" where
  "arrayTransformKindToChar arrayTransformAdd = CHR ''+''"
| "arrayTransformKindToChar arrayTransformDel = CHR ''-''"
| "arrayTransformKindToChar arrayTransformSet = CHR '':''"

definition charToArrayTransformKind :: "char \<Rightarrow> arrayTransformKind option" where
  "charToArrayTransformKind c =
     (if c = CHR ''+'' then Some arrayTransformAdd
      else if c = CHR ''-'' then Some arrayTransformDel
      else if c = CHR '':'' then Some arrayTransformSet
      else None)"

record ArrayTransformValue =
  atv_kind :: arrayTransformKind
  atv_items :: "string list"

text \<open>The zero value of the struct.\<close>

definition atv_zero :: ArrayTransformValue where
  "atv_zero = \<lparr>atv_kind = arrayTransformAdd, atv_items = []\<rparr>"

definition atv_String :: "ArrayTransformValue \<Rightarrow> string" where
  "atv_String v = arrayTransformKindToChar (atv_kind v) # join '','' (atv_items v)"

definition atv_Set :: "string \<Rightarrow> (ArrayTransformValue, unit) call" where
  "atv_Set arg v =
     (case arg of
        [] \<Rightarrow> (Ok (), v)
      | c # rest \<Rightarrow>
          (case charToArrayTransformKind c of
             None \<Rightarrow> (Err (Msg ''invalid array transform''), v)
           | Some k \<Rightarrow>
               let v = v\<lparr>atv_kind := k\<rparr> in
               if rest = [] then (Ok (), v)
               else let parts = split_on CHR '','' rest in
                    if list_ex (\<lambda>p. length p = 0) parts
                    then (Err (Msg ''items must not be empty''), v)
                    else (Ok (), v\<lparr>atv_items := parts\<rparr>)))"

text \<open>\<^verbatim>\<open>sliceToMap\<close>: the items as the key set of a map.\<close>

fun sliceToMap :: "string list \<Rightarrow> string \<Rightarrow> unit option" where
  "sliceToMap [] = Map.empty"
| "sliceToMap (x # xs) = (sliceToMap xs)(x := Some ())"

text \<open>
  \<^verbatim>\<open>Apply\<close>: the new target list, with the items it warns about because they were
  present already.
\<close>

fun apply_add :: "(string \<Rightarrow> unit option) \<Rightarrow> string list \<Rightarrow> string list \<Rightarrow> string list \<times> string list" where
  "apply_add present target [] = (target, [])"
| "apply_add present target (item # items) =
     (if present item = None then apply_add present (target @ [item]) items
      else case apply_add present target items of (t, alerts) \<Rightarrow> (t, item # alerts))"

fun apply_del :: "(string \<Rightarrow> unit option) \<Rightarrow> string list \<Rightarrow> string list \<Rightarrow> string list" where
  "apply_del given newTarget [] = newTarget"
| "apply_del given newTarget (item # items) =
     apply_del given (if given item = None then newTarget @ [item] else newTarget) items"

definition atv_Apply :: "ArrayTransformValue \<Rightarrow> string list \<Rightarrow> string list \<times> string list" where
  "atv_Apply v target =
     (case atv_kind v of
        arrayTransformAdd \<Rightarrow> apply_add (sliceToMap target) target (atv_items v)
      | arrayTransformDel \<Rightarrow> (apply_del (sliceToMap (atv_items v)) [] target, [])
      | arrayTransformSet \<Rightarrow> (atv_items v, []))"

subsection \<open>Facts about the transforms\<close>

text \<open>What \<^verbatim>\<open>Set\<close> maintains: no item is empty or contains the separator.\<close>

definition atv_valid :: "ArrayTransformValue \<Rightarrow> bool" where
  "atv_valid v \<longleftrightarrow> list_all (\<lambda>x. x \<noteq> [] \<and> CHR '','' \<notin> set x) (atv_items v)"

lemma char_kind_inverse [simp]: "charToArrayTransformKind (arrayTransformKindToChar k) = Some k"
  by (cases k) (simp_all add: charToArrayTransformKind_def)

lemma atv_valid_Set: "atv_valid v \<Longrightarrow> atv_Set s v = (r, v') \<Longrightarrow> atv_valid v'"
  by (auto simp: atv_Set_def atv_valid_def Let_def list_all_iff list_ex_iff
      split: list.splits option.splits if_splits dest: split_on_parts)

lemma join_nonempty_hd: "xs \<noteq> [] \<Longrightarrow> hd xs \<noteq> [] \<Longrightarrow> join sep xs \<noteq> []"
  by (cases xs; cases "tl xs") auto

interpretation atv: flag_value atv_String atv_Set atv_zero atv_valid
proof unfold_locales
  show "atv_valid atv_zero"
    by (simp add: atv_valid_def atv_zero_def)
  show "atv_valid v'" if "atv_valid v" "atv_Set s v = (Ok (), v')" for v s v'
    using that by (rule atv_valid_Set)
  show "atv_Set (atv_String v) atv_zero = (Ok (), v)" if v: "atv_valid v" for v
  proof (cases "atv_items v = []")
    case True
    then show ?thesis by (simp add: atv_Set_def atv_String_def atv_zero_def)
  next
    case False
    have "join '','' (atv_items v) \<noteq> []"
      using False v by (intro join_nonempty_hd) (auto simp: atv_valid_def list_all_iff)
    moreover have "split_on CHR '','' (join '','' (atv_items v)) = atv_items v"
      using False v by (auto simp: atv_valid_def list_all_iff intro: split_on_join)
    moreover have "\<not> list_ex (\<lambda>p. length p = 0) (atv_items v)"
      using v by (auto simp: atv_valid_def list_all_iff list_ex_iff)
    ultimately show ?thesis
      by (simp add: atv_Set_def atv_String_def atv_zero_def)
  qed
qed

lemma sliceToMap_None: "sliceToMap xs x = None \<longleftrightarrow> x \<notin> set xs"
  by (induction xs) auto

lemma apply_add_eq:
  "apply_add m target items =
     (target @ filter (\<lambda>x. m x = None) items, filter (\<lambda>x. m x \<noteq> None) items)"
  by (induction m target items rule: apply_add.induct) auto

lemma apply_del_eq: "apply_del m acc items = acc @ filter (\<lambda>x. m x = None) items"
  by (induction items arbitrary: acc) auto

lemma atv_Apply_eq:
  "atv_Apply v target = (case atv_kind v of
      arrayTransformAdd \<Rightarrow> (target @ filter (\<lambda>x. x \<notin> set target) (atv_items v),
                            filter (\<lambda>x. x \<in> set target) (atv_items v))
    | arrayTransformDel \<Rightarrow> (filter (\<lambda>x. x \<notin> set (atv_items v)) target, [])
    | arrayTransformSet \<Rightarrow> (atv_items v, []))"
  by (simp add: atv_Apply_def apply_add_eq apply_del_eq sliceToMap_None
      split: arrayTransformKind.splits)

section \<open>Commands (args.go)\<close>

text \<open>The exit statuses of the \<^verbatim>\<open>subcommands\<close> package.\<close>

datatype exit_status = ExitSuccess | ExitFailure | ExitUsageError

fun exit_number :: "exit_status \<Rightarrow> int" where
  "exit_number ExitSuccess = 0"
| "exit_number ExitFailure = 1"
| "exit_number ExitUsageError = 2"

definition ExpectArgs :: "nat \<Rightarrow> string list \<Rightarrow> err + string list" where
  "ExpectArgs n given =
     (if length given \<noteq> n
      then Inl (Msg (''expected '' @ show_nat n @ '' arg(s), got '' @ show_nat (length given)))
      else Inr given)"

definition HandleError :: "err option \<Rightarrow> exit_status" where
  "HandleError e = (case e of Some _ \<Rightarrow> ExitFailure | None \<Rightarrow> ExitSuccess)"

text \<open>\<^verbatim>\<open>return args.HandleError(m())\<close>\<close>

definition handled :: "unit io \<Rightarrow> exit_status io" where
  "handled m = seq (attempt m) (\<lambda>r. ret (HandleError (case r of Inl e \<Rightarrow> Some e | Inr _ \<Rightarrow> None)))"

text \<open>\<^verbatim>\<open>simpleCommandWrapper.Execute\<close>\<close>

definition wrapper_Execute ::
  "(string list \<Rightarrow> err + 'c) \<Rightarrow> unit io \<Rightarrow> ('c \<Rightarrow> exit_status io) \<Rightarrow> string list \<Rightarrow> exit_status io" where
  "wrapper_Execute ParsePositional PreexecHook Execute args =
     (case ParsePositional args of
        Inl e \<Rightarrow> ret ExitUsageError
      | Inr cmd \<Rightarrow> seq PreexecHook (\<lambda>_. Execute cmd))"

lemma handled_status:
  "handled m w = (Ok st, w') \<Longrightarrow>
     (st = ExitSuccess \<longleftrightarrow> m w = (Ok (), w')) \<and> (st = ExitFailure \<longleftrightarrow> (\<exists>e. m w = (Err e, w')))"
  by (auto simp: handled_def go_simps HandleError_def split: prod.splits res.splits)

end
