(* ===== verification/File_Laws.thy ===== *)
theory File_Laws
  imports File_System
begin

text \<open>
  What the components need to know about the system calls: which part of the
  state each call can change (frame conditions, for every choice of faults), how
  paths below real directories resolve, and the exact effect of a call on a path
  that resolves to a known location.
\<close>

section \<open>Frames\<close>

text \<open>Nothing but the clock moved.\<close>

definition same_os :: "world \<Rightarrow> world \<Rightarrow> bool" where
  "same_os w w' \<longleftrightarrow> w' = w\<lparr>tick := tick w'\<rparr>"

text \<open>The locations in \<open>P\<close> hold what they held before.\<close>

definition same_at :: "(loc \<Rightarrow> bool) \<Rightarrow> world \<Rightarrow> world \<Rightarrow> bool" where
  "same_at P w w' \<longleftrightarrow> (\<forall>q. P q \<longrightarrow> fs_get (disk w') q = fs_get (disk w) q)"

definition same_disk :: "world \<Rightarrow> world \<Rightarrow> bool" where
  "same_disk w w' \<longleftrightarrow> disk w' = disk w \<and> cwd w' = cwd w \<and> next_ino w' = next_ino w"

text \<open>The locks and descriptors are untouched.\<close>

definition same_locks :: "world \<Rightarrow> world \<Rightarrow> bool" where
  "same_locks w w' \<longleftrightarrow> flocks w' = flocks w \<and> fds w' = fds w \<and> next_fd w' = next_fd w"

interpretation same_os: frame same_os
  by unfold_locales (auto simp: same_os_def, metis world.surjective world.update_convs(11))

interpretation same_at: frame "same_at P"
  by unfold_locales (auto simp: same_at_def)

interpretation same_disk: frame same_disk
  by unfold_locales (auto simp: same_disk_def)

interpretation same_locks: frame same_locks
  by unfold_locales (auto simp: same_locks_def)

lemma same_osD:
  assumes "same_os w w'"
  shows "disk w' = disk w" "flocks w' = flocks w" "fds w' = fds w" "next_fd w' = next_fd w"
    "next_ino w' = next_ino w" "environ w' = environ w" "cwd w' = cwd w" "stdout w' = stdout w"
    "fault w' = fault w" "proc_uid w' = proc_uid w" "proc_gid w' = proc_gid w"
proof -
  obtain t where w': "w' = w\<lparr>tick := t\<rparr>"
    using assms unfolding same_os_def by blast
  show "disk w' = disk w" "flocks w' = flocks w" "fds w' = fds w" "next_fd w' = next_fd w"
    "next_ino w' = next_ino w" "environ w' = environ w" "cwd w' = cwd w" "stdout w' = stdout w"
    "fault w' = fault w" "proc_uid w' = proc_uid w" "proc_gid w' = proc_gid w"
    by (simp_all add: w')
qed

lemma same_os_imp: "same_os w w' \<Longrightarrow> same_at P w w'" "same_os w w' \<Longrightarrow> same_disk w w'"
  "same_os w w' \<Longrightarrow> same_locks w w'"
  by (simp_all add: same_at_def same_disk_def same_locks_def same_osD)

lemma keeps_weaken: "keeps R m \<Longrightarrow> (\<And>s t. R s t \<Longrightarrow> R' s t) \<Longrightarrow> keeps R' m"
  by (simp add: keeps_def)

lemma same_os_tick [simp]: "same_os w (w\<lparr>tick := n\<rparr>)"
  by (simp add: same_os_def)

lemma resolve_fields [simp]:
  "resolve f (w\<lparr>tick := a\<rparr>) p = resolve f w p"
  "resolve f (w\<lparr>flocks := b\<rparr>) p = resolve f w p"
  "resolve f (w\<lparr>fds := c\<rparr>) p = resolve f w p"
  "resolve f (w\<lparr>next_fd := d\<rparr>) p = resolve f w p"
  "resolve f (w\<lparr>next_ino := d\<rparr>) p = resolve f w p"
  "resolve f (w\<lparr>stdout := e\<rparr>) p = resolve f w p"
  "resolve f (w\<lparr>environ := e\<rparr>) p = resolve f w p"
  by (simp_all add: resolve_def)

lemma node_at_fields [simp]:
  "node_at (w\<lparr>tick := a\<rparr>) p = node_at w p"
  "node_at (w\<lparr>flocks := b\<rparr>) p = node_at w p"
  "node_at (w\<lparr>fds := c\<rparr>) p = node_at w p"
  "node_at (w\<lparr>next_fd := d\<rparr>) p = node_at w p"
  "node_at (w\<lparr>next_ino := d\<rparr>) p = node_at w p"
  "node_at (w\<lparr>stdout := e\<rparr>) p = node_at w p"
  by (simp_all add: node_at_def)

text \<open>Calls that only look.\<close>

lemma keeps_sys:
  assumes "\<And>w r w'. m w = (r, w') \<Longrightarrow> same_os w w'"
  shows "keeps same_os (sys m)"
proof (rule keepsI)
  fix s r t
  assume run: "sys m s = (r, t)"
  show "same_os s t"
  proof (cases "fault s (tick s)")
    case None
    with run have "m (s\<lparr>tick := Suc (tick s)\<rparr>) = (r, t)" by (simp add: sys_def)
    then have "same_os (s\<lparr>tick := Suc (tick s)\<rparr>) t" by (rule assms)
    then show ?thesis by (rule same_os.frame_trans[OF same_os_tick])
  qed (use run in \<open>auto simp: sys_def\<close>)
qed

lemma same_os_refl [simp]: "same_os w w"
  by (rule same_os.frame_refl)

lemma keeps_look [keeps_intros]:
  "keeps same_os (os_Stat p)" "keeps same_os (os_Lstat p)" "keeps same_os (os_ReadFile p)"
  "keeps same_os (os_Readlink p)" "keeps same_os (os_ReadDir p)"
  "keeps same_os (os_Open p)" "keeps same_os (file_read q)"
  unfolding os_Stat_def os_Lstat_def stat_with_def os_ReadFile_def os_Readlink_def os_ReadDir_def
    os_Open_def file_read_def
  by (rule keeps_sys; auto simp: at_path_def split: sum.splits option.splits kind.splits if_splits)+

lemma keeps_lock_calls [keeps_intros]:
  "keeps same_disk (unix_Open p d)" "keeps same_disk (unix_Flock fd nb)" "keeps same_disk (unix_Close fd)"
  unfolding keeps_def unix_Open_def unix_Flock_def unix_Close_def sys_def at_path_def same_disk_def Let_def
  by (auto split: sum.splits option.splits if_splits)

text \<open>Calls on the tree leave the locks alone.\<close>

lemma keeps_sys_locks:
  assumes "\<And>w r w'. m w = (r, w') \<Longrightarrow> same_locks w w'"
  shows "keeps same_locks (sys m)"
proof (rule keepsI)
  fix s r t
  assume run: "sys m s = (r, t)"
  show "same_locks s t"
  proof (cases "fault s (tick s)")
    case None
    with run have "m (s\<lparr>tick := Suc (tick s)\<rparr>) = (r, t)" by (simp add: sys_def)
    from assms[OF this] show ?thesis by (simp add: same_locks_def)
  qed (use run in \<open>auto simp: sys_def same_locks_def\<close>)
qed

lemma keeps_locks_tree [keeps_intros]:
  "keeps same_locks (os_Mkdir p m)" "keeps same_locks (os_Create p)"
  "keeps same_locks (file_write q c)" "keeps same_locks (file_chmod q m)"
  "keeps same_locks (os_Chmod p m)" "keeps same_locks (os_Chown p u g)"
  "keeps same_locks (os_Remove p)" "keeps same_locks (os_Rename p p')"
  "keeps same_locks (os_Symlink s p)" "keeps same_locks (os_WriteFile p s m)"
  unfolding os_Mkdir_def os_Create_def file_write_def file_chmod_def os_Chmod_def os_Chown_def
    os_Remove_def os_Rename_def os_Symlink_def os_WriteFile_def
  by (rule keeps_sys_locks;
      auto simp: at_path_def same_locks_def put_node_def set_node_def
        split: sum.splits option.splits kind.splits if_splits)+

lemma keeps_locks_RemoveAll [keeps_intros]: "keeps same_locks (os_RemoveAll p)"
  unfolding keeps_def os_RemoveAll_def same_locks_def Let_def
  by (auto split: sum.splits option.splits)

lemma keeps_locks_look [keeps_intros]:
  "keeps same_locks (os_Stat p)" "keeps same_locks (os_Lstat p)" "keeps same_locks (os_ReadFile p)"
  "keeps same_locks (os_Readlink p)" "keeps same_locks (os_ReadDir p)"
  "keeps same_locks (os_Open p)" "keeps same_locks (file_read q)"
  by (blast intro: keeps_weaken[OF keeps_look(1)] keeps_weaken[OF keeps_look(2)]
      keeps_weaken[OF keeps_look(3)] keeps_weaken[OF keeps_look(4)]
      keeps_weaken[OF keeps_look(5)] keeps_weaken[OF keeps_look(6)]
      keeps_weaken[OF keeps_look(7)] same_os_imp)+

section \<open>Paths below real directories\<close>

text \<open>\<open>solid t cs\<close>: every prefix of the location \<open>cs\<close> is a directory of \<open>t\<close>, no link.\<close>

definition dir_at :: "disk \<Rightarrow> loc \<Rightarrow> bool" where
  "dir_at t q \<longleftrightarrow> (case fs_get t q of Some i \<Rightarrow> is_dir i | None \<Rightarrow> False)"

definition solid :: "disk \<Rightarrow> loc \<Rightarrow> bool" where
  "solid t cs \<longleftrightarrow> list_all (\<lambda>n. dir_at t (take n cs)) [1..<Suc (length cs)]"

lemma solid_iff: "solid t cs \<longleftrightarrow> (\<forall>n. 0 < n \<and> n \<le> length cs \<longrightarrow> dir_at t (take n cs))"
proof -
  have "set [1..<Suc (length cs)] = {n. 0 < n \<and> n \<le> length cs}" by auto
  then show ?thesis unfolding solid_def list_all_iff by blast
qed

lemma solid_Nil [simp]: "solid t []"
  by (simp add: solid_iff)

lemma solid_snoc: "solid t (cs @ [c]) \<longleftrightarrow> solid t cs \<and> dir_at t (cs @ [c])"
proof
  assume s: "solid t (cs @ [c])"
  have "dir_at t (take n cs)" if "0 < n" "n \<le> length cs" for n
    using s that by (auto simp: solid_iff dest: spec[of _ n])
  moreover have "dir_at t (take (length (cs @ [c])) (cs @ [c]))"
    using s unfolding solid_iff by (metis length_greater_0_conv order_refl snoc_eq_iff_butlast)
  ultimately show "solid t cs \<and> dir_at t (cs @ [c])"
    by (auto simp: solid_iff)
next
  assume s: "solid t cs \<and> dir_at t (cs @ [c])"
  show "solid t (cs @ [c])"
    unfolding solid_iff
  proof (intro allI impI)
    fix n assume n: "0 < n \<and> n \<le> length (cs @ [c])"
    then show "dir_at t (take n (cs @ [c]))"
      using s by (cases "n \<le> length cs") (auto simp: solid_iff)
  qed
qed

lemma solid_append: "solid t (cs @ ds) \<Longrightarrow> solid t cs"
  by (induction ds rule: rev_induct) (auto simp: solid_snoc simp flip: append_assoc)

lemma solid_cong:
  assumes "solid t cs" and "\<And>q. prefix q cs \<Longrightarrow> fs_get t' q = fs_get t q"
  shows "solid t' cs"
  unfolding solid_iff
proof (intro allI impI)
  fix n assume n: "0 < n \<and> n \<le> length cs"
  with assms(1) have "dir_at t (take n cs)" by (simp add: solid_iff)
  then show "dir_at t' (take n cs)"
    using assms(2)[of "take n cs"] by (simp add: dir_at_def take_is_prefix)
qed

lemma solid_put_below [simp]: "solid t cs \<Longrightarrow> solid (fs_put (cs @ x # xs) n t) cs"
  by (rule solid_cong) (auto simp: prefix_def)

lemma solid_del_below:
  "solid t cs \<Longrightarrow> (\<And>q. P q \<Longrightarrow> prefix (cs @ [x]) q) \<Longrightarrow> solid (fs_del P t) cs"
proof (rule solid_cong)
  fix q assume P: "\<And>q. P q \<Longrightarrow> prefix (cs @ [x]) q" and q: "prefix q cs"
  have "\<not> P q"
  proof
    assume "P q"
    then have "prefix (cs @ [x]) cs" using P q prefix_order.trans by blast
    then show False using prefix_length_le by fastforce
  qed
  then show "fs_get (fs_del P t) q = fs_get t q" by simp
qed

lemma solid_del_one [simp]: "solid t cs \<Longrightarrow> solid (fs_del (\<lambda>r. r = cs @ x # xs) t) cs"
  by (rule solid_del_below[where x = x]) auto

lemma solid_del_tree [simp]: "solid t cs \<Longrightarrow> solid (fs_del (prefix (cs @ x # xs)) t) cs"
  by (rule solid_del_below[where x = x]) (auto simp: prefix_def)

lemma not_prefix_siblings: "x \<noteq> y \<Longrightarrow> \<not> prefix (cs @ x # xs) (cs @ y # ys)"
  by simp

lemma solid_move_siblings [simp]:
  assumes "solid t cs" and "x \<noteq> y"
  shows "solid (fs_move (cs @ x # xs) (cs @ y # ys) t) cs"
proof (rule solid_cong[OF assms(1)])
  fix q assume "prefix q cs"
  then have "\<not> prefix (cs @ x # xs) q" "\<not> prefix (cs @ y # ys) q"
    by (auto simp: prefix_def)
  then show "fs_get (fs_move (cs @ x # xs) (cs @ y # ys) t) q = fs_get t q"
    using assms(2) by (simp add: disk.get_move)
qed

lemma names_of_path_of [simp]: "list_all plain cs \<Longrightarrow> names_of (path_of cs) = cs"
proof (cases "cs = []")
  case False
  assume p: "list_all plain cs"
  then have "names_of (path_of cs) = filter (\<lambda>c. c \<noteq> '''' \<and> c \<noteq> ''.'') cs"
    using False by (simp add: names_of_def path_of_def split_on_join_plain)
  also have "\<dots> = cs"
    using p by (intro filter_True) (auto simp: list_all_iff plain_def)
  finally show ?thesis .
qed (simp add: names_of_def path_of_def)

lemma walk_dirs:
  assumes "solid t (d @ cs)" and "list_all plain cs"
  shows "walk t f n d (cs @ rest) = walk t f n (d @ cs) rest"
  using assms
proof (induction cs arbitrary: d)
  case (Cons c cs)
  have "solid t ((d @ [c]) @ cs)" using Cons.prems by simp
  then have IH: "walk t f n (d @ [c]) (cs @ rest) = walk t f n ((d @ [c]) @ cs) rest"
    using Cons by auto
  have "dir_at t (d @ [c])"
    using solid_append[of t "d @ [c]" cs] Cons.prems by (simp add: solid_snoc)
  then obtain i where "fs_get t (d @ [c]) = Some i" "i_kind i = Directory"
    by (auto simp: dir_at_def is_dir_def split: option.splits)
  then show ?case
    using IH Cons.prems by (simp add: walk.simps(2) plain_def)
qed simp

lemma walk_last:
  assumes "plain c"
  shows "walk t f n d [c] = (case fs_get t (d @ [c]) of
      Some i \<Rightarrow> (case i_kind i of
          Symlink tgt \<Rightarrow> if \<not> f then Inr (d @ [c]) else if n = 0 then Inl ELOOP
            else walk t f (n - 1) (if rooted tgt then [] else d) (names_of tgt)
        | _ \<Rightarrow> Inr (d @ [c]))
    | None \<Rightarrow> Inr (d @ [c]))"
  using assms
  by (auto simp: walk.simps plain_def split: option.splits kind.splits)

lemma path_of_nonempty [simp]: "path_of cs \<noteq> []" "[] \<noteq> path_of cs"
  by (simp_all add: path_of_def)

lemma resolve_child:
  assumes "solid (disk w) cs" and "list_all plain cs" and "plain c"
  shows "resolve f w (path_of (cs @ [c])) = walk (disk w) f max_links cs [c]"
  using assms walk_dirs[of "disk w" "[]" cs f max_links "[c]"]
  by (simp add: resolve_def)

lemma resolve_nofollow [simp]:
  assumes "solid (disk w) cs" and "list_all plain cs" and "plain c"
  shows "resolve False w (path_of (cs @ [c])) = Inr (cs @ [c])"
  by (simp add: resolve_child[OF assms] walk_last[OF assms(3)] split: option.splits kind.splits)

definition no_link :: "disk \<Rightarrow> loc \<Rightarrow> bool" where
  "no_link t q \<longleftrightarrow> (case fs_get t q of
      Some i \<Rightarrow> (case i_kind i of Symlink _ \<Rightarrow> False | _ \<Rightarrow> True)
    | None \<Rightarrow> True)"

lemma resolve_no_link:
  assumes "solid (disk w) cs" and "list_all plain cs" and "plain c" and "no_link (disk w) (cs @ [c])"
  shows "resolve f w (path_of (cs @ [c])) = Inr (cs @ [c])"
  using assms(4)
  by (auto simp: resolve_child[OF assms(1-3)] walk_last[OF assms(3)] no_link_def
      split: option.splits kind.splits)

lemma resolve_link:
  assumes "solid (disk w) cs" and "list_all plain cs" and "plain c"
    and "fs_get (disk w) (cs @ [c]) = Some i" and "i_kind i = Symlink (path_of ds)"
    and "solid (disk w) ds" and "list_all plain ds" and "list_all plain rest"
  shows "resolve True w (path_of (cs @ c # rest)) =
           walk (disk w) True (max_links - 1) ds rest"
proof -
  have "resolve True w (path_of (cs @ c # rest)) = walk (disk w) True max_links cs (c # rest)"
    using assms walk_dirs[of "disk w" "[]" cs True max_links "c # rest"]
    by (simp add: resolve_def)
  also have "\<dots> = walk (disk w) True (max_links - 1) [] (ds @ rest)"
    using assms by (simp add: walk.simps(2)[of _ _ _ cs c rest] plain_def max_links_def)
  also have "\<dots> = walk (disk w) True (max_links - 1) ds rest"
    using assms walk_dirs[of "disk w" "[]" ds] by simp
  finally show ?thesis .
qed

lemma resolve_solid:
  assumes "solid (disk w) cs" and "list_all plain cs"
  shows "resolve f w (path_of cs) = Inr cs"
  using assms walk_dirs[of "disk w" "[]" cs f max_links "[]"]
  by (simp add: resolve_def walk.simps(1))

lemma path_of_snoc_append: "path_of (cs @ [n]) @ m = path_of (cs @ [n @ m])"
  by (simp add: path_of_snoc)

section \<open>Effects of calls on resolved paths\<close>

text \<open>
  Each rule splits a call into its failure, which moves nothing but the clock,
  and its success, with the change it makes to the tree.
\<close>

lemma node_at_nonempty [simp]: "q \<noteq> [] \<Longrightarrow> node_at w q = fs_get (disk w) q"
  by (simp add: node_at_def)

lemma os_Create_cases:
  assumes "resolve True w p = Inr q" and "q \<noteq> []"
  obtains (err) e w' where "os_Create p w = (Err e, w')" "same_os w w'"
  | (ok) i w' where "os_Create p w = (Ok q, w')" "disk w' = fs_put q i (disk w)"
      "i_kind i = Regular (Raw '''')" "same_locks w w'" "cwd w' = cwd w"
      "case fs_get (disk w) q of
         Some j \<Rightarrow> i_ino i = i_ino j \<and> i_kind j \<noteq> Directory \<and> next_ino w' = next_ino w
       | None \<Rightarrow> i_ino i = next_ino w \<and> next_ino w' = Suc (next_ino w)"
proof (cases "fault w (tick w)")
  case None
  let ?w = "w\<lparr>tick := Suc (tick w)\<rparr>"
  show ?thesis
  proof (cases "fs_get (disk w) q")
    case free: None
    show ?thesis
      by (rule ok[of "put_node q (Regular (Raw '''')) 438 ?w"
            "\<lparr>i_ino = next_ino w, i_kind = Regular (Raw ''''), i_mode = 438,
              i_uid = proc_uid w, i_gid = proc_gid w\<rparr>"])
        (use free None assms in
          \<open>simp_all add: os_Create_def sys_def at_path_def put_node_def same_locks_def\<close>)
  next
    case (Some i)
    show ?thesis
    proof (cases "i_kind i")
      case (Regular c)
      show ?thesis
        by (rule ok[of "set_node q (i\<lparr>i_kind := Regular (Raw '''')\<rparr>) ?w"
              "i\<lparr>i_kind := Regular (Raw '''')\<rparr>"])
          (use Some Regular None assms in
            \<open>simp_all add: os_Create_def sys_def at_path_def set_node_def same_locks_def\<close>)
    qed (use Some None assms err[of "Errno EISDIR" ?w] in
          \<open>simp_all add: os_Create_def sys_def at_path_def\<close>)
  qed
qed (use err in \<open>auto simp: os_Create_def sys_def\<close>)

lemma file_write_cases:
  assumes "fs_get (disk w) q = Some i" and "q \<noteq> []"
  obtains (err) e w' where "file_write q c w = (Err e, w')" "same_os w w'"
  | (ok) w' where "file_write q c w = (Ok (), w')" "same_locks w w'" "cwd w' = cwd w"
      "disk w' = fs_put q (i\<lparr>i_kind := Regular c\<rparr>) (disk w)" "next_ino w' = next_ino w"
proof (cases "fault w (tick w)")
  case None
  show ?thesis
    by (rule ok[of "set_node q (i\<lparr>i_kind := Regular c\<rparr>) (w\<lparr>tick := Suc (tick w)\<rparr>)"])
      (use None assms in \<open>simp_all add: file_write_def sys_def set_node_def same_locks_def\<close>)
qed (use err in \<open>auto simp: file_write_def sys_def\<close>)

lemma os_Remove_cases:
  assumes "resolve False w p = Inr q" and "q \<noteq> []"
  obtains (err) e w' where "os_Remove p w = (Err e, w')" "same_os w w'"
      "e = Errno ENOENT \<longrightarrow> fs_get (disk w) q = None \<or> fault w (tick w) \<noteq> None"
  | (ok) i w' where "os_Remove p w = (Ok (), w')" "same_locks w w'" "cwd w' = cwd w"
      "disk w' = fs_del (\<lambda>r. r = q) (disk w)" "fs_get (disk w) q = Some i"
      "is_dir i \<longrightarrow> fs_names (disk w) q = []"
proof (cases "fault w (tick w)")
  case None
  let ?w = "w\<lparr>tick := Suc (tick w)\<rparr>"
  show ?thesis
  proof (cases "fs_get (disk w) q")
    case free: None
    then show ?thesis
      using None assms err[of "Errno ENOENT" ?w]
      by (simp add: os_Remove_def sys_def at_path_def)
  next
    case (Some i)
    show ?thesis
    proof (cases "is_dir i \<and> fs_names (disk w) q \<noteq> []")
      case True
      then show ?thesis
        using Some None assms err[of "Errno ENOTEMPTY" ?w]
        by (simp add: os_Remove_def sys_def at_path_def)
    next
      case False
      show ?thesis
        by (rule ok[of "?w\<lparr>disk := fs_del (\<lambda>r. r = q) (disk w)\<rparr>" i])
          (use False Some None assms in \<open>auto simp: os_Remove_def sys_def at_path_def same_locks_def\<close>)
    qed
  qed
next
  case (Some x)
  then show ?thesis using err by (cases x) (auto simp: os_Remove_def sys_def)
qed

lemma os_Rename_cases:
  assumes "resolve False w a = Inr p" and "resolve False w b = Inr q" and "p \<noteq> []" and "q \<noteq> []"
    and "\<not> prefix p q"
  obtains (err) e w' where "os_Rename a b w = (Err e, w')" "same_os w w'"
  | (ok) i w' where "os_Rename a b w = (Ok (), w')" "same_locks w w'" "cwd w' = cwd w"
      "disk w' = fs_move p q (disk w)" "fs_get (disk w) p = Some i" "next_ino w' = next_ino w"
      "case fs_get (disk w) q of Some j \<Rightarrow> \<not> is_dir j \<and> \<not> is_dir i | None \<Rightarrow> True"
proof (cases "fault w (tick w)")
  case None
  let ?w = "w\<lparr>tick := Suc (tick w)\<rparr>"
  have pq: "p \<noteq> q" using assms(5) by auto
  have run: "os_Rename a b w = (case fs_get (disk w) p of
       None \<Rightarrow> (Err (Errno ENOENT), ?w)
     | Some i \<Rightarrow> (case fs_get (disk w) q of
         None \<Rightarrow> (Ok (), ?w\<lparr>disk := fs_move p q (disk w)\<rparr>)
       | Some j \<Rightarrow>
           if is_dir j then (Err (Errno EEXIST), ?w)
           else if is_dir i then (Err (Errno ENOTDIR), ?w)
           else (Ok (), ?w\<lparr>disk := fs_move p q (disk w)\<rparr>)))"
    using None assms pq by (simp add: os_Rename_def sys_def at_path_def split: option.splits)
  show ?thesis
  proof (cases "fst (os_Rename a b w) = Ok ()")
    case True
    then obtain i where i: "fs_get (disk w) p = Some i"
      using run by (auto split: option.splits)
    show ?thesis
      by (rule ok[of "?w\<lparr>disk := fs_move p q (disk w)\<rparr>" i])
        (use True i in \<open>auto simp: run same_locks_def split: option.splits if_splits\<close>)
  next
    case False
    then obtain e where "os_Rename a b w = (Err e, ?w)"
      by (auto simp: run split: option.splits if_splits)
    then show ?thesis using err by simp
  qed
next
  case (Some x)
  then show ?thesis using err by (cases x) (auto simp: os_Rename_def sys_def)
qed

lemma os_Symlink_cases:
  assumes "resolve False w p = Inr q" and "q \<noteq> []"
  obtains (err) e w' where "os_Symlink tgt p w = (Err e, w')" "same_os w w'"
  | (ok) i w' where "os_Symlink tgt p w = (Ok (), w')" "same_locks w w'" "cwd w' = cwd w"
      "disk w' = fs_put q i (disk w)" "i_kind i = Symlink tgt" "fs_get (disk w) q = None"
      "next_ino w' = Suc (next_ino w)" "i_ino i = next_ino w"
proof (cases "fault w (tick w)")
  case None
  let ?w = "w\<lparr>tick := Suc (tick w)\<rparr>"
  show ?thesis
  proof (cases "fs_get (disk w) q")
    case (Some i)
    then show ?thesis
      using None assms err[of "Errno EEXIST" ?w]
      by (simp add: os_Symlink_def sys_def at_path_def)
  next
    case free: None
    show ?thesis
      by (rule ok[of "put_node q (Symlink tgt) 511 ?w"
            "\<lparr>i_ino = next_ino w, i_kind = Symlink tgt, i_mode = 511,
              i_uid = proc_uid w, i_gid = proc_gid w\<rparr>"])
        (use free None assms in
          \<open>simp_all add: os_Symlink_def sys_def at_path_def put_node_def same_locks_def\<close>)
  qed
qed (use err in \<open>auto simp: os_Symlink_def sys_def\<close>)

text \<open>\<^verbatim>\<open>os.RemoveAll\<close> touches nothing outside its tree, whether it fails or not.\<close>

lemma os_RemoveAll_cases:
  assumes "resolve False w p = Inr q"
  obtains (err) e w' where "os_RemoveAll p w = (Err e, w')" "same_locks w w'" "cwd w' = cwd w"
      "\<forall>r. \<not> prefix q r \<longrightarrow> fs_get (disk w') r = fs_get (disk w) r" "next_ino w' = next_ino w"
      "\<not> is_not_exist e"
  | (ok) w' where "os_RemoveAll p w = (Ok (), w')" "same_locks w w'" "cwd w' = cwd w"
      "disk w' = fs_del (prefix q) (disk w)" "next_ino w' = next_ino w"
proof (cases "fault w (tick w)")
  case None
  show ?thesis
    by (rule ok[of "w\<lparr>tick := Suc (tick w), disk := fs_del (prefix q) (disk w)\<rparr>"])
      (use None assms in \<open>simp_all add: os_RemoveAll_def same_locks_def\<close>)
next
  case (Some x)
  obtain e keep where x: "x = (e, keep)" by fastforce
  show ?thesis
  proof (cases "e = ENOENT")
    case True
    show ?thesis
      by (rule ok[of "w\<lparr>tick := Suc (tick w), disk := fs_del (prefix q) (disk w)\<rparr>"])
        (use Some x True assms in \<open>simp_all add: os_RemoveAll_def same_locks_def\<close>)
  next
    case False
    show ?thesis
      by (rule err[of "Errno e" "w\<lparr>tick := Suc (tick w),
            disk := fs_del (\<lambda>r. prefix q r \<and> \<not> survives (disk w) keep r) (disk w)\<rparr>"])
        (use Some x False assms in \<open>simp_all add: os_RemoveAll_def same_locks_def is_not_exist_def\<close>)
  qed
qed

lemma os_ReadFile_cases:
  assumes "resolve True w p = Inr q" and "q \<noteq> []"
  obtains (err) e w' where "os_ReadFile p w = (Err e, w')" "same_os w w'"
  | (ok) i c w' where "os_ReadFile p w = (Ok c, w')" "same_os w w'"
      "fs_get (disk w) q = Some i" "i_kind i = Regular c"
proof (cases "fault w (tick w)")
  case None
  let ?w = "w\<lparr>tick := Suc (tick w)\<rparr>"
  show ?thesis
  proof (cases "fs_get (disk w) q")
    case free: None
    then show ?thesis
      using None assms err[of "Errno ENOENT" ?w]
      by (simp add: os_ReadFile_def sys_def at_path_def)
  next
    case (Some i)
    then show ?thesis
      using None assms err[of "Errno EISDIR" ?w] ok[of _ ?w i]
      by (cases "i_kind i") (simp_all add: os_ReadFile_def sys_def at_path_def)
  qed
qed (use err in \<open>auto simp: os_ReadFile_def sys_def\<close>)

lemma os_Open_cases:
  assumes "resolve True w p = Inr q" and "q \<noteq> []"
  obtains (err) e w' where "os_Open p w = (Err e, w')" "same_os w w'"
  | (ok) i w' where "os_Open p w = (Ok q, w')" "same_os w w'" "fs_get (disk w) q = Some i"
proof (cases "fault w (tick w)")
  case None
  then show ?thesis
    using assms err[of "Errno ENOENT" "w\<lparr>tick := Suc (tick w)\<rparr>"] ok[of "w\<lparr>tick := Suc (tick w)\<rparr>"]
    by (cases "fs_get (disk w) q") (simp_all add: os_Open_def sys_def at_path_def)
qed (use err in \<open>auto simp: os_Open_def sys_def\<close>)

lemma file_read_cases:
  assumes "q \<noteq> []"
  obtains (err) e w' where "file_read q w = (Err e, w')" "same_os w w'"
  | (ok) i c w' where "file_read q w = (Ok c, w')" "same_os w w'" "fs_get (disk w) q = Some i"
      "i_kind i = Regular c"
proof (cases "fault w (tick w)")
  case None
  let ?w = "w\<lparr>tick := Suc (tick w)\<rparr>"
  show ?thesis
  proof (cases "fs_get (disk w) q")
    case free: None
    then show ?thesis
      using None assms err[of "Errno EBADF" ?w] by (simp add: file_read_def sys_def)
  next
    case (Some i)
    then show ?thesis
      using None assms err[of "Errno EISDIR" ?w] ok[of _ ?w i]
      by (cases "i_kind i") (simp_all add: file_read_def sys_def)
  qed
qed (use err in \<open>auto simp: file_read_def sys_def\<close>)

text \<open>Locks.\<close>

lemma unix_Open_cases:
  assumes "resolve True w p = Inr q" and "q \<noteq> []"
  obtains (err) e w' where "unix_Open p d w = (Err e, w')" "same_os w w'"
  | (ok) i w' where "unix_Open p d w = (Ok (next_fd w), w')" "same_disk w w'"
      "fs_get (disk w) q = Some i" "d \<longrightarrow> is_dir i" "flocks w' = flocks w"
      "fds w' = (fds w)(next_fd w := Some (i_ino i))" "next_fd w' = Suc (next_fd w)"
proof (cases "fault w (tick w)")
  case None
  let ?w = "w\<lparr>tick := Suc (tick w)\<rparr>"
  show ?thesis
  proof (cases "fs_get (disk w) q")
    case free: None
    then show ?thesis
      using None assms err[of "Errno ENOENT" ?w]
      by (simp add: unix_Open_def sys_def at_path_def)
  next
    case (Some i)
    show ?thesis
    proof (cases "d \<and> \<not> is_dir i")
      case True
      then show ?thesis
        using Some None assms err[of "Errno ENOTDIR" ?w]
        by (simp add: unix_Open_def sys_def at_path_def)
    next
      case False
      show ?thesis
        by (rule ok[of "?w\<lparr>fds := (fds w)(next_fd w := Some (i_ino i)), next_fd := Suc (next_fd w)\<rparr>" i])
          (use False Some None assms in \<open>auto simp: unix_Open_def sys_def at_path_def same_disk_def\<close>)
    qed
  qed
qed (use err in \<open>auto simp: unix_Open_def sys_def\<close>)

lemma unix_Flock_cases:
  assumes "fds w fd = Some n"
  obtains (err) e w' where "unix_Flock fd nb w = (Err e, w')" "same_os w w'"
  | (blocked) w' h where "unix_Flock fd nb w = (Abort Blocked, w')" "same_os w w'" "\<not> nb"
      "flocks w n = Some h" "h \<noteq> Mine fd"
  | (ok) w' where "unix_Flock fd nb w = (Ok (), w')" "same_disk w w'" "fds w' = fds w"
      "next_fd w' = next_fd w" "flocks w' = (flocks w)(n := Some (Mine fd))"
      "flocks w n = None \<or> flocks w n = Some (Mine fd)"
proof (cases "fault w (tick w)")
  case None
  let ?w = "w\<lparr>tick := Suc (tick w)\<rparr>"
  show ?thesis
  proof (cases "flocks w n")
    case free: None
    show ?thesis
      by (rule ok[of "?w\<lparr>flocks := (flocks w)(n := Some (Mine fd))\<rparr>"])
        (use free None assms in \<open>simp_all add: unix_Flock_def sys_def same_disk_def\<close>)
  next
    case (Some h)
    then show ?thesis
      using None assms err[of "Errno EWOULDBLOCK" ?w] blocked[of ?w h] ok[of ?w]
      by (cases "h = Mine fd"; cases nb)
        (auto simp: unix_Flock_def sys_def same_disk_def fun_upd_idem)
  qed
qed (use err in \<open>auto simp: unix_Flock_def sys_def\<close>)

lemma unix_Close_run:
  assumes "fds w fd = Some n"
  obtains r w' where "unix_Close fd w = (r, w')" "r = Ok () \<or> (\<exists>e. r = Err e)" "same_disk w w'"
    "fds w' = (fds w)(fd := None)" "next_fd w' = next_fd w"
    "flocks w' = (if flocks w n = Some (Mine fd) then (flocks w)(n := None) else flocks w)"
  using assms by (cases "fault w (tick w)") (auto simp: unix_Close_def same_disk_def)

section \<open>System calls return\<close>

lemma returns_sys: "returns m \<Longrightarrow> returns (sys m)"
  by (auto simp: returns_def sys_def Let_def split: option.splits)

lemma returns_os [intro]:
  "returns (os_Stat p)" "returns (os_Lstat p)" "returns (os_Mkdir p m)" "returns (os_Create p)"
  "returns (file_write q c)" "returns (file_chmod q m)" "returns (os_Chmod p m)" "returns (os_Chown p u g)"
  "returns (os_Open p)" "returns (file_read q)" "returns (os_ReadFile p)" "returns (os_WriteFile p s m)"
  "returns (os_Remove p)" "returns (os_Rename p p')" "returns (os_Symlink s p)" "returns (os_Readlink p)"
  "returns (os_ReadDir p)"
  unfolding os_Stat_def os_Lstat_def stat_with_def os_Mkdir_def os_Create_def file_write_def
    file_chmod_def os_Chmod_def os_Chown_def os_Open_def file_read_def os_ReadFile_def os_WriteFile_def
    os_Remove_def os_Rename_def os_Symlink_def os_Readlink_def os_ReadDir_def
  by (rule returns_sys; auto simp: returns_def at_path_def split: sum.splits option.splits kind.splits if_splits)+

end
