(* ===== verification/Transport.thy ===== *)
theory Transport
  imports File_Laws "HOL-Library.Word"
begin

text \<open>
  \<^verbatim>\<open>internal/transport\<close>: messages with file descriptors over a Unix socket. The
  16-byte header is modelled on machine words. A channel is what the peer's
  \<^verbatim>\<open>sendmsg\<close> calls put on the socket: each entry is the bytes of one call and the
  descriptors of its control message. \<^verbatim>\<open>json.Marshal\<close> and \<^verbatim>\<open>json.Unmarshal\<close>
  are parameters.
\<close>

type_synonym byte = "8 word"

section \<open>The header\<close>

record messageHeader =
  h_size :: "64 word"
  h_fds :: "64 word"

definition messageHeaderSize :: nat where "messageHeaderSize = 16"

definition fdSize :: "64 word" where "fdSize = 4"

text \<open>\<^verbatim>\<open>binary.LittleEndian.PutUint64\<close> and \<^verbatim>\<open>Uint64\<close>\<close>

fun put_le :: "nat \<Rightarrow> 64 word \<Rightarrow> byte list" where
  "put_le 0 x = []"
| "put_le (Suc n) x = ucast x # put_le n (drop_bit 8 x)"

fun get_le :: "byte list \<Rightarrow> 64 word" where
  "get_le [] = 0"
| "get_le (y # ys) = or (ucast y) (push_bit 8 (get_le ys))"

definition putMessageHeader :: "messageHeader \<Rightarrow> byte list" where
  "putMessageHeader hdr = put_le 8 (h_size hdr) @ put_le 8 (h_fds hdr)"

definition parseMessageHeader :: "byte list \<Rightarrow> messageHeader" where
  "parseMessageHeader buffer =
     \<lparr>h_size = get_le (take 8 buffer), h_fds = get_le (drop 8 buffer)\<rparr>"

lemma length_put_le [simp]: "length (put_le n x) = n"
  by (induction n arbitrary: x) auto

lemma length_putMessageHeader: "length (putMessageHeader hdr) = messageHeaderSize"
  by (simp add: putMessageHeader_def messageHeaderSize_def)

lemma get_put_le: "get_le (put_le n x) = take_bit (8 * n) x"
proof (induction n arbitrary: x)
  case (Suc n)
  have "get_le (put_le (Suc n) x) = or (ucast (ucast x :: byte)) (push_bit 8 (take_bit (8 * n) (drop_bit 8 x)))"
    by (simp add: Suc)
  also have "\<dots> = take_bit (8 * Suc n) x"
    by (rule bit_eqI)
      (auto simp: bit_or_iff bit_ucast_iff bit_push_bit_iff bit_take_bit_iff bit_drop_bit_eq
        intro: ccontr)
  finally show ?case .
qed simp

lemma header_round_trip: "parseMessageHeader (putMessageHeader hdr) = hdr"
proof -
  have "take_bit 64 x = x" for x :: "64 word"
    by (simp add: take_bit_word_eq_self)
  then have "get_le (put_le 8 x) = x" for x
    using get_put_le[of 8 x] by simp
  then show ?thesis
    by (simp add: parseMessageHeader_def putMessageHeader_def)
qed

text \<open>
  The message header survives the wire: sixteen bytes are written, and parsing
  them gives back both 64-bit fields, for every value.
\<close>

theorem parse_put_header:
  "length (putMessageHeader hdr) = messageHeaderSize \<and> parseMessageHeader (putMessageHeader hdr) = hdr"
  by (simp add: length_putMessageHeader header_round_trip)

section \<open>Descriptors that are owned\<close>

datatype UnixFd = UnixFd (ufd: int)

definition emptyFd :: int where "emptyFd = -1"

definition ufd_IsEmpty :: "UnixFd \<Rightarrow> bool" where
  "ufd_IsEmpty u \<longleftrightarrow> ufd u = emptyFd"

definition ufd_TakeFd :: "UnixFd \<Rightarrow> int \<times> UnixFd" where
  "ufd_TakeFd u = (ufd u, UnixFd emptyFd)"

definition ufd_Close :: "UnixFd \<Rightarrow> UnixFd io" where
  "ufd_Close u =
     (if ufd u \<noteq> emptyFd then seq (attempt (unix_Close (nat (ufd u)))) (\<lambda>_. ret (UnixFd emptyFd))
      else ret u)"

record 'm MessageSlot =
  Message :: 'm
  m_fds :: "UnixFd list"

definition NewMessageSlot :: "'m \<Rightarrow> 'm MessageSlot" where
  "NewMessageSlot message = \<lparr>Message = message, m_fds = []\<rparr>"

definition TakeUnixFd :: "int \<Rightarrow> 'm MessageSlot \<Rightarrow> 'm MessageSlot" where
  "TakeUnixFd fd m = m\<lparr>m_fds := m_fds m @ [UnixFd fd]\<rparr>"

text \<open>
  \<^verbatim>\<open>Destroy\<close> closes copies of the slot's descriptors: the loop variable is a copy,
  so the slot still lists them afterwards.
\<close>

definition slot_Destroy :: "'m MessageSlot \<Rightarrow> unit io" where
  "slot_Destroy m = each (\<lambda>u. seq (ufd_Close u) (\<lambda>_. ret ())) (m_fds m)"

section \<open>Sending and receiving\<close>

type_synonym packet = "byte list \<times> int list"

definition Send :: "('m \<Rightarrow> err + byte list) \<Rightarrow> (packet \<Rightarrow> err option) \<Rightarrow> 'm MessageSlot \<Rightarrow>
    packet list \<Rightarrow> unit res \<times> packet list" where
  "Send marshal Sendmsg slot wire = (case marshal (Message slot) of
      Inl e \<Rightarrow> (Err (Wrapped ''marshalling message'' e), wire)
    | Inr data \<Rightarrow>
        let rights = map ufd (m_fds slot);
            hdr = \<lparr>h_size = word_of_nat (length data), h_fds = word_of_nat (length rights)\<rparr>;
            p1 = (putMessageHeader hdr, []);
            p2 = (data, rights) in
        case Sendmsg p1 of
          Some e \<Rightarrow> (Err (Wrapped ''sending header'' e), wire)
        | None \<Rightarrow> (case Sendmsg p2 of
            Some e \<Rightarrow> (Err (Wrapped ''sending data'' e), wire @ [p1])
          | None \<Rightarrow> (Ok (), wire @ [p1, p2])))"

text \<open>
  What the receiving side relies on: the error of each of its system calls, the
  parsing of a control buffer of some size (\<open>None\<close>: the kernel wrote nothing into it), and the
  largest slice the Go runtime can make.
\<close>

record receiver =
  rx_fault :: "nat \<Rightarrow> err option"
  rx_ParseControl :: "nat \<Rightarrow> int list option \<Rightarrow> err + int list list"
  rx_max_alloc :: nat

text \<open>
  One \<^verbatim>\<open>recvmsg\<close> into a buffer of \<open>room\<close> bytes and a control buffer of \<open>ctl\<close>, which
  takes a header of 16 bytes and 4 bytes for each descriptor that fits.
  When the peer has closed the socket it returns no bytes. The rights of one
  \<^verbatim>\<open>sendmsg\<close> arrive as one control message, and as none when there are none.
\<close>

definition recvmsg :: "err option \<Rightarrow> nat \<Rightarrow> nat \<Rightarrow> packet list \<Rightarrow>
    (err + byte list \<times> int list option) \<times> packet list" where
  "recvmsg fault_of room ctl wire = (case fault_of of
      Some e \<Rightarrow> (Inl e, wire)
    | None \<Rightarrow> (case wire of
        [] \<Rightarrow> (Inr ([], None), [])
      | (bytes, rights) # rest \<Rightarrow>
          let fits = take ((ctl - 16) div 4) rights in
          (Inr (take room bytes, if fits = [] then None else Some fits), rest)))"

text \<open>\<^verbatim>\<open>unix.CmsgSpace\<close>: the header and the data, each padded to eight bytes.\<close>

definition CmsgSpace :: "int \<Rightarrow> int" where
  "CmsgSpace n = 16 + 8 * ((n + 7) div 8)"

lemma CmsgSpace_ge: "n + 16 \<le> CmsgSpace n"
  by (simp add: CmsgSpace_def)

definition Recv :: "(byte list \<Rightarrow> err + 'm) \<Rightarrow> receiver \<Rightarrow> 'm MessageSlot \<Rightarrow> packet list \<Rightarrow>
    'm MessageSlot res \<times> packet list" where
  "Recv unmarshal rx slot wire = (case recvmsg (rx_fault rx 0) messageHeaderSize 0 wire of
      (Inl e, wire) \<Rightarrow> (Err (Wrapped ''receiving size'' e), wire)
    | (Inr (hdrBuffer, _), wire) \<Rightarrow>
        if length hdrBuffer \<noteq> messageHeaderSize then (Err (Msg ''invalid header size''), wire)
        else
          let hdr = parseMessageHeader hdrBuffer;
              control_size = CmsgSpace (sint (fdSize * h_fds hdr)) in
          if unat (h_size hdr) > rx_max_alloc rx
          then (Abort (Panic ''makeslice: len out of range''), wire)
          else if control_size < 0 \<or> control_size > int (rx_max_alloc rx)
          then (Abort (Panic ''makeslice: len out of range''), wire)
          else case recvmsg (rx_fault rx 1) (unat (h_size hdr)) (nat control_size) wire of
            (Inl e, wire) \<Rightarrow> (Err (Wrapped ''receiving message'' e), wire)
          | (Inr (data, control), wire) \<Rightarrow>
              if length data \<noteq> unat (h_size hdr) then (Err (Msg ''invalid data size''), wire)
              else case unmarshal data of
                Inl e \<Rightarrow> (Err (Wrapped ''unmarshalling message'' e), wire)
              | Inr msg \<Rightarrow> (case rx_ParseControl rx (nat control_size) control of
                  Inl e \<Rightarrow> (Err (Wrapped ''parsing control message'' e), wire)
                | Inr [rights] \<Rightarrow>
                    (Ok (slot\<lparr>Message := msg, m_fds := m_fds slot @ map UnixFd rights\<rparr>), wire)
                | Inr cs \<Rightarrow> (Err (Msg (''unexpected # of control messages: '' @
                          show_nat (length cs))), wire)))"

text \<open>
  A message that was sent is received: with descriptors attached (at least one),
  \<^verbatim>\<open>Recv\<close> on the packets of a successful \<^verbatim>\<open>Send\<close> returns the message and the same
  descriptors in order, and consumes exactly those packets.
\<close>

theorem Recv_Send:
  assumes "Send marshal (\<lambda>_. None) slot wire = (Ok (), wire @ sent)"
    and "\<And>data. marshal (Message slot) = Inr data \<Longrightarrow>
      unmarshal data = Inr (Message slot) \<and> length data \<le> rx_max_alloc rx"
    and "rx_max_alloc rx < 2 ^ 63" and "m_fds slot \<noteq> []"
    and "CmsgSpace (4 * int (length (m_fds slot))) \<le> int (rx_max_alloc rx)"
    and "\<And>n. rx_fault rx n = None"
    and "\<And>rights. rights \<noteq> [] \<Longrightarrow>
      rx_ParseControl rx (nat (CmsgSpace (4 * int (length rights)))) (Some rights) = Inr [rights]"
  shows "Recv unmarshal rx (NewMessageSlot m0) (sent @ rest) =
    (Ok \<lparr>Message = Message slot, m_fds = m_fds slot\<rparr>, rest)"
proof -
  obtain data where data: "marshal (Message slot) = Inr data"
    using assms(1) by (cases "marshal (Message slot)") (auto simp: Send_def)
  let ?hdr = "\<lparr>h_size = word_of_nat (length data), h_fds = word_of_nat (length (m_fds slot))\<rparr> :: messageHeader"
  have sent: "sent = [(putMessageHeader ?hdr, []), (data, map ufd (m_fds slot))]"
    using assms(1) data by (simp add: Send_def Let_def)
  have um: "unmarshal data = Inr (Message slot)" "length data \<le> rx_max_alloc rx"
    using assms(2)[OF data] by simp_all
  have hdr: "parseMessageHeader (putMessageHeader ?hdr) = ?hdr"
    "length (putMessageHeader ?hdr) = messageHeaderSize"
    using header_round_trip length_putMessageHeader by simp_all
  have size: "unat (word_of_nat (length data) :: 64 word) = length data"
    using um(2) assms(3) by (simp add: unat_of_nat take_bit_nat_eq_self)
  let ?n = "length (m_fds slot)"
  have ctl: "sint (fdSize * word_of_nat ?n) = 4 * int ?n"
  proof -
    have w: "fdSize * word_of_nat ?n = (word_of_int (4 * int ?n) :: 64 word)"
      by (simp add: fdSize_def)
    have "int (rx_max_alloc rx) < 2 ^ 63" using assms(3) by (simp flip: of_nat_less_iff)
    then have "4 * int ?n < 2 ^ 63"
      using assms(5) CmsgSpace_ge[of "4 * int ?n"] by linarith
    then show ?thesis
      unfolding w sint_sbintrunc' by (intro signed_take_bit_int_eq_self) simp_all
  qed
  have room: "?n \<le> (nat (CmsgSpace (4 * int ?n)) - 16) div 4"
    using CmsgSpace_ge[of "4 * int ?n"] by linarith
  have some: "(nat (CmsgSpace (4 * int ?n)) - 16) div 4 \<noteq> 0"
  proof
    assume "(nat (CmsgSpace (4 * int ?n)) - 16) div 4 = 0"
    then have "?n = 0" using room by simp
    then show False using assms(4) by simp
  qed
  have "map (UnixFd \<circ> ufd) (m_fds slot) = m_fds slot" by (simp add: comp_def)
  moreover have "0 \<le> CmsgSpace (4 * int ?n)" using CmsgSpace_ge[of "4 * int ?n"] by linarith
  moreover have "rx_ParseControl rx (nat (CmsgSpace (4 * int ?n))) (Some (map ufd (m_fds slot))) =
      Inr [map ufd (m_fds slot)]"
    using assms(4) assms(7)[of "map ufd (m_fds slot)"] by simp
  ultimately show ?thesis
    using um size ctl assms(4-6) hdr room some
    by (simp add: Recv_def recvmsg_def sent NewMessageSlot_def Let_def)
qed

text \<open>
  Without descriptors there is no control message, and \<^verbatim>\<open>Recv\<close> reports an error for
  a message that arrived whole.
\<close>

lemma Recv_without_fds:
  assumes "Send marshal (\<lambda>_. None) \<lparr>Message = m, m_fds = []\<rparr> wire = (Ok (), wire @ sent)"
    and "\<And>data. marshal m = Inr data \<Longrightarrow> unmarshal data = Inr m \<and> length data \<le> rx_max_alloc rx"
    and "rx_max_alloc rx < 2 ^ 63" and "16 \<le> rx_max_alloc rx" and "\<And>n. rx_fault rx n = None"
    and "rx_ParseControl rx 16 None = Inl e"
  shows "fst (Recv unmarshal rx (NewMessageSlot m0) (sent @ rest)) =
    Err (Wrapped ''parsing control message'' e)"
proof -
  obtain data where data: "marshal m = Inr data"
    using assms(1) by (cases "marshal m") (auto simp: Send_def)
  have um: "unmarshal data = Inr m" "length data \<le> rx_max_alloc rx"
    using assms(2)[OF data] by simp_all
  have "unat (word_of_nat (length data) :: 64 word) = length data"
    using um(2) assms(3) by (simp add: unat_of_nat take_bit_nat_eq_self)
  then show ?thesis
    using assms um data length_putMessageHeader
    by (auto simp: Recv_def recvmsg_def Send_def NewMessageSlot_def Let_def header_round_trip CmsgSpace_def)
qed

end
