(* ===== verification/Channel.thy ===== *)
theory Channel
  imports Transport
begin

text \<open>
  The connections of \<^verbatim>\<open>internal/transport\<close>. A connection is a descriptor of the process,
  of a Unix socket or of another kind; a listener is what its \<^verbatim>\<open>Accept\<close> does.
\<close>

datatype net_Conn = UnixConn nat | OtherConn nat

record Channel =
  ch_conn :: net_Conn
  ch_connFile :: nat

text \<open>\<^verbatim>\<open>conn.(*net.UnixConn).File()\<close>: a duplicate of the descriptor, or a panic.\<close>

definition conn_File :: "net_Conn \<Rightarrow> nat io" where
  "conn_File conn = (case conn of
      OtherConn _ \<Rightarrow> panic ''interface conversion: net.Conn''
    | UnixConn fd \<Rightarrow> sys (\<lambda>w. case fds w fd of
        None \<Rightarrow> (Err (Errno EBADF), w)
      | Some n \<Rightarrow> (Ok (next_fd w), w\<lparr>fds := (fds w)(next_fd w := Some n), next_fd := Suc (next_fd w)\<rparr>)))"

definition NewChannel :: "net_Conn \<Rightarrow> Channel io" where
  "NewChannel conn = seq (wrap ''access connection file'' (conn_File conn)) (\<lambda>connFile.
     ret \<lparr>ch_conn = conn, ch_connFile = connFile\<rparr>)"

record Server =
  sv_Accept :: "net_Conn io"

definition NewServer :: "net_Conn io \<Rightarrow> Server" where
  "NewServer listener = \<lparr>sv_Accept = listener\<rparr>"

definition Accept :: "Server \<Rightarrow> Channel io" where
  "Accept server = seq (sv_Accept server) NewChannel"

text \<open>\<^verbatim>\<open>PeekFd\<close> reads the descriptor and leaves it owned.\<close>

definition ufd_PeekFd :: "UnixFd \<Rightarrow> int" where
  "ufd_PeekFd u = ufd u"

lemma TakeFd_PeekFd: "fst (ufd_TakeFd u) = ufd_PeekFd u \<and> ufd_IsEmpty (snd (ufd_TakeFd u))"
  by (simp add: ufd_TakeFd_def ufd_PeekFd_def ufd_IsEmpty_def)

text \<open>An accepted channel owns two descriptors of one socket.\<close>

lemma Accept_duplicates:
  assumes "sv_Accept server w = (Ok (UnixConn fd), w1)" and "fds w1 (next_fd w1) = None"
    and "Accept server w = (Ok ch, w')"
  shows "ch_conn ch = UnixConn fd \<and> ch_connFile ch \<noteq> fd \<and> fds w' (ch_connFile ch) = fds w' fd \<and> fds w' fd \<noteq> None"
  using assms
  by (cases "fds w1 fd"; cases "fault w1 (tick w1)")
    (auto simp: Accept_def NewChannel_def conn_File_def sys_def Let_def run_simps ret_def)

text \<open>When the duplicate cannot be made, the accepted connection is left open.\<close>

lemma Accept_leaks_connection:
  assumes "sv_Accept server w = (Ok (UnixConn fd), w1)" and "Accept server w = (Err e, w')"
  shows "fds w' fd = fds w1 fd"
  using assms
  by (cases "fds w1 fd"; cases "fault w1 (tick w1)")
    (auto simp: Accept_def NewChannel_def conn_File_def sys_def Let_def run_simps ret_def)

end
