(* ===== verification/Logging.thy ===== *)
theory Logging
  imports Prelude Go_Strings
begin

text \<open>
  \<^verbatim>\<open>internal/log\<close>: what each function writes where, given the package's one variable. A
  message is the text that \<^verbatim>\<open>fmt\<close> makes of the arguments. The other theories record only
  what a program writes to its standard output and that a fatal message ends it.
\<close>

record log_state =
  log_verbose :: bool
  log_out :: "string list"
  log_err :: "string list"

type_synonym 'a logged = "(log_state, 'a) call"

definition Verbose :: "bool logged" where
  "Verbose = get_state log_verbose"

definition SetVerbose :: "bool \<Rightarrow> unit logged" where
  "SetVerbose newVerbose s = (Ok (), s\<lparr>log_verbose := newVerbose\<rparr>)"

definition Info :: "string \<Rightarrow> unit logged" where
  "Info message s = (Ok (), s\<lparr>log_out := log_out s @ [message]\<rparr>)"

definition Alert :: "string \<Rightarrow> unit logged" where
  "Alert message s = (Ok (), s\<lparr>log_err := log_err s @ [message]\<rparr>)"

definition Debug :: "string \<Rightarrow> unit logged" where
  "Debug message = seq Verbose (\<lambda>verbose. if verbose then Alert message else ret ())"

definition Fatal :: "string \<Rightarrow> unit logged" where
  "Fatal message = seq (Alert message) (\<lambda>_. abort (Exited 1))"

text \<open>Standard output carries only what is information; debugging is silent unless asked for.\<close>

lemma log_streams:
  "fst (Debug m s) = Ok () \<and> log_out (snd (Debug m s)) = log_out s \<and>
     log_err (snd (Debug m s)) = log_err s @ (if log_verbose s then [m] else [])"
  "log_out (snd (Alert m s)) = log_out s" "log_err (snd (Info m s)) = log_err s"
  "fst (Fatal m s) = Abort (Exited 1)" "log_err (snd (Fatal m s)) = log_err s @ [m]"
  by (simp_all add: Debug_def Verbose_def Alert_def Info_def Fatal_def run_simps get_state_def ret_def abort_def)

end
