(* ===== verification/Go_Regexp.thy ===== *)
theory Go_Regexp
  imports Go_Strings
begin

text \<open>
  Go's \<^verbatim>\<open>regexp\<close> package for the constructs the program's patterns use: byte
  classes, sequence, alternative, repetition and the anchors \<^verbatim>\<open>^\<close> and \<^verbatim>\<open>$\<close>
  (beginning and end of the text, no multi-line mode). \<open>ends r x\<close> lists the
  positions at which a match of \<open>r\<close> that begins at \<open>x\<close> can stop; a position is
  the rest of the text, with a flag that says whether it is the whole text.
  \<open>match_string\<close> is \<^verbatim>\<open>Regexp.MatchString\<close>: a match may begin anywhere.
\<close>

datatype rx =
    Class "char \<Rightarrow> bool"
  | Empty
  | Then rx rx
  | Or rx rx
  | Many rx
  | Begin
  | End

type_synonym pos = "bool \<times> string"

definition Plus :: "rx \<Rightarrow> rx" where
  "Plus r = Then r (Many r)"

definition Opt :: "rx \<Rightarrow> rx" where
  "Opt r = Or r Empty"

function (sequential) ends :: "rx \<Rightarrow> pos \<Rightarrow> pos list" where
  "ends (Class p) (b, c # s) = (if p c then [(False, s)] else [])"
| "ends (Class p) (b, []) = []"
| "ends Empty x = [x]"
| "ends (Then r q) x = concat (map (\<lambda>y. ends q y) (ends r x))"
| "ends (Or r q) x = ends r x @ ends q x"
| "ends (Many r) x =
     x # concat (map (\<lambda>y. ends (Many r) y)
                  (filter (\<lambda>y. length (snd y) < length (snd x)) (ends r x)))"
| "ends Begin x = (if fst x then [x] else [])"
| "ends End x = (if snd x = [] then [x] else [])"
  by pat_completeness auto
termination
  by (relation "measures [\<lambda>(r, x). size r, \<lambda>(r, x). length (snd x)]") auto

text \<open>
  The equation of \<open>Many\<close> calls itself on any position; it is kept out of the
  simplifier except on a literal text.
\<close>

declare ends.simps(6) [simp del]

lemma ends_Many_Nil [simp]: "ends (Many r) (b, []) = [(b, [])]"
  by (simp add: ends.simps(6))

lemma ends_Many_Cons [simp]:
  "ends (Many r) (b, c # s) = (b, c # s) #
     concat (map (ends (Many r)) (filter (\<lambda>y. length (snd y) \<le> length s) (ends r (b, c # s))))"
  by (subst ends.simps(6)) (simp add: less_Suc_eq_le)

fun match_from :: "rx \<Rightarrow> bool \<Rightarrow> string \<Rightarrow> bool" where
  "match_from r b [] = (ends r (b, []) \<noteq> [])"
| "match_from r b (c # s) = (ends r (b, c # s) \<noteq> [] \<or> match_from r False s)"

definition match_string :: "rx \<Rightarrow> string \<Rightarrow> bool" where
  "match_string r s = match_from r True s"

section \<open>Character classes\<close>

definition between :: "char \<Rightarrow> char \<Rightarrow> char \<Rightarrow> bool" where
  "between lo hi c \<longleftrightarrow> (of_char lo :: nat) \<le> of_char c \<and> (of_char c :: nat) \<le> of_char hi"

definition lower :: "char \<Rightarrow> bool" where "lower = between CHR ''a'' CHR ''z''"
definition upper :: "char \<Rightarrow> bool" where "upper = between CHR ''A'' CHR ''Z''"
definition digit :: "char \<Rightarrow> bool" where "digit = between CHR ''0'' CHR ''9''"
definition alnum :: "char \<Rightarrow> bool" where "alnum c \<longleftrightarrow> lower c \<or> upper c \<or> digit c"

text \<open>The dot matches every character but a newline.\<close>

definition dot :: "char \<Rightarrow> bool" where
  "dot c \<longleftrightarrow> of_char c \<noteq> (10::nat)"

section \<open>Languages of anchored patterns\<close>

lemma match_from_False_Begin: "match_from (Then Begin r) False s = False"
  by (induction s) auto

lemma match_anchored: "match_string (Then Begin r) s \<longleftrightarrow> ends r (True, s) \<noteq> []"
  by (cases s) (auto simp: match_string_def match_from_False_Begin)

lemma ends_Then_nonempty: "ends (Then r q) x \<noteq> [] \<longleftrightarrow> (\<exists>y\<in>set (ends r x). ends q y \<noteq> [])"
  by auto

lemma ends_End: "ends (Then r End) x \<noteq> [] \<longleftrightarrow> (\<exists>y\<in>set (ends r x). snd y = [])"
  unfolding ends_Then_nonempty by simp

lemma match_or: "match_from (Or a b) f s \<longleftrightarrow> match_from a f s \<or> match_from b f s"
  by (induction a f s rule: match_from.induct) auto

text \<open>Iterating a class: any number of its characters may be consumed.\<close>

lemma ends_many_class:
  "snd ` set (ends (Many (Class p)) (b, s)) = {t. \<exists>u. s = u @ t \<and> list_all p u}"
proof (induction s arbitrary: b)
  case Nil
  then show ?case by simp
next
  case (Cons c s)
  have *: "snd ` set (ends (Many (Class p)) (b, c # s)) =
      insert (c # s) (if p c then snd ` set (ends (Many (Class p)) (False, s)) else {})"
    by simp
  have "{t. \<exists>u. c # s = u @ t \<and> list_all p u} =
      insert (c # s) (if p c then {t. \<exists>u. s = u @ t \<and> list_all p u} else {})"
    by (auto simp: Cons_eq_append_conv)
  then show ?case
    unfolding * Cons.IH by simp
qed

lemma ends_plus_class:
  "snd ` set (ends (Plus (Class p)) (b, s)) =
     {t. \<exists>u. u \<noteq> [] \<and> s = u @ t \<and> list_all p u}"
proof (cases s)
  case (Cons c s')
  have "snd ` set (ends (Plus (Class p)) (b, c # s')) =
      (if p c then snd ` set (ends (Many (Class p)) (False, s')) else {})"
    by (simp add: Plus_def)
  then show ?thesis
    unfolding Cons ends_many_class
    by (auto simp: Cons_eq_append_conv)
qed (simp add: Plus_def)

lemma accepts_plus_class:
  "(\<exists>y\<in>set (ends (Plus (Class p)) (b, s)). snd y = []) \<longleftrightarrow> s \<noteq> [] \<and> list_all p s"
proof -
  have "(\<exists>y\<in>set (ends (Plus (Class p)) (b, s)). snd y = []) \<longleftrightarrow>
      [] \<in> snd ` set (ends (Plus (Class p)) (b, s))" by force
  then show ?thesis unfolding ends_plus_class by auto
qed

lemma match_whole_plus_class:
  "match_string (Then Begin (Then (Plus (Class p)) End)) s \<longleftrightarrow> s \<noteq> [] \<and> list_all p s"
  unfolding match_anchored ends_End by (rule accepts_plus_class)

text \<open>An unanchored run up to the end of the text: the last character decides.\<close>

lemma match_word_end:
  "match_from (Then (Plus (Class p)) End) b s \<longleftrightarrow> s \<noteq> [] \<and> p (last s)"
proof (induction s arbitrary: b)
  case Nil
  then show ?case by (simp add: Plus_def)
next
  case (Cons c s)
  have "ends (Then (Plus (Class p)) End) (b, c # s) \<noteq> [] \<longleftrightarrow> list_all p (c # s)"
    unfolding ends_End accepts_plus_class by simp
  moreover have "list_all p (c # s) \<Longrightarrow> p (last (c # s))"
    by (metis last_in_set list.discI list_all_iff)
  ultimately show ?case
    using Cons.IH[of False] by (cases "s = []") (simp_all del: ends.simps, blast)
qed

end
