(* ===== verification/Userdata.thy ===== *)
theory Userdata
  imports Args Go_Regexp "HOL-Library.AList"
begin

text \<open>
  \<^verbatim>\<open>internal/userdata/userdata.go\<close>: who the container is run for, and the part of
  the environment that is passed on. The user database (\<^verbatim>\<open>os/user\<close>, \<^verbatim>\<open>getent\<close>) is
  the parameter \<open>userdb\<close>. The environment map is an association list in the
  order in which Go happens to iterate over it.
\<close>

record user =
  Username :: string
  Uid :: string
  Gid :: string
  HomeDir :: string

record group =
  g_Name :: string
  g_Gid :: string

record Userdata =
  User :: user
  Shell :: string
  Groups :: "group list"
  Environ :: "(string \<times> string) list"

record userdb =
  exec_Output :: "string list \<Rightarrow> err + string"
  GroupIds :: "user \<Rightarrow> err + string list"
  LookupGroupId :: "string \<Rightarrow> err + group"
  LookupId :: "string \<Rightarrow> err + user"
  CurrentUser :: "err + user"

section \<open>Environment\<close>

definition whitelistedEnvNames :: "string list" where
  "whitelistedEnvNames =
     [''COLORTERM'', ''DBUS_SESSION_BUS_ADDRESS'', ''DBUS_SYSTEM_BUS_ADDRESS'', ''DESKTOP_SESSION'',
      ''DISPLAY'', ''GDK_SCALE'', ''GDK_DPI_SCALE'', ''LANG'', ''SHELL'', ''SSH_AUTH_SOCK'', ''TERM'',
      ''VTE_VERSION'', ''WAYLAND_DISPLAY'', ''XDG_CURRENT_DESKTOP'', ''XDG_DATA_DIRS'',
      ''XDG_MENU_PREFIX'', ''XDG_RUNTIME_DIR'', ''XDG_SEAT'', ''XDG_SESSION_DESKTOP'',
      ''XDG_SESSION_ID'', ''XDG_SESSION_TYPE'', ''XDG_VTNR'']"

definition IsWhitelisted :: "string \<Rightarrow> bool" where
  "IsWhitelisted name \<longleftrightarrow> name \<in> set whitelistedEnvNames"

text \<open>\<^verbatim>\<open>parts[1]\<close> is out of range when there is no equals sign.\<close>

definition SplitEnv :: "string \<Rightarrow> (string \<times> string) res" where
  "SplitEnv env = (case split_n2 CHR ''='' env of
      [name, value] \<Rightarrow> Ok (name, value)
    | _ \<Rightarrow> Abort (Panic ''index out of range''))"

fun WhitelistedEnviron :: "string list \<Rightarrow> string list res" where
  "WhitelistedEnviron [] = Ok []"
| "WhitelistedEnviron (env # envs) =
     bind_res (SplitEnv env) (\<lambda>(name, _).
     bind_res (WhitelistedEnviron envs) (\<lambda>result.
     Ok (if IsWhitelisted name then env # result else result)))"

fun add_environ :: "(string \<times> string) list \<Rightarrow> string list \<Rightarrow> (string \<times> string) list res" where
  "add_environ result [] = Ok result"
| "add_environ result (env # envs) =
     (case split_n2 CHR ''='' env of
        [name, value] \<Rightarrow> add_environ (AList.update name value result) envs
      | _ \<Rightarrow> Abort (Panic (''unexpected environ value: '' @ env)))"

definition parseEnviron :: "string list \<Rightarrow> (string \<times> string) list res" where
  "parseEnviron envs = bind_res (WhitelistedEnviron envs) (add_environ [])"

text \<open>\<^verbatim>\<open>os.Getenv\<close>: the first entry for the name, the empty string if there is none.\<close>

fun getenv :: "string list \<Rightarrow> string \<Rightarrow> string" where
  "getenv [] name = ''''"
| "getenv (env # envs) name =
     (case split_n2 CHR ''='' env of
        [n, v] \<Rightarrow> if n = name then v else getenv envs name
      | _ \<Rightarrow> getenv envs name)"

section \<open>Users\<close>

definition getent :: "userdb \<Rightarrow> string \<Rightarrow> user \<Rightarrow> err + string" where
  "getent db name usr = (case exec_Output db [''getent'', name, Username usr] of
      Inl e \<Rightarrow> Inl (Wrapped (''failed to call getent for '' @ name @ '' database'') e)
    | Inr out \<Rightarrow> Inr out)"

definition getUserShell :: "userdb \<Rightarrow> user \<Rightarrow> string res" where
  "getUserShell db usr =
     bind_res (wrap_res ''failed to ask getent for shell'' (of_sum (getent db ''passwd'' usr))) (\<lambda>out.
     case last_index_of CHR '':'' out of
       None \<Rightarrow> Err (Msg ''failed to split getent output'')
     | Some idx \<Rightarrow>
         if idx = length out - 1 then Err (Msg ''failed to split getent output'')
         else Ok (trim_space (drop (idx + 1) out)))"

definition userdataForUser :: "userdb \<Rightarrow> string list \<Rightarrow> user \<Rightarrow> Userdata res" where
  "userdataForUser db env usr =
     bind_res (getUserShell db usr) (\<lambda>shell.
     bind_res (of_sum (GroupIds db usr)) (\<lambda>gids.
     bind_res (map_res (\<lambda>gid. of_sum (LookupGroupId db gid)) gids) (\<lambda>groups.
     bind_res (parseEnviron env) (\<lambda>environ.
     Ok \<lparr>User = usr, Shell = shell, Groups = groups, Environ = environ\<rparr>))))"

definition Current :: "userdb \<Rightarrow> string list \<Rightarrow> Userdata res" where
  "Current db env = bind_res (of_sum (CurrentUser db)) (userdataForUser db env)"

definition calling_uid :: "bool \<Rightarrow> string list \<Rightarrow> string" where
  "calling_uid EnableSudo env =
     (let vars = [''PKEXEC_UID''] @ (if EnableSudo then [''SUDO_UID''] else []);
          uid = (case filter (\<lambda>v. getenv env v \<noteq> '''') vars of
                   [] \<Rightarrow> ''''
                 | v # _ \<Rightarrow> getenv env v)
      in if uid = '''' then ''0'' else uid)"

definition BeneathSudo :: "bool \<Rightarrow> userdb \<Rightarrow> int \<Rightarrow> string list \<Rightarrow> Userdata res" where
  "BeneathSudo EnableSudo db getuid env =
     (if getuid \<noteq> 0 then Abort (Panic ''BeneathSudo run as non-root'')
      else bind_res (of_sum (LookupId db (calling_uid EnableSudo env))) (userdataForUser db env))"

definition ShadowLine :: "userdb \<Rightarrow> Userdata \<Rightarrow> string res" where
  "ShadowLine db usrdata =
     bind_res (wrap_res ''getent'' (of_sum (getent db ''shadow'' (User usrdata)))) (\<lambda>out.
     let out = trim_space out in
     if length out = 0 then Err (Msg ''shadow entry missing'') else Ok out)"

text \<open>\<^verbatim>\<open>for _, r := range s\<close>: the code points of a UTF-8 string, U+FFFD for a bad byte.\<close>

definition cont_byte :: "nat \<Rightarrow> bool" where
  "cont_byte b \<longleftrightarrow> 128 \<le> b \<and> b < 192"

definition decode_rune :: "nat list \<Rightarrow> nat \<times> nat" where
  "decode_rune bs =
     (let a = bs ! 0; b = bs ! 1; c = bs ! 2; d = bs ! 3;
          r2 = (a - 192) * 64 + (b - 128);
          r3 = (a - 224) * 4096 + (b - 128) * 64 + (c - 128);
          r4 = (a - 240) * 262144 + (b - 128) * 4096 + (c - 128) * 64 + (d - 128)
      in if a < 128 then (a, 1)
         else if 194 \<le> a \<and> a < 224 \<and> 2 \<le> length bs \<and> cont_byte b then (r2, 2)
         else if 224 \<le> a \<and> a < 240 \<and> 3 \<le> length bs \<and> cont_byte b \<and> cont_byte c \<and>
                 2048 \<le> r3 \<and> \<not> (55296 \<le> r3 \<and> r3 < 57344) then (r3, 3)
         else if 240 \<le> a \<and> a < 245 \<and> 4 \<le> length bs \<and> cont_byte b \<and> cont_byte c \<and> cont_byte d \<and>
                 65536 \<le> r4 \<and> r4 < 1114112 then (r4, 4)
         else (65533, 1))"

function runes :: "nat list \<Rightarrow> nat list" where
  "runes [] = []"
| "runes (a # bs) = (case decode_rune (a # bs) of (r, n) \<Rightarrow> r # runes (drop (n - 1) bs))"
  by pat_completeness auto
termination
  by (relation "measure length") auto

text \<open>\<^verbatim>\<open>%x\<close> of a code point\<close>

definition hex_digit :: "nat \<Rightarrow> char" where
  "hex_digit n = char_of (if n < 10 then 48 + n else 87 + n)"

fun show_hex :: "nat \<Rightarrow> string" where
  "show_hex n = (if n < 16 then [hex_digit n] else show_hex (n div 16) @ [hex_digit (n mod 16)])"

declare show_hex.simps [simp del]

definition escape_rune :: "nat \<Rightarrow> string" where
  "escape_rune r = (if r < 128 \<and> alnum (char_of r) then [char_of r] else CHR 0x5C # CHR ''x'' # show_hex r)"

definition EscapedUsername :: "Userdata \<Rightarrow> string" where
  "EscapedUsername usrdata =
     concat (map escape_rune (runes (map of_char (Username (User usrdata)))))"

definition numeric_id :: "string \<Rightarrow> string \<Rightarrow> int res" where
  "numeric_id what value = (case parse_int 32 value of
      None \<Rightarrow> Abort (Panic (''failed to convert '' @ what @ '' ('' @ value @ '') to number''))
    | Some i \<Rightarrow> Ok i)"

definition NumericIds :: "Userdata \<Rightarrow> (int \<times> int) res" where
  "NumericIds usrdata =
     bind_res (numeric_id ''uid'' (Uid (User usrdata))) (\<lambda>uid.
     bind_res (numeric_id ''gid'' (Gid (User usrdata))) (\<lambda>gid.
     Ok (uid, gid)))"

section \<open>Facts\<close>

text \<open>What reaches the container's environment is whitelisted and keeps its value.\<close>

lemma SplitEnv_Ok: "SplitEnv env = Ok (n, v) \<Longrightarrow> env = n @ CHR ''='' # v \<and> CHR ''='' \<notin> set n"
  by (cases rule: split_n2_cases[of "CHR ''=''" env]) (auto simp: SplitEnv_def)

lemma SplitEnv_eq: "CHR ''='' \<notin> set n \<Longrightarrow> SplitEnv (n @ CHR ''='' # v) = Ok (n, v)"
  by (simp add: SplitEnv_def split_n2_append)

lemma SplitEnv_panics_iff: "SplitEnv env = Abort a \<longleftrightarrow> CHR ''='' \<notin> set env \<and> a = Panic ''index out of range''"
  by (cases rule: split_n2_cases[of "CHR ''=''" env]) (auto simp: SplitEnv_def)

definition env_ok :: "string \<Rightarrow> bool" where
  "env_ok env \<longleftrightarrow> (case SplitEnv env of Ok (n, v) \<Rightarrow> IsWhitelisted n | _ \<Rightarrow> False)"

lemma WhitelistedEnviron_ok:
  "WhitelistedEnviron envs = Ok res \<Longrightarrow> list_all env_ok res \<and> set res \<subseteq> set envs"
proof (induction envs arbitrary: res)
  case (Cons e envs)
  from Cons.prems obtain n v r where e: "SplitEnv e = Ok (n, v)" "WhitelistedEnviron envs = Ok r"
    "res = (if IsWhitelisted n then e # r else r)"
    by (auto simp: bind_res_Ok)
  with Cons.IH[OF e(2)] show ?case
    by (auto simp: env_ok_def)
qed simp

lemma WhitelistedEnviron_filter:
  "list_all (\<lambda>e. CHR ''='' \<in> set e) envs \<Longrightarrow> WhitelistedEnviron envs = Ok (filter env_ok envs)"
proof (induction envs)
  case (Cons e envs)
  then obtain n v where e: "SplitEnv e = Ok (n, v)"
    by (cases rule: split_n2_cases[of "CHR ''=''" e]) (auto simp: SplitEnv_def)
  then show ?case using Cons by (auto simp: env_ok_def)
qed simp

lemma add_environ_keys:
  "add_environ acc envs = Ok res \<Longrightarrow> list_all env_ok envs \<Longrightarrow>
     \<forall>n\<in>fst ` set acc. IsWhitelisted n \<Longrightarrow> \<forall>n\<in>fst ` set res. IsWhitelisted n"
proof (induction envs arbitrary: acc)
  case (Cons e envs)
  from Cons.prems(2) obtain n v where e: "SplitEnv e = Ok (n, v)" "IsWhitelisted n"
    by (auto simp: env_ok_def split: res.splits prod.splits)
  then have "add_environ (AList.update n v acc) envs = Ok res"
    using Cons.prems(1) by (auto simp: SplitEnv_def split: list.splits)
  moreover have "list_all env_ok envs" using Cons.prems(2) by simp
  moreover have "\<forall>x\<in>fst ` set (AList.update n v acc). IsWhitelisted x"
    using Cons.prems(3) e(2)
    by (auto simp: update_conv dom_def simp flip: dom_map_of_conv_image_fst split: if_splits)
  ultimately show ?case by (rule Cons.IH)
qed simp

text \<open>Each name gets the value of its last entry.\<close>

lemma add_environ_map:
  "map_res SplitEnv envs = Ok ps \<Longrightarrow> add_environ acc envs = Ok res \<Longrightarrow>
     map_of res = map_of acc ++ map_of (rev ps)"
proof (induction envs arbitrary: acc ps)
  case (Cons e envs)
  from Cons.prems(1) obtain n v qs where e: "SplitEnv e = Ok (n, v)" "map_res SplitEnv envs = Ok qs"
    "ps = (n, v) # qs"
    by (auto simp: bind_res_Ok)
  then have "add_environ (AList.update n v acc) envs = Ok res"
    using Cons.prems(2) by (auto simp: SplitEnv_def split: list.splits)
  from Cons.IH[OF e(2) this] e(3) show ?case
    by (auto simp: fun_eq_iff map_add_def update_conv split: option.splits)
qed simp

end
