(* ===== verification/Sudo_Access.thy ===== *)
theory Sudo_Access
  imports Userdata
begin

text \<open>
  \<^verbatim>\<open>internal/userdata/check_privs.go\<close>: may the user use sudo inside the container,
  and without a password? Decided from the JSON dump of the host's sudoers file
  or from group membership. The program \<^verbatim>\<open>cvtsudoers\<close> and the decoding of its
  output into the Go structs are the parameter \<open>sudo_tools\<close>; an absent numeric
  field is zero, as \<^verbatim>\<open>encoding/json\<close> leaves it.
\<close>

record cvtsudoersUser =
  cu_Username :: string
  cu_Userid :: nat
  cu_Usergroup :: string
  cu_Usergid :: nat

text \<open>An option object: \<^verbatim>\<open>map[string]interface{}\<close>.\<close>

type_synonym cvtsudoersOption = "(string \<times> json) list"

record cvtsudoersCommandSpec =
  Commands :: "string list"
  Options :: "cvtsudoersOption list"

record cvtsudoersUserSpec =
  UserList :: "cvtsudoersUser list"
  CommandSpecs :: "cvtsudoersCommandSpec list"

record sudo_tools =
  cvtsudoers_LookPath :: "err + string"
  cvtsudoers_Output :: "err + string"
  cvtsudoers_Unmarshal :: "string \<Rightarrow> err + cvtsudoersUserSpec list"

datatype SudoAccess = NoSudo | CanSudo | CanSudoNoPasswd

text \<open>The options of one command spec: \<^verbatim>\<open>v.(bool)\<close> panics on any other type.\<close>

fun scan_options :: "bool \<Rightarrow> cvtsudoersOption list \<Rightarrow> bool res" where
  "scan_options authenticated [] = Ok authenticated"
| "scan_options authenticated (opt # opts) =
     (case map_of opt ''authenticate'' of
        None \<Rightarrow> scan_options authenticated opts
      | Some (JBool b) \<Rightarrow> scan_options b opts
      | Some _ \<Rightarrow> Abort (Panic ''interface conversion''))"

fun scan_commands :: "bool \<Rightarrow> bool \<Rightarrow> cvtsudoersCommandSpec list \<Rightarrow> (bool \<times> bool) res" where
  "scan_commands canRunAny authenticated [] = Ok (canRunAny, authenticated)"
| "scan_commands canRunAny authenticated (spec # specs) =
     bind_res (scan_options authenticated (Options spec)) (\<lambda>auth.
     scan_commands (canRunAny \<or> list_ex (\<lambda>c. c = ''ALL'') (Commands spec)) auth specs)"

definition user_matches :: "Userdata \<Rightarrow> cvtsudoersUser \<Rightarrow> bool" where
  "user_matches usrdata u \<longleftrightarrow>
     cu_Username u = Username (User usrdata) \<or> show_nat (cu_Userid u) = Uid (User usrdata)"

definition group_matches :: "Userdata \<Rightarrow> cvtsudoersUser \<Rightarrow> bool" where
  "group_matches usrdata u \<longleftrightarrow>
     list_ex (\<lambda>g. cu_Usergroup u = g_Name g \<or> show_nat (cu_Usergid u) = g_Gid g) (Groups usrdata)"

fun userSpecSearch :: "Userdata \<Rightarrow> cvtsudoersUser list \<Rightarrow> bool" where
  "userSpecSearch usrdata [] = False"
| "userSpecSearch usrdata (u # us) =
     (if user_matches usrdata u then True
      else if group_matches usrdata u then True
      else userSpecSearch usrdata us)"

fun scan_userSpecs :: "Userdata \<Rightarrow> SudoAccess \<Rightarrow> cvtsudoersUserSpec list \<Rightarrow> SudoAccess res" where
  "scan_userSpecs usrdata sudoAccess [] = Ok sudoAccess"
| "scan_userSpecs usrdata sudoAccess (spec # specs) =
     bind_res (scan_commands False True (CommandSpecs spec)) (\<lambda>(canRunAny, authenticated).
     if \<not> canRunAny then scan_userSpecs usrdata sudoAccess specs
     else if userSpecSearch usrdata (UserList spec)
     then scan_userSpecs usrdata (if authenticated then CanSudo else CanSudoNoPasswd) specs
     else scan_userSpecs usrdata sudoAccess specs)"

definition checkSudoAccessViaCvtsudoers :: "sudo_tools \<Rightarrow> Userdata \<Rightarrow> SudoAccess res" where
  "checkSudoAccessViaCvtsudoers tools usrdata =
     (case cvtsudoers_LookPath tools of
        Inl _ \<Rightarrow> Ok NoSudo
      | Inr _ \<Rightarrow>
          bind_res (wrap_res ''cvtsudoers'' (of_sum (cvtsudoers_Output tools))) (\<lambda>out.
          bind_res (wrap_res ''failed to parse cvtsudoers output''
                      (of_sum (cvtsudoers_Unmarshal tools out))) (\<lambda>specs.
          scan_userSpecs usrdata NoSudo specs)))"

text \<open>Group identifiers that cannot be looked up are skipped with an alert.\<close>

definition checkSudoAccessViaGroupName :: "userdb \<Rightarrow> string \<Rightarrow> Userdata \<Rightarrow> SudoAccess res" where
  "checkSudoAccessViaGroupName db SudoGroup usrdata =
     bind_res (wrap_res ''getting user's group IDs'' (of_sum (GroupIds db (User usrdata)))) (\<lambda>gids.
     Ok (if list_ex (\<lambda>gid. case LookupGroupId db gid of
                         Inl _ \<Rightarrow> False
                       | Inr g \<Rightarrow> g_Name g = SudoGroup) gids
         then CanSudo else NoSudo))"

definition GetSudoAccess ::
  "bool \<Rightarrow> string \<Rightarrow> userdb \<Rightarrow> sudo_tools \<Rightarrow> Userdata \<Rightarrow> SudoAccess res" where
  "GetSudoAccess EnableCvtsudoers SudoGroup db tools usrdata =
     (case (if EnableCvtsudoers then checkSudoAccessViaCvtsudoers tools usrdata
            else checkSudoAccessViaGroupName db SudoGroup usrdata) of
        Err _ \<Rightarrow> Ok NoSudo
      | r \<Rightarrow> r)"

section \<open>Facts\<close>

text \<open>A user specification grants access when it lets a matching user run any command.\<close>

definition runs_all :: "cvtsudoersUserSpec \<Rightarrow> bool" where
  "runs_all spec \<longleftrightarrow> list_ex (\<lambda>c. list_ex (\<lambda>x. x = ''ALL'') (Commands c)) (CommandSpecs spec)"

definition grants :: "Userdata \<Rightarrow> cvtsudoersUserSpec \<Rightarrow> bool" where
  "grants usrdata spec \<longleftrightarrow> runs_all spec \<and>
     list_ex (\<lambda>u. user_matches usrdata u \<or> group_matches usrdata u) (UserList spec)"

lemma userSpecSearch_iff:
  "userSpecSearch usrdata us = list_ex (\<lambda>u. user_matches usrdata u \<or> group_matches usrdata u) us"
  by (induction us) auto

lemma scan_commands_any:
  "scan_commands a b specs = Ok (any, auth) \<Longrightarrow>
     any = (a \<or> list_ex (\<lambda>c. list_ex (\<lambda>x. x = ''ALL'') (Commands c)) specs)"
  by (induction specs arbitrary: a b) (auto simp: bind_res_Ok)

text \<open>The last granting specification decides.\<close>

lemma scan_userSpecs_last:
  "scan_userSpecs usrdata acc specs = Ok access \<Longrightarrow>
     (case find (grants usrdata) (rev specs) of
        None \<Rightarrow> access = acc
      | Some spec \<Rightarrow> \<exists>auth. scan_commands False True (CommandSpecs spec) = Ok (True, auth) \<and>
          access = (if auth then CanSudo else CanSudoNoPasswd))"
proof (induction specs arbitrary: acc)
  case (Cons spec specs)
  from Cons.prems obtain any auth where
    c: "scan_commands False True (CommandSpecs spec) = Ok (any, auth)"
    by (auto simp: bind_res_Ok)
  then have any: "any = runs_all spec"
    by (auto simp: runs_all_def dest: scan_commands_any)
  have "scan_userSpecs usrdata
       (if grants usrdata spec then (if auth then CanSudo else CanSudoNoPasswd) else acc) specs = Ok access"
    using Cons.prems by (auto simp: c any grants_def userSpecSearch_iff split: if_splits)
  note IH = Cons.IH[OF this]
  have rs: "grants usrdata spec \<Longrightarrow> runs_all spec" by (simp add: grants_def)
  show ?case
  proof (cases "find (grants usrdata) (rev specs)")
    case None
    then have access: "access =
        (if grants usrdata spec then (if auth then CanSudo else CanSudoNoPasswd) else acc)"
      using IH by simp
    show ?thesis
    proof (cases "grants usrdata spec")
      case True
      then have "scan_commands False True (CommandSpecs spec) = Ok (True, auth)"
        using c any rs by simp
      then show ?thesis using None True access by (simp add: find_append)
    next
      case False
      then show ?thesis using None access by (simp add: find_append)
    qed
  next
    case (Some s)
    then show ?thesis using IH by (simp add: find_append)
  qed
qed simp

end
