(* ===== verification/Paths.thy ===== *)
theory Paths
  imports Userdata File_Laws
begin

text \<open>
  \<^verbatim>\<open>internal/paths/paths.go\<close>: where things are. The build-time constants of the
  generated \<^verbatim>\<open>internal/config\<close> package are the record \<open>build\<close>; the path of the
  running executable, as \<^verbatim>\<open>GetExecutablePath\<close> reports it, is a parameter.
\<close>

record build =
  BinDir :: string
  ConfigDir :: string
  LibexecDir :: string
  ShareDir :: string
  StateDir :: string
  ProductName :: string
  EnableSudo :: bool
  EnableCvtsudoers :: bool
  SudoGroup :: string

definition InContainerPrivPath :: string where
  "InContainerPrivPath = ''/var/lib/.nsbox-priv''"

definition HostServiceSocketName :: string where
  "HostServiceSocketName = ''host-service.sock''"

definition PtyServiceSocketName :: string where
  "PtyServiceSocketName = ''pty-service.sock''"

definition StorageRoot :: "build \<Rightarrow> string" where
  "StorageRoot b = StateDir b @ ''/nsbox''"

definition ContainerDefault :: "build \<Rightarrow> Userdata \<Rightarrow> string" where
  "ContainerDefault b usrdata = path_join [StorageRoot b, Username (User usrdata), ''default'']"

definition ContainerInventory :: "build \<Rightarrow> Userdata \<Rightarrow> string" where
  "ContainerInventory b usrdata = path_join [StorageRoot b, Username (User usrdata), ''inventory'']"

definition ContainerData :: "build \<Rightarrow> Userdata \<Rightarrow> string \<Rightarrow> string" where
  "ContainerData b usrdata name = path_join [ContainerInventory b usrdata, name]"

text \<open>The executable of the running program: \<open>self\<close> is \<^verbatim>\<open>GetExecutablePath()\<close>.\<close>

definition install_root_parts :: "string \<Rightarrow> string list \<Rightarrow> string list" where
  "install_root_parts self subpaths =
     [path_dir self, ''..''] @
     (if has_suffix self ''nsboxd'' \<or> has_suffix self ''nsbox-invoker'' then [''..''] else []) @
     subpaths"

definition getPathRelativeToInstallRoot :: "(err + string) \<Rightarrow> string list \<Rightarrow> string io" where
  "getPathRelativeToInstallRoot exe subpaths =
     seq (lift_res (of_sum exe)) (\<lambda>self.
     let path = clean (path_join (install_root_parts self subpaths)) in
     seq (os_Stat path) (\<lambda>_. ret path))"

definition GetSystemImagesDir :: "build \<Rightarrow> (err + string) \<Rightarrow> string io" where
  "GetSystemImagesDir b exe = getPathRelativeToInstallRoot exe [ShareDir b, ProductName b, ''images'']"

definition GetSystemImageDir :: "build \<Rightarrow> (err + string) \<Rightarrow> string \<Rightarrow> string io" where
  "GetSystemImageDir b exe name =
     seq (GetSystemImagesDir b exe) (\<lambda>systemImages. ret (path_join [systemImages, name]))"

definition GetCustomImagesDir :: "build \<Rightarrow> string" where
  "GetCustomImagesDir b = path_join [ConfigDir b, ''nsbox'', ''images'']"

definition GetCustomImageDir :: "build \<Rightarrow> string \<Rightarrow> string" where
  "GetCustomImageDir b name = path_join [GetCustomImagesDir b, name]"

definition GetReleaseDataDir :: "build \<Rightarrow> (err + string) \<Rightarrow> string io" where
  "GetReleaseDataDir b exe = getPathRelativeToInstallRoot exe [ShareDir b, ProductName b, ''release'']"

definition GetDataDir :: "build \<Rightarrow> (err + string) \<Rightarrow> string io" where
  "GetDataDir b exe = getPathRelativeToInstallRoot exe [ShareDir b, ProductName b, ''data'']"

definition GetMainExecutable :: "build \<Rightarrow> (err + string) \<Rightarrow> string io" where
  "GetMainExecutable b exe = getPathRelativeToInstallRoot exe [BinDir b, ProductName b]"

definition GetPrivateExecutable :: "build \<Rightarrow> (err + string) \<Rightarrow> string \<Rightarrow> string io" where
  "GetPrivateExecutable b exe name = getPathRelativeToInstallRoot exe [LibexecDir b, ProductName b, name]"

section \<open>Locations of a user's containers\<close>

text \<open>A build whose state directory is absolute, and a user name that is one path component.\<close>

definition layout_ok :: "build \<Rightarrow> Userdata \<Rightarrow> bool" where
  "layout_ok b usrdata \<longleftrightarrow> rooted (StateDir b) \<and> plain (Username (User usrdata))"

definition user_loc :: "build \<Rightarrow> Userdata \<Rightarrow> loc" where
  "user_loc b usrdata = path_parts (StateDir b) @ [''nsbox'', Username (User usrdata)]"

lemma plain_consts [simp]:
  "plain ''default''" "plain ''inventory''" "plain ''nsbox''" "plain ''storage''"
  "plain ''config.json''" "plain ''config.json.tmp''" "plain ''default.tmp''"
  by (auto simp: plain_def)

lemma path_parts_StorageRoot:
  assumes "rooted (StateDir b)"
  shows "path_parts (StorageRoot b) = path_parts (StateDir b) @ [''nsbox'']"
proof -
  have "split_on CHR ''/'' (StateDir b @ CHR ''/'' # ''nsbox'') =
      split_on CHR ''/'' (StateDir b) @ [''nsbox'']"
    by (simp only: split_on_append) simp
  moreover have "rooted (StateDir b @ ''/nsbox'')"
    using assms by (cases "StateDir b") (auto simp: rooted_def)
  ultimately show ?thesis
    using assms by (simp add: path_parts_def StorageRoot_def clean_parts_append_plain)
qed

lemma rooted_StorageRoot: "rooted (StateDir b) \<Longrightarrow> rooted (StorageRoot b)"
  by (cases "StateDir b") (auto simp: rooted_def StorageRoot_def)

lemma user_loc_plain [simp]: "layout_ok b u \<Longrightarrow> list_all plain (user_loc b u)"
  by (simp add: layout_ok_def user_loc_def path_parts_plain)

lemma ContainerDefault_eq: "layout_ok b u \<Longrightarrow> ContainerDefault b u = path_of (user_loc b u @ [''default''])"
  by (simp add: ContainerDefault_def layout_ok_def path_join_rooted rooted_StorageRoot
      path_parts_StorageRoot user_loc_def)

lemma ContainerInventory_eq:
  "layout_ok b u \<Longrightarrow> ContainerInventory b u = path_of (user_loc b u @ [''inventory''])"
  by (simp add: ContainerInventory_def layout_ok_def path_join_rooted rooted_StorageRoot
      path_parts_StorageRoot user_loc_def)

lemma ContainerData_eq:
  "layout_ok b u \<Longrightarrow> plain name \<Longrightarrow>
     ContainerData b u name = path_of (user_loc b u @ [''inventory'', name])"
  by (simp add: ContainerData_def ContainerInventory_eq)

end
