(* ===== verification/Container.thy ===== *)
theory Container
  imports Sudo_Access Paths
begin

text \<open>
  \<^verbatim>\<open>internal/container/container.go\<close>, first part: the container's configuration,
  its JSON form, the checks a configuration has to pass, and the paths inside a
  container. Nil and empty slices are both the empty list.
\<close>

section \<open>Authentication mode\<close>

datatype Auth = AuthAuto | AuthManual

fun auth_String :: "Auth \<Rightarrow> string" where
  "auth_String AuthAuto = ''auto''"
| "auth_String AuthManual = ''manual''"

definition stringToAuth :: "string \<Rightarrow> Auth option" where
  "stringToAuth s = (if s = ''auto'' then Some AuthAuto
                     else if s = ''manual'' then Some AuthManual else None)"

definition auth_Set :: "string \<Rightarrow> (Auth, unit) call" where
  "auth_Set value auth = (case stringToAuth (to_lower value) of
      None \<Rightarrow> (Err (Msg ''invalid auth value''), auth)
    | Some newAuth \<Rightarrow> (Ok (), newAuth))"

interpretation auth: flag_value auth_String auth_Set AuthAuto "\<lambda>_. True"
proof unfold_locales
  show "auth_Set (auth_String v) AuthAuto = (Ok (), v)" for v
    by (cases v) (simp_all add: auth_Set_def stringToAuth_def to_lower_def lower_char_def)
qed simp_all

section \<open>Configuration\<close>

record Config =
  Image :: string
  Boot :: bool
  Auth :: Auth
  XdgDesktopExports :: "string list"
  XdgDesktopExtra :: "string list"
  ExtraCapabilities :: "string list"
  SyscallFilters :: "string list"
  ExtraBindMounts :: "string list"
  PrivateDirs :: "string list"
  ShareCgroupfs :: bool
  ShareDevices :: "string list"
  VirtualNetwork :: bool

record Container =
  Name :: string
  Path :: string
  Cfg :: Config

definition zero_config :: Config where
  "zero_config = \<lparr>Image = '''', Boot = False, Auth = AuthAuto, XdgDesktopExports = [],
     XdgDesktopExtra = [], ExtraCapabilities = [], SyscallFilters = [], ExtraBindMounts = [],
     PrivateDirs = [], ShareCgroupfs = False, ShareDevices = [], VirtualNetwork = False\<rparr>"

text \<open>\<^verbatim>\<open>encoder.Encode(config)\<close>; \<^verbatim>\<open>Auth\<close> has its own marshaller.\<close>

definition json_strings :: "string list \<Rightarrow> json" where
  "json_strings xs = (if xs = [] then JNull else JArr (map JStr xs))"

definition encode_config :: "Config \<Rightarrow> json" where
  "encode_config c = JObj
     [(''Image'', JStr (Image c)),
      (''Boot'', JBool (Boot c)),
      (''Auth'', JStr (auth_String (Auth c))),
      (''XdgDesktopExports'', json_strings (XdgDesktopExports c)),
      (''XdgDesktopExtra'', json_strings (XdgDesktopExtra c)),
      (''ExtraCapabilities'', json_strings (ExtraCapabilities c)),
      (''SyscallFilters'', json_strings (SyscallFilters c)),
      (''ExtraBindMounts'', json_strings (ExtraBindMounts c)),
      (''PrivateDirs'', json_strings (PrivateDirs c)),
      (''ShareCgroupfs'', JBool (ShareCgroupfs c)),
      (''ShareDevices'', json_strings (ShareDevices c)),
      (''VirtualNetwork'', JBool (VirtualNetwork c))]"

text \<open>
  \<^verbatim>\<open>decoder.Decode(&config)\<close>: keys match without regard to case, unknown keys are
  ignored, null leaves a field alone, a value of the wrong type is an error.
\<close>

definition type_error :: "err + 'a" where
  "type_error = Inl (Msg ''json: cannot unmarshal'')"

fun decode_string_items :: "json list \<Rightarrow> err + string list" where
  "decode_string_items [] = Inr []"
| "decode_string_items (j # js) =
     (case (case j of JStr s \<Rightarrow> Some s | JNull \<Rightarrow> Some '''' | _ \<Rightarrow> None) of
        None \<Rightarrow> type_error
      | Some s \<Rightarrow> (case decode_string_items js of Inl e \<Rightarrow> Inl e | Inr ss \<Rightarrow> Inr (s # ss)))"

definition decode_strings :: "json \<Rightarrow> string list \<Rightarrow> err + string list" where
  "decode_strings j old = (case j of
      JNull \<Rightarrow> Inr []
    | JArr js \<Rightarrow> decode_string_items js
    | _ \<Rightarrow> type_error)"

definition decode_bool :: "json \<Rightarrow> bool \<Rightarrow> err + bool" where
  "decode_bool j old = (case j of JBool b \<Rightarrow> Inr b | JNull \<Rightarrow> Inr old | _ \<Rightarrow> type_error)"

definition decode_str :: "json \<Rightarrow> string \<Rightarrow> err + string" where
  "decode_str j old = (case j of JStr s \<Rightarrow> Inr s | JNull \<Rightarrow> Inr old | _ \<Rightarrow> type_error)"

definition decode_auth :: "json \<Rightarrow> Auth \<Rightarrow> err + Auth" where
  "decode_auth j old =
     (case decode_str j '''' of
        Inl e \<Rightarrow> Inl e
      | Inr value \<Rightarrow> (case auth_Set value old of
            (Ok _, a) \<Rightarrow> Inr a
          | (Err e, _) \<Rightarrow> Inl e
          | (Abort _, _) \<Rightarrow> type_error))"

definition upd_field :: "(Config \<Rightarrow> 'v) \<Rightarrow> ('v \<Rightarrow> Config \<Rightarrow> Config) \<Rightarrow>
    (json \<Rightarrow> 'v \<Rightarrow> err + 'v) \<Rightarrow> json \<Rightarrow> Config \<Rightarrow> err + Config" where
  "upd_field rd wr dec j c = (case dec j (rd c) of Inl e \<Rightarrow> Inl e | Inr v \<Rightarrow> Inr (wr v c))"

definition decode_field :: "string \<Rightarrow> json \<Rightarrow> Config \<Rightarrow> err + Config" where
  "decode_field key j c = (let k = to_lower key in
     if k = ''image'' then upd_field Image (\<lambda>v. Image_update (\<lambda>_. v)) decode_str j c
     else if k = ''boot'' then upd_field Boot (\<lambda>v. Boot_update (\<lambda>_. v)) decode_bool j c
     else if k = ''auth'' then upd_field Auth (\<lambda>v. Auth_update (\<lambda>_. v)) decode_auth j c
     else if k = ''xdgdesktopexports'' then
       upd_field XdgDesktopExports (\<lambda>v. XdgDesktopExports_update (\<lambda>_. v)) decode_strings j c
     else if k = ''xdgdesktopextra'' then
       upd_field XdgDesktopExtra (\<lambda>v. XdgDesktopExtra_update (\<lambda>_. v)) decode_strings j c
     else if k = ''extracapabilities'' then
       upd_field ExtraCapabilities (\<lambda>v. ExtraCapabilities_update (\<lambda>_. v)) decode_strings j c
     else if k = ''syscallfilters'' then
       upd_field SyscallFilters (\<lambda>v. SyscallFilters_update (\<lambda>_. v)) decode_strings j c
     else if k = ''extrabindmounts'' then
       upd_field ExtraBindMounts (\<lambda>v. ExtraBindMounts_update (\<lambda>_. v)) decode_strings j c
     else if k = ''privatedirs'' then
       upd_field PrivateDirs (\<lambda>v. PrivateDirs_update (\<lambda>_. v)) decode_strings j c
     else if k = ''sharecgroupfs'' then
       upd_field ShareCgroupfs (\<lambda>v. ShareCgroupfs_update (\<lambda>_. v)) decode_bool j c
     else if k = ''sharedevices'' then
       upd_field ShareDevices (\<lambda>v. ShareDevices_update (\<lambda>_. v)) decode_strings j c
     else if k = ''virtualnetwork'' then
       upd_field VirtualNetwork (\<lambda>v. VirtualNetwork_update (\<lambda>_. v)) decode_bool j c
     else Inr c)"

fun decode_fields :: "(string \<times> json) list \<Rightarrow> Config \<Rightarrow> err + Config" where
  "decode_fields [] c = Inr c"
| "decode_fields ((k, j) # kjs) c =
     (case decode_field k j c of Inl e \<Rightarrow> Inl e | Inr c' \<Rightarrow> decode_fields kjs c')"

definition decode_config :: "content \<Rightarrow> err + Config" where
  "decode_config data = (case data of
      Doc (JObj kjs) \<Rightarrow> decode_fields kjs zero_config
    | Doc JNull \<Rightarrow> Inr zero_config
    | Doc _ \<Rightarrow> type_error
    | Raw _ \<Rightarrow> Inl (Msg ''invalid character''))"

lemma decode_string_items_JStr [simp]: "decode_string_items (map JStr xs) = Inr xs"
  by (induction xs) auto

lemma decode_json_strings [simp]: "decode_strings (json_strings xs) old = Inr xs"
  by (simp add: decode_strings_def json_strings_def)

lemma decode_auth_String [simp]: "decode_auth (JStr (auth_String a)) AuthAuto = Inr a"
  using auth.set_str[of a] by (simp add: decode_auth_def decode_str_def)

lemma config_keys [simp]:
  "to_lower ''Image'' = ''image''" "to_lower ''Boot'' = ''boot''" "to_lower ''Auth'' = ''auth''"
  "to_lower ''XdgDesktopExports'' = ''xdgdesktopexports''"
  "to_lower ''XdgDesktopExtra'' = ''xdgdesktopextra''"
  "to_lower ''ExtraCapabilities'' = ''extracapabilities''"
  "to_lower ''SyscallFilters'' = ''syscallfilters''"
  "to_lower ''ExtraBindMounts'' = ''extrabindmounts''"
  "to_lower ''PrivateDirs'' = ''privatedirs''" "to_lower ''ShareCgroupfs'' = ''sharecgroupfs''"
  "to_lower ''ShareDevices'' = ''sharedevices''" "to_lower ''VirtualNetwork'' = ''virtualnetwork''"
  by code_simp+

lemma decode_Cons_ok:
  "decode_field k j c = Inr c' \<Longrightarrow> decode_fields ((k, j) # kjs) c = decode_fields kjs c'"
  by simp

text \<open>A configuration that is written is read back unchanged.\<close>

lemma decode_encode_config: "decode_config (Doc (encode_config c)) = Inr c"
  unfolding decode_config_def encode_config_def content.case json.case
  by (subst decode_Cons_ok,
      (simp add: decode_field_def upd_field_def decode_str_def decode_bool_def zero_config_def; fail))+
    simp

section \<open>Names and configuration checks\<close>

definition configJson :: string where "configJson = ''config.json''"

definition StageSuffix :: string where "StageSuffix = ''.stage''"

definition name_char :: "char \<Rightarrow> bool" where
  "name_char c \<longleftrightarrow> lower c \<or> upper c \<or> digit c \<or> c = CHR ''_'' \<or> c = CHR ''-''"

definition name_rx :: rx where
  "name_rx = Then Begin (Then (Plus (Class name_char)) End)"

definition validateName :: "string \<Rightarrow> err option" where
  "validateName name =
     (if match_string name_rx name then None
      else Some (Msg (''invalid container name: '' @ name)))"

fun checkArrayItemsAgainstRegex :: "string list \<Rightarrow> rx \<Rightarrow> string \<Rightarrow> err option" where
  "checkArrayItemsAgainstRegex [] regex errprefix = None"
| "checkArrayItemsAgainstRegex (item # items) regex errprefix =
     (if \<not> match_string regex item then Some (Msg (errprefix @ '': '' @ item))
      else checkArrayItemsAgainstRegex items regex errprefix)"

text \<open>\<^verbatim>\<open>^.+(:.+)?$\<close>\<close>

definition bind_mount_rx :: rx where
  "bind_mount_rx = Then Begin (Then (Plus (Class dot))
     (Then (Opt (Then (Class (\<lambda>c. c = CHR '':'')) (Plus (Class dot)))) End))"

text \<open>\<^verbatim>\<open>^@[a-z\-]+$|[a-z0-9_]+$\<close>: the anchor binds to the first alternative only.\<close>

definition group_char :: "char \<Rightarrow> bool" where
  "group_char c \<longleftrightarrow> lower c \<or> c = CHR ''-''"

definition syscall_char :: "char \<Rightarrow> bool" where
  "syscall_char c \<longleftrightarrow> lower c \<or> digit c \<or> c = CHR ''_''"

definition syscall_filter_rx :: rx where
  "syscall_filter_rx =
     Or (Then Begin (Then (Class (\<lambda>c. c = CHR ''@'')) (Then (Plus (Class group_char)) End)))
        (Then (Plus (Class syscall_char)) End)"

text \<open>\<^verbatim>\<open>^[^/]\<close>\<close>

definition relative_rx :: rx where
  "relative_rx = Then Begin (Class (\<lambda>c. c \<noteq> CHR ''/''))"

text \<open>\<^verbatim>\<open>^([^.]{2}|[^.]|\.([^.]|$))+$\<close>\<close>

definition no_dot :: "char \<Rightarrow> bool" where
  "no_dot c \<longleftrightarrow> c \<noteq> CHR ''.''"

definition no_dotdot_unit :: rx where
  "no_dotdot_unit = Or (Then (Class no_dot) (Class no_dot))
     (Or (Class no_dot) (Then (Class (\<lambda>c. c = CHR ''.'')) (Or (Class no_dot) End)))"

definition no_dotdot_rx :: rx where
  "no_dotdot_rx = Then Begin (Then (Plus no_dotdot_unit) End)"

fun check_devices :: "bool \<Rightarrow> string list \<Rightarrow> err option" where
  "check_devices boot [] = None"
| "check_devices boot (dev # devs) =
     (if dev = ''*'' then
        (if boot then Some (Msg ''cannot share all devices for a booted container'')
         else check_devices boot devs)
      else if \<not> is_abs dev then 
        Some (Msg (''shared devices must be paths or '' @ [CHR 0x27, CHR ''*'', CHR 0x27]))
      else check_devices boot devs)"

definition orelse :: "err option \<Rightarrow> err option \<Rightarrow> err option" where
  "orelse a b = (case a of Some e \<Rightarrow> Some e | None \<Rightarrow> b)"

text \<open>The checks at the head of \<^verbatim>\<open>UpdateConfig\<close>, in their order.\<close>

definition check_config :: "Config \<Rightarrow> err option" where
  "check_config c =
     orelse (checkArrayItemsAgainstRegex (ExtraBindMounts c) bind_mount_rx ''invalid bind mount'')
    (orelse (checkArrayItemsAgainstRegex (SyscallFilters c) syscall_filter_rx ''invalid syscall filter'')
    (orelse (checkArrayItemsAgainstRegex (PrivateDirs c) relative_rx ''private dirs must be relative'')
    (orelse (checkArrayItemsAgainstRegex (PrivateDirs c) no_dotdot_rx ''private dirs must not contain ..'')
    (orelse (if VirtualNetwork c \<and> \<not> Boot c
             then Some (Msg ''cannot use private networking on a non-booted container'') else None)
            (check_devices (Boot c) (ShareDevices c))))))"

subsection \<open>What the checks accept\<close>

lemma orelse_None: "orelse a b = None \<longleftrightarrow> a = None \<and> b = None"
  by (auto simp: orelse_def split: option.splits)

lemma checkArrayItems_None:
  "checkArrayItemsAgainstRegex items rx p = None \<longleftrightarrow> list_all (match_string rx) items"
  by (induction items) auto

lemma check_devices_None:
  "check_devices boot devs = None \<longleftrightarrow> list_all (\<lambda>d. if d = ''*'' then \<not> boot else is_abs d) devs"
  by (cases boot; induction devs) auto

lemma validateName_None: "validateName name = None \<longleftrightarrow> name \<noteq> [] \<and> list_all name_char name"
  by (simp add: validateName_def name_rx_def match_whole_plus_class)

lemma name_char_not: "\<not> name_char CHR ''/''" "\<not> name_char CHR ''.''"
  by (simp_all add: name_char_def lower_def upper_def digit_def between_def)

lemma validateName_chars:
  assumes "validateName name = None"
  shows "name \<noteq> []" "CHR ''/'' \<notin> set name" "CHR ''.'' \<notin> set name"
  using assms name_char_not by (auto simp: validateName_None list_all_iff)

lemma validateName_plain:
  assumes "validateName name = None"
  shows "plain name"
proof -
  have "name \<noteq> ''.''" "name \<noteq> ''..''"
    using validateName_chars(3)[OF assms] by auto
  then show ?thesis
    using validateName_chars[OF assms] by (simp add: plain_def)
qed

text \<open>No valid name ends in the stage suffix: a staged directory hides behind no name.\<close>

lemma valid_name_not_staged:
  assumes "validateName name = None"
  shows "\<not> has_suffix name StageSuffix"
proof
  assume "has_suffix name StageSuffix"
  then have "CHR ''.'' \<in> set name" by (auto simp: has_suffix_iff StageSuffix_def)
  then show False using validateName_chars(3)[OF assms] by simp
qed

lemma staged_name_plain:
  assumes "validateName name = None"
  shows "plain (name @ StageSuffix)"
proof -
  have "length (name @ StageSuffix) > 2" by (simp add: StageSuffix_def)
  moreover have "length ''.'' = 1" "length ''..'' = 2" by simp_all
  ultimately have "name @ StageSuffix \<noteq> ''.''" "name @ StageSuffix \<noteq> ''..''" "name @ StageSuffix \<noteq> []"
    by (metis less_irrefl less_numeral_extra(4) one_less_numeral_iff order.asym semiring_norm(76),
        metis less_irrefl, metis StageSuffix_def append_is_Nil_conv list.discI)
  then show ?thesis
    using validateName_chars(2)[OF assms] by (simp add: plain_def StageSuffix_def)
qed

lemma match_relative_rx: "match_string relative_rx s \<longleftrightarrow> s \<noteq> [] \<and> \<not> is_abs s"
  unfolding relative_rx_def match_anchored
  by (cases s) (auto simp: is_abs_def rooted_def)

fun no_dotdot :: "string \<Rightarrow> bool" where
  "no_dotdot (c # d # s) = (\<not> (c = CHR ''.'' \<and> d = CHR ''.'') \<and> no_dotdot (d # s))"
| "no_dotdot s = True"

lemma no_dotdot_contains: "no_dotdot s \<longleftrightarrow> \<not> contains s ''..''"
proof (induction s rule: no_dotdot.induct)
  case (1 c d s)
  then show ?case by (auto simp: prefix_def)
qed (auto simp: prefix_def)

lemma many_unit:
  "(\<exists>y\<in>set (ends (Many no_dotdot_unit) (b, s)). snd y = []) \<longleftrightarrow> no_dotdot s"
proof (induction s arbitrary: b rule: length_induct)
  case (1 s)
  let ?reach = "\<lambda>b s. \<exists>y\<in>set (ends (Many no_dotdot_unit) (b, s)). snd y = []"
  show ?case
  proof (cases s)
    case Nil
    then show ?thesis by simp
  next
    case (Cons c t)
    have unfold: "?reach b s \<longleftrightarrow>
        (\<exists>x\<in>set (ends no_dotdot_unit (b, s)). length (snd x) < length s \<and> ?reach (fst x) (snd x))"
      using Cons by (simp add: less_Suc_eq_le Bex_def) blast
    show ?thesis
    proof (cases t)
      case Nil
      then show ?thesis
        unfolding unfold using Cons
        by (cases "no_dot c") (simp_all add: no_dotdot_unit_def no_dot_def)
    next
      case (Cons d u)
      note s = \<open>s = c # t\<close> Cons
      have IHt: "?reach b' (d # u) \<longleftrightarrow> no_dotdot (d # u)" for b'
        using "1"[rule_format, of "d # u" b'] s by (simp del: ends_Many_Cons)
      have IHu: "?reach b' u \<longleftrightarrow> no_dotdot u" for b'
        using "1"[rule_format, of u b'] s by (simp del: ends_Many_Cons)
      have nd: "no_dot d \<Longrightarrow> no_dotdot (d # u) \<longleftrightarrow> no_dotdot u"
        by (cases u) (auto simp: no_dot_def)
      have steps: "set (ends no_dotdot_unit (b, s)) =
          (if no_dot c \<and> no_dot d then {(False, u)} else {}) \<union>
          (if no_dot c then {(False, d # u)} else {}) \<union>
          (if \<not> no_dot c \<and> no_dot d then {(False, u)} else {})"
        using s by (auto simp: no_dotdot_unit_def no_dot_def)
      have "?reach b s \<longleftrightarrow>
          (no_dot c \<and> no_dot d \<and> no_dotdot u) \<or> (no_dot c \<and> no_dotdot (d # u)) \<or>
          (\<not> no_dot c \<and> no_dot d \<and> no_dotdot u)"
        unfolding unfold steps using s by (auto simp: IHt IHu simp del: ends_Many_Cons)
      also have "\<dots> \<longleftrightarrow> no_dotdot s"
        using s nd by (auto simp: no_dot_def)
      finally show ?thesis .
    qed
  qed
qed

lemma match_no_dotdot_rx: "match_string no_dotdot_rx s \<longleftrightarrow> s \<noteq> [] \<and> \<not> contains s ''..''"
proof -
  have "match_string no_dotdot_rx s \<longleftrightarrow>
      (\<exists>y\<in>set (ends (Plus no_dotdot_unit) (True, s)). snd y = [])"
    unfolding no_dotdot_rx_def match_anchored by (simp only: ends_End)
  also have "\<dots> \<longleftrightarrow> s \<noteq> [] \<and> (\<exists>y\<in>set (ends (Many no_dotdot_unit) (True, s)). snd y = [])"
  proof (cases s)
    case Nil
    then show ?thesis by (simp add: Plus_def no_dotdot_unit_def)
  next
    case (Cons c t)
    have shorter: "length (snd x) < length s" if "x \<in> set (ends no_dotdot_unit (True, s))" for x
      using that Cons by (cases t) (auto simp: no_dotdot_unit_def split: if_splits)
    have "set (ends (Plus no_dotdot_unit) (True, s)) =
        (\<Union>x\<in>set (ends no_dotdot_unit (True, s)). set (ends (Many no_dotdot_unit) x))"
      by (simp add: Plus_def)
    moreover have "set (ends (Many no_dotdot_unit) (True, s)) = insert (True, s)
        (\<Union>x\<in>set (ends no_dotdot_unit (True, s)). set (ends (Many no_dotdot_unit) x))"
    proof -
      have "filter (\<lambda>y. length (snd y) < length (snd (True, s))) (ends no_dotdot_unit (True, s)) =
          ends no_dotdot_unit (True, s)"
        using shorter by (intro filter_True) auto
      then show ?thesis by (subst ends.simps(6)) simp
    qed
    ultimately show ?thesis using Cons by auto
  qed
  finally show ?thesis
    by (simp only: many_unit no_dotdot_contains)
qed

lemma match_bind_mount_rx: "match_string bind_mount_rx s \<longleftrightarrow> s \<noteq> [] \<and> list_all dot s"
proof -
  let ?tail = "\<lambda>t. t = [] \<or> (\<exists>u. t = CHR '':'' # u \<and> u \<noteq> [] \<and> list_all dot u)"
  have opt: "ends (Then (Opt (Then (Class (\<lambda>c. c = CHR '':'')) (Plus (Class dot)))) End) x \<noteq> []
      \<longleftrightarrow> ?tail (snd x)" for x
  proof -
    obtain b t where x: "x = (b, t)" by fastforce
    have "(\<exists>y\<in>set (ends (Opt (Then (Class (\<lambda>c. c = CHR '':'')) (Plus (Class dot)))) (b, t)). snd y = [])
        \<longleftrightarrow> t = [] \<or> (\<exists>u. t = CHR '':'' # u \<and> (\<exists>y\<in>set (ends (Plus (Class dot)) (False, u)). snd y = []))"
      by (cases t) (auto simp: Opt_def)
    then show ?thesis
      unfolding x ends_End accepts_plus_class by simp
  qed
  have "match_string bind_mount_rx s \<longleftrightarrow> (\<exists>t\<in>snd ` set (ends (Plus (Class dot)) (True, s)). ?tail t)"
    unfolding bind_mount_rx_def match_anchored ends_Then_nonempty[of "Plus (Class dot)"] opt by auto
  also have "\<dots> \<longleftrightarrow> s \<noteq> [] \<and> list_all dot s"
  proof
    assume "\<exists>t\<in>snd ` set (ends (Plus (Class dot)) (True, s)). ?tail t"
    then show "s \<noteq> [] \<and> list_all dot s"
      unfolding ends_plus_class by (auto simp: dot_def)
  next
    assume "s \<noteq> [] \<and> list_all dot s"
    then show "\<exists>t\<in>snd ` set (ends (Plus (Class dot)) (True, s)). ?tail t"
      unfolding ends_plus_class by auto
  qed
  finally show ?thesis .
qed

text \<open>
  The syscall-filter pattern accepts anything whose last character is a lower
  case letter, a digit or an underscore.
\<close>

lemma match_syscall_filter_rx:
  "match_string syscall_filter_rx s \<longleftrightarrow>
     (\<exists>t. s = CHR ''@'' # t \<and> t \<noteq> [] \<and> list_all group_char t) \<or>
     (s \<noteq> [] \<and> syscall_char (last s))"
proof -
  have "match_from (Then Begin (Then (Class (\<lambda>c. c = CHR ''@'')) (Then (Plus (Class group_char)) End))) True s
      \<longleftrightarrow> (\<exists>t. s = CHR ''@'' # t \<and> t \<noteq> [] \<and> list_all group_char t)"
  proof -
    have "match_from (Then Begin (Then (Class (\<lambda>c. c = CHR ''@'')) (Then (Plus (Class group_char)) End))) True s
        \<longleftrightarrow> ends (Then (Class (\<lambda>c. c = CHR ''@'')) (Then (Plus (Class group_char)) End)) (True, s) \<noteq> []"
      using match_anchored[of "Then (Class (\<lambda>c. c = CHR ''@'')) (Then (Plus (Class group_char)) End)" s]
      by (simp add: match_string_def)
    also have "\<dots> \<longleftrightarrow> (\<exists>t. s = CHR ''@'' # t \<and> ends (Then (Plus (Class group_char)) End) (False, t) \<noteq> [])"
      by (cases s) auto
    finally show ?thesis unfolding ends_End accepts_plus_class .
  qed
  then show ?thesis
    by (simp add: match_string_def syscall_filter_rx_def match_or match_word_end)
qed

lemma check_config_None:
  "check_config c = None \<longleftrightarrow>
     list_all (\<lambda>s. s \<noteq> [] \<and> list_all dot s) (ExtraBindMounts c) \<and>
     list_all (match_string syscall_filter_rx) (SyscallFilters c) \<and>
     list_all (\<lambda>s. s \<noteq> [] \<and> \<not> is_abs s \<and> \<not> contains s ''..'') (PrivateDirs c) \<and>
     (VirtualNetwork c \<longrightarrow> Boot c) \<and>
     list_all (\<lambda>d. if d = ''*'' then \<not> Boot c else is_abs d) (ShareDevices c)"
  by (auto simp: check_config_def orelse_None checkArrayItems_None check_devices_None
      match_bind_mount_rx match_relative_rx match_no_dotdot_rx list_all_iff)

section \<open>Paths of a container\<close>

definition Storage :: "Container \<Rightarrow> string" where
  "Storage ct = path_join [Path ct, ''storage'']"

definition StorageChild :: "Container \<Rightarrow> string list \<Rightarrow> string" where
  "StorageChild ct children = path_join (Storage ct # children)"

definition PrivateHomeStorage :: "Container \<Rightarrow> Userdata \<Rightarrow> string" where
  "PrivateHomeStorage ct usrdata =
     path_join [HomeDir (User usrdata), ''.var'', ''nsbox'', Name ct]"

definition PrivateHomeStorageChild :: "Container \<Rightarrow> Userdata \<Rightarrow> string list \<Rightarrow> string" where
  "PrivateHomeStorageChild ct usrdata children = path_join (PrivateHomeStorage ct usrdata # children)"

definition Staged :: "Container \<Rightarrow> bool" where
  "Staged ct \<longleftrightarrow> has_suffix (Path ct) StageSuffix"

definition ExportsLink :: "Container \<Rightarrow> bool \<Rightarrow> string" where
  "ExportsLink ct temp = path_join [Path ct, if temp then ''exports.tmp'' else ''exports'']"

definition ExportsInstance :: "Container \<Rightarrow> nat \<Rightarrow> string" where
  "ExportsInstance ct n = path_join [Path ct, ''exports.'' @ show_nat n]"

definition MachineName :: "Container \<Rightarrow> Userdata \<Rightarrow> string" where
  "MachineName ct usrdata = EscapedUsername usrdata @ ''-'' @ Name ct"

definition ApplyEnvironFilter :: "Container \<Rightarrow> Userdata \<Rightarrow> Userdata" where
  "ApplyEnvironFilter ct usrdata =
     (if Boot (Cfg ct) then usrdata\<lparr>Environ := AList.delete ''XDG_VTNR'' (Environ usrdata)\<rparr>
      else usrdata)"

end
