(* ===== verification/Container_Ops.thy ===== *)
theory Container_Ops
  imports Container "HOL-Library.Word"
begin

text \<open>
  \<^verbatim>\<open>internal/container/container.go\<close>, second part: the operations that touch the
  file system and the lock files: creating, opening, reconfiguring, locking,
  renaming and deleting a container.
\<close>

section \<open>Creating and opening\<close>

definition writeConfigToNewFile :: "Config \<Rightarrow> string \<Rightarrow> unit io" where
  "writeConfigToNewFile config path =
     seq (os_Create path) (\<lambda>file. file_write file (Doc (encode_config config)))"

definition check :: "err option \<Rightarrow> unit io" where
  "check e = (case e of Some e \<Rightarrow> fail e | None \<Rightarrow> ret ())"

definition CreateStaged :: "build \<Rightarrow> Userdata \<Rightarrow> string \<Rightarrow> Config \<Rightarrow> Container io" where
  "CreateStaged b usrdata name initialConfig =
     seq (check (validateName name)) (\<lambda>_.
     let path = ContainerData b usrdata name in
     seq (attempt (os_Stat (path_join [path, configJson]))) (\<lambda>st. case st of
       Inr _ \<Rightarrow> fail (Msg (''container '' @ name @ '' already exists''))
     | Inl _ \<Rightarrow>
         let stagedPath = path @ StageSuffix in
         seq (wrap ''failed to remove old staged container'' (unless_missing (os_RemoveAll stagedPath))) (\<lambda>_.
         seq (wrap ''failed to create container directory'' (os_MkdirAll stagedPath 493)) (\<lambda>_.
         seq (wrap ''failed to create container storage directory''
                (os_MkdirAll (path_join [stagedPath, ''storage'']) 493)) (\<lambda>_.
         seq (wrap ''failed to write container config''
                (writeConfigToNewFile initialConfig (path_join [stagedPath, configJson]))) (\<lambda>_.
         ret \<lparr>Name = name, Path = stagedPath, Cfg = initialConfig\<rparr>))))))"

definition legacy_image :: "Config \<Rightarrow> Config" where
  "legacy_image config = (if Image config = '''' then config\<lparr>Image := ''fedora:30''\<rparr> else config)"

definition OpenPath :: "string \<Rightarrow> string \<Rightarrow> Container io" where
  "OpenPath path name =
     seq (wrap ''failed to read container config'' (os_Open (path_join [path, configJson]))) (\<lambda>file.
     seq (wrap ''failed to parse container config''
            (seq (file_read file) (\<lambda>data. lift_res (of_sum (decode_config data))))) (\<lambda>config.
     ret \<lparr>Name = name, Path = path, Cfg = legacy_image config\<rparr>))"

definition Open :: "build \<Rightarrow> Userdata \<Rightarrow> string \<Rightarrow> Container io" where
  "Open b usrdata name =
     seq (check (validateName name)) (\<lambda>_. OpenPath (ContainerData b usrdata name) name)"

definition UpdateConfig :: "Container \<Rightarrow> unit io" where
  "UpdateConfig ct =
     seq (check (check_config (Cfg ct))) (\<lambda>_.
     let configPath = path_join [Path ct, configJson];
         tempConfigPath = configPath @ ''.tmp'' in
     seq (wrap ''failed to write temporary config'' (writeConfigToNewFile (Cfg ct) tempConfigPath)) (\<lambda>_.
     wrap ''failed to overwrite config'' (os_Rename tempConfigPath configPath)))"

definition Shell_of :: "Container \<Rightarrow> Userdata \<Rightarrow> string io" where
  "Shell_of ct usrdata =
     seq (attempt (os_Stat (StorageChild ct [Shell usrdata]))) (\<lambda>r. case r of
       Inl _ \<Rightarrow> ret ''/bin/bash''
     | Inr _ \<Rightarrow> ret (Shell usrdata))"

definition Rename :: "Container \<Rightarrow> string \<Rightarrow> unit io" where
  "Rename ct newname = os_Rename (Path ct) (path_join [path_dir (Path ct), newname])"

definition Unstage :: "Container \<Rightarrow> unit io" where
  "Unstage ct =
     (if \<not> Staged ct then panic ''cannot unstage unstaged container (?)''
      else Rename ct (Name ct))"

text \<open>The password hash of \<^verbatim>\<open>crypt\<close> is a parameter.\<close>

definition UpdateManualPassword :: "(string \<Rightarrow> err + string) \<Rightarrow> Container \<Rightarrow> string \<Rightarrow> unit io" where
  "UpdateManualPassword crypt ct pass =
     (if Auth (Cfg ct) \<noteq> AuthManual then panic ''container auth must be AuthManual to set a password''
      else case crypt pass of
        Inl e \<Rightarrow> panic ''crypt''
      | Inr hashed \<Rightarrow>
          seq (wrap ''failed to create shadow password file''
                 (os_Create (StorageChild ct [InContainerPrivPath, ''shadow-custom-pass'']))) (\<lambda>passFile.
          seq (wrap ''failed to modify shadow password file permissions'' (file_chmod passFile 0)) (\<lambda>_.
          seq (attempt (file_write passFile (Raw hashed))) (\<lambda>_. ret ()))))"

text \<open>The machine registry of \<^verbatim>\<open>systemd-machined\<close>.\<close>

record machine_props =
  p_Leader :: "32 word"

record machined =
  m_New :: "err option"
  m_Describe :: "string \<Rightarrow> err + machine_props"

definition Leader :: "machined \<Rightarrow> Container \<Rightarrow> Userdata \<Rightarrow> (32 word) res" where
  "Leader m ct usrdata =
     (case m_New m of
        Some e \<Rightarrow> Err e
      | None \<Rightarrow> bind_res (of_sum (m_Describe m (MachineName ct usrdata))) (\<lambda>props. Ok (p_Leader props)))"

section \<open>Locks\<close>

datatype LockWaitRequest = WaitForLock | NoWaitForLock

datatype LockLevel = RunLock | ExportsLock | ConfigLock | FullContainerLock

fun lock_name :: "LockLevel \<Rightarrow> string" where
  "lock_name RunLock = ''run''"
| "lock_name ExportsLock = ''exports''"
| "lock_name ConfigLock = ''config''"
| "lock_name FullContainerLock = ''''"

text \<open>\<^verbatim>\<open>LockLevel(i)\<close> for \<^verbatim>\<open>i < int(FullContainerLock)\<close>\<close>

definition lower_levels :: "LockLevel list" where
  "lower_levels = [RunLock, ExportsLock, ConfigLock]"

text \<open>\<^verbatim>\<open>Lock.Release\<close>: a failing close is only reported.\<close>

definition Release :: "nat list \<Rightarrow> unit io" where
  "Release lock = each (\<lambda>fd. seq (attempt (unix_Close fd)) (\<lambda>_. ret ())) lock"

definition flock_error :: "err \<Rightarrow> err" where
  "flock_error e = (if e = Errno EWOULDBLOCK then Msg ''container is locked''
                    else Wrapped ''failed to lock container directory'' e)"

text \<open>Opening and locking the file (or directory) of one level.\<close>

definition lock_level :: "Container \<Rightarrow> LockLevel \<Rightarrow> LockWaitRequest \<Rightarrow> nat io" where
  "lock_level ct level wait =
     (let path = (if level = FullContainerLock then Path ct
                  else path_join [Path ct, lock_name level @ ''.lock'']) in
      seq (if level = FullContainerLock then ret ()
           else seq (wrap (''create '' @ lock_name level @ '' lock file'') (os_Create path)) (\<lambda>_. ret ())) (\<lambda>_.
      seq (wrap ''failed to open container directory'' (unix_Open path (level = FullContainerLock))) (\<lambda>fd.
      seq (on_err (unix_Flock fd (wait = NoWaitForLock)) (\<lambda>e. fail (flock_error e))) (\<lambda>_.
      ret fd))))"

fun level_index :: "LockLevel \<Rightarrow> nat" where
  "level_index RunLock = 0"
| "level_index ExportsLock = 1"
| "level_index ConfigLock = 2"
| "level_index FullContainerLock = 3"

fun lock_sublevels :: "Container \<Rightarrow> LockWaitRequest \<Rightarrow> nat list \<Rightarrow> LockLevel list \<Rightarrow> nat list io" where
  "lock_sublevels ct wait held [] = ret held"
| "lock_sublevels ct wait held (level # levels) =
     seq (attempt (lock_level ct level wait)) (\<lambda>r. case r of
       Inl e \<Rightarrow> seq (Release held) (\<lambda>_. 
         fail (Wrapped (''locking lower level lock '' @ show_nat (level_index level)) e))
     | Inr fd \<Rightarrow> lock_sublevels ct wait (held @ [fd]) levels)"

definition Lock :: "Container \<Rightarrow> LockLevel \<Rightarrow> LockWaitRequest \<Rightarrow> nat list io" where
  "Lock ct level wait =
     seq (lock_level ct level wait) (\<lambda>fd.
     if level = FullContainerLock then lock_sublevels ct wait [fd] lower_levels
     else ret [fd])"

definition LockUntilProcessDeath :: "Container \<Rightarrow> LockLevel \<Rightarrow> LockWaitRequest \<Rightarrow> unit io" where
  "LockUntilProcessDeath ct level wait = seq (Lock ct level wait) (\<lambda>_. ret ())"

definition LockAndDelete :: "Container \<Rightarrow> LockWaitRequest \<Rightarrow> unit io" where
  "LockAndDelete ct wait =
     seq (Lock ct FullContainerLock wait) (\<lambda>lock.
     defer_do (Release lock)
       (wrap ''failure during container deletion'' (os_RemoveAll (Path ct))))"

section \<open>A container in its place\<close>

text \<open>
  \<open>located ct cs w\<close>: the container's path names the location \<open>cs\<close>, all of whose
  prefixes are directories.
\<close>

definition located :: "Container \<Rightarrow> loc \<Rightarrow> world \<Rightarrow> bool" where
  "located ct cs w \<longleftrightarrow> Path ct = path_of cs \<and> list_all plain cs \<and> solid (disk w) cs"

lemma locatedD:
  assumes "located ct cs w"
  shows "Path ct = path_of cs" "list_all plain cs" "solid (disk w) cs"
  using assms by (simp_all add: located_def)

lemma located_same_disk: "located ct cs w \<Longrightarrow> disk w' = disk w \<Longrightarrow> located ct cs w'"
  by (simp add: located_def)

lemma path_join_child: "located ct cs w \<Longrightarrow> plain n \<Longrightarrow> path_join [Path ct, n] = path_of (cs @ [n])"
  by (simp add: located_def)

lemma check_cases:
  obtains (bad) e where "c = Some e" "check c = fail e" | (ok) "c = None" "check c = ret ()"
  by (cases c) (auto simp: check_def)

text \<open>Writing a configuration to a new file touches that file only.\<close>

lemma writeConfig_cases:
  assumes "resolve True w path = Inr q" and "q \<noteq> []"
  obtains (err) e w' where "writeConfigToNewFile config path w = (Err e, w')" "same_locks w w'"
      "\<forall>r. r \<noteq> q \<longrightarrow> fs_get (disk w') r = fs_get (disk w) r" "cwd w' = cwd w"
  | (ok) i w' where "writeConfigToNewFile config path w = (Ok (), w')" "same_locks w w'"
      "\<forall>r. r \<noteq> q \<longrightarrow> fs_get (disk w') r = fs_get (disk w) r" "cwd w' = cwd w"
      "fs_get (disk w') q = Some i" "i_kind i = Regular (Doc (encode_config config))"
using assms
proof (cases rule: os_Create_cases)
  case (err e w1)
  then show thesis
    using that(1)[of e w1] same_osD[OF err(2)] same_os_imp(3)[OF err(2)]
    by (simp add: writeConfigToNewFile_def seq_def)
next
  case (ok i w1)
  have get: "fs_get (disk w1) q = Some i" using ok(2) by simp
  from get assms(2) show thesis
  proof (cases rule: file_write_cases[where c = "Doc (encode_config config)"])
    case (err e w2)
    then show thesis
      using that(1)[of e w2] ok same_osD[OF err(2)] same_os_imp(3)[OF err(2)]
        same_locks.frame_trans[of w w1 w2]
      by (simp add: writeConfigToNewFile_def seq_def)
  next
    case w2: (ok w2)
    then show thesis
      using that(2)[of w2 "i\<lparr>i_kind := Regular (Doc (encode_config config))\<rparr>"] ok
        same_locks.frame_trans[of w w1 w2]
      by (simp add: writeConfigToNewFile_def seq_def)
  qed
qed

text \<open>
  Reconfiguration: \<^verbatim>\<open>config.json\<close> holds either what it held or the complete new
  configuration, whichever call fails.
\<close>

lemma UpdateConfig_effect:
  assumes loc: "located ct cs w"
    and no_link: "no_link (disk w) (cs @ [''config.json.tmp''])"
    and run: "UpdateConfig ct w = (r, w')"
  shows "\<forall>q. q \<noteq> cs @ [''config.json''] \<longrightarrow> \<not> prefix (cs @ [''config.json.tmp'']) q \<longrightarrow>
           \<not> prefix (cs @ [''config.json'']) q \<longrightarrow> fs_get (disk w') q = fs_get (disk w) q"
    and "(r = Ok () \<and> check_config (Cfg ct) = None \<and>
           (\<exists>i. fs_get (disk w') (cs @ [''config.json'']) = Some i \<and>
                i_kind i = Regular (Doc (encode_config (Cfg ct))))) \<or>
         ((\<exists>e. r = Err e) \<and>
           fs_get (disk w') (cs @ [''config.json'']) = fs_get (disk w) (cs @ [''config.json'']))"
    and "same_locks w w'"
proof -
  let ?c = "cs @ [''config.json'']" and ?t = "cs @ [''config.json.tmp'']"
  note l = locatedD[OF loc]
  have ct: "?t \<noteq> ?c" "\<not> prefix ?t ?c" "\<not> prefix ?c ?t" by simp_all
  have paths: "path_join [Path ct, configJson] = path_of ?c" "path_of ?c @ ''.tmp'' = path_of ?t"
    using l by (simp_all add: configJson_def path_of_snoc_append)
  have rt: "resolve True w (path_of ?t) = Inr ?t"
    using l no_link by (simp add: resolve_no_link)
  have goal: "(\<forall>q. q \<noteq> ?c \<longrightarrow> \<not> prefix ?t q \<longrightarrow> \<not> prefix ?c q \<longrightarrow> fs_get (disk w') q = fs_get (disk w) q) \<and>
      ((r = Ok () \<and> check_config (Cfg ct) = None \<and>
        (\<exists>i. fs_get (disk w') ?c = Some i \<and> i_kind i = Regular (Doc (encode_config (Cfg ct))))) \<or>
       ((\<exists>e. r = Err e) \<and> fs_get (disk w') ?c = fs_get (disk w) ?c)) \<and> same_locks w w'"
  proof (cases rule: check_cases[of "check_config (Cfg ct)"])
    case (bad e)
    then show ?thesis
      using run by (auto simp: UpdateConfig_def fail_def same_locks_def)
  next
    case ok
    have body: "UpdateConfig ct w =
        seq (wrap ''failed to write temporary config'' (writeConfigToNewFile (Cfg ct) (path_of ?t)))
          (\<lambda>_. wrap ''failed to overwrite config'' (os_Rename (path_of ?t) (path_of ?c))) w"
      using ok paths by (simp add: UpdateConfig_def Let_def)
    have "?t \<noteq> []" by simp
    with rt show ?thesis
    proof (cases rule: writeConfig_cases[where config = "Cfg ct"])
      case (err e w1)
      then have "r = Err (Wrapped ''failed to write temporary config'' e)" "w' = w1"
        using run unfolding body by (simp_all add: run_simps)
      then show ?thesis using err ct by auto
    next
      case w1: (ok i w1)
      have s1: "solid (disk w1) cs"
      proof (rule solid_cong[OF l(3)])
        fix q assume "prefix q cs"
        then have "q \<noteq> ?t" by (auto dest: prefix_length_le)
        then show "fs_get (disk w1) q = fs_get (disk w) q" using w1(3) by simp
      qed
      have res: "resolve False w1 (path_of ?t) = Inr ?t" "resolve False w1 (path_of ?c) = Inr ?c"
        using s1 l by simp_all
      moreover have "?t \<noteq> []" "?c \<noteq> []" by simp_all
      ultimately show ?thesis
        using ct(2)
      proof (cases rule: os_Rename_cases)
        case (err e w2)
        then have "r = Err (Wrapped ''failed to overwrite config'' e)" "w' = w2"
          using run unfolding body by (simp_all add: run_simps w1(1))
        then show ?thesis
          using w1 ct same_osD[OF err(2)] same_os_imp(3)[OF err(2)]
          by (auto intro: same_locks.frame_trans)
      next
        case w2: (ok j w2)
        then have rw: "r = Ok ()" "w' = w2"
          using run unfolding body by (simp_all add: run_simps w1(1))
        have "fs_get (disk w2) ?c = fs_get (disk w1) ?t"
          using w2(4) disk.get_move_dest[OF ct(2,3), of "disk w1" "[]"] by simp
        moreover have "fs_get (disk w2) q = fs_get (disk w1) q" if "\<not> prefix ?t q" "\<not> prefix ?c q" for q
          using w2(4) disk.get_move_elsewhere[OF ct(2,3) that] by simp
        ultimately show ?thesis
          using rw w1 w2 ok by (auto intro: same_locks.frame_trans)
      qed
    qed
  qed
  show "\<forall>q. q \<noteq> ?c \<longrightarrow> \<not> prefix ?t q \<longrightarrow> \<not> prefix ?c q \<longrightarrow> fs_get (disk w') q = fs_get (disk w) q"
    "(r = Ok () \<and> check_config (Cfg ct) = None \<and>
        (\<exists>i. fs_get (disk w') ?c = Some i \<and> i_kind i = Regular (Doc (encode_config (Cfg ct))))) \<or>
       ((\<exists>e. r = Err e) \<and> fs_get (disk w') ?c = fs_get (disk w) ?c)"
    "same_locks w w'"
    using goal by auto
qed


text \<open>Opening only reads.\<close>

lemma keeps_check: "(\<And>s. R s s) \<Longrightarrow> keeps R (check e)"
  by (cases e) (simp_all add: check_def keeps_def go_simps)

lemma keeps_OpenPath [keeps_intros]: "keeps same_os (OpenPath p n)"
  unfolding OpenPath_def
  by (intro same_os.keeps_seq same_os.keeps_wrap same_os.keeps_lift_res same_os.keeps_ret keeps_look)

lemma keeps_Open [keeps_intros]: "keeps same_os (Open b u n)"
  unfolding Open_def
  by (intro same_os.keeps_seq keeps_check keeps_OpenPath same_os_refl)

lemma OpenPath_OkD:
  assumes "OpenPath p n w = (Ok ct, w')"
  shows "Name ct = n" "Path ct = p"
  using assms unfolding OpenPath_def
  by (auto elim!: seq_OkD dest!: wrap_OkD simp: ret_def)

lemma Open_OkD:
  assumes "Open b u n w = (Ok ct, w')"
  shows "validateName n = None" "Name ct = n" "Path ct = ContainerData b u n" "same_os w w'"
proof -
  show "same_os w w'" using keepsD[OF keeps_Open assms] .
  show valid: "validateName n = None"
    using assms by (cases "validateName n") (auto simp: Open_def check_def fail_def)
  then show "Name ct = n" "Path ct = ContainerData b u n"
    using assms OpenPath_OkD by (auto simp: Open_def check_def)
qed

lemma Open_no_abort: "Open b u n w \<noteq> (Abort a, w')"
proof -
  have "os_Open p w1 \<noteq> (Abort a, w2)" for p w1 w2
    by (auto simp: os_Open_def sys_def at_path_def Let_def split: option.splits sum.splits)
  moreover have "file_read q w1 \<noteq> (Abort a, w2)" for q w1 w2
    by (auto simp: file_read_def sys_def Let_def split: option.splits kind.splits)
  moreover have "of_sum (decode_config d) \<noteq> Abort a" for d
    by (cases "decode_config d") auto
  ultimately show ?thesis
    unfolding Open_def OpenPath_def
    by (auto simp: run_simps check_def split: prod.splits res.splits option.splits)
qed

text \<open>Without faults, a container directory with a configuration opens.\<close>

definition calm :: "world \<Rightarrow> bool" where
  "calm w \<longleftrightarrow> (\<forall>n. fault w n = None)"

lemma calm_fields [simp]: "calm (w\<lparr>tick := n\<rparr>) = calm w" "calm (w\<lparr>disk := d\<rparr>) = calm w"
  by (simp_all add: calm_def)

lemma calm_sys: "calm w \<Longrightarrow> sys m w = m (w\<lparr>tick := Suc (tick w)\<rparr>)"
  by (simp add: calm_def sys_def)

lemma OpenPath_reads:
  assumes "calm w" and "resolve True w (path_join [p, configJson]) = Inr q" and "q \<noteq> []"
    and "fs_get (disk w) q = Some i" and "i_kind i = Regular (Doc (encode_config c))"
  obtains w' where "OpenPath p n w = (Ok \<lparr>Name = n, Path = p, Cfg = legacy_image c\<rparr>, w')"
    "same_os w w'"
proof -
  have "fst (OpenPath p n w) = Ok \<lparr>Name = n, Path = p, Cfg = legacy_image c\<rparr>"
    using assms
    by (simp add: OpenPath_def os_Open_def file_read_def calm_sys at_path_def run_simps
        decode_encode_config)
  then show thesis
    using that keepsD[OF keeps_OpenPath, of p n w] by (metis prod.collapse)
qed

end
