(* ===== verification/Container_Life.thy ===== *)
theory Container_Life
  imports Container_Ops
begin

text \<open>
  The life of a container directory: it is built under its staged name, published
  by one rename, and from then on opens under its own name.
\<close>

section \<open>Making directories\<close>

lemma look_no_abort:
  "os_Stat p w \<noteq> (Abort a, w')" "os_Lstat p w \<noteq> (Abort a, w')" "os_Mkdir p m w \<noteq> (Abort a, w')"
  by (auto simp: os_Stat_def os_Lstat_def stat_with_def os_Mkdir_def sys_def at_path_def Let_def
      split: option.splits sum.splits)

lemma os_Mkdir_existing:
  assumes "resolve False w p = Inr q" and "node_at w q \<noteq> None"
  obtains e w' where "os_Mkdir p m w = (Err e, w')" "same_os w w'"
  using assms
  by (cases "fault w (tick w)") (auto simp: os_Mkdir_def sys_def at_path_def split: option.splits)

lemma os_Mkdir_cases:
  assumes "resolve False w p = Inr q" and "q \<noteq> []"
  obtains (err) e w' where "os_Mkdir p m w = (Err e, w')" "same_os w w'"
  | (ok) i w' where "os_Mkdir p m w = (Ok (), w')" "same_locks w w'" "cwd w' = cwd w"
      "disk w' = fs_put q i (disk w)" "is_dir i" "fs_get (disk w) q = None"
proof (cases "fault w (tick w)")
  case None
  let ?w = "w\<lparr>tick := Suc (tick w)\<rparr>"
  show ?thesis
  proof (cases "fs_get (disk w) q")
    case (Some i)
    then show ?thesis
      using None assms err[of "Errno EEXIST" ?w] by (simp add: os_Mkdir_def sys_def at_path_def)
  next
    case free: None
    show ?thesis
      by (rule ok[of "put_node q Directory m ?w"
            "\<lparr>i_ino = next_ino w, i_kind = Directory, i_mode = m,
              i_uid = proc_uid w, i_gid = proc_gid w\<rparr>"])
        (use free None assms in
          \<open>simp_all add: os_Mkdir_def sys_def at_path_def put_node_def same_locks_def is_dir_def\<close>)
  qed
qed (use err in \<open>auto simp: os_Mkdir_def sys_def\<close>)

lemma mkdir_all_existing:
  assumes "solid (disk w) cs" and "list_all plain cs"
  obtains r w' where "mkdir_all m (rev cs) w = (r, w')" "same_os w w'" "\<And>a. r \<noteq> Abort a"
  using assms
proof (induction cs arbitrary: thesis w rule: rev_induct)
  case Nil
  then show ?case by (simp add: ret_def)
next
  case (snoc c cs)
  have "solid (disk w) cs" "list_all plain cs" "plain c" using snoc.prems by (simp_all add: solid_snoc)
  obtain r1 w1 where st: "os_Stat (path_of (cs @ [c])) w = (r1, w1)" by fastforce
  have s1: "same_os w w1" using keepsD[OF keeps_look(1) st] .
  have sol: "solid (disk w') (cs @ [c])" if "same_os w w'" for w'
    using snoc.prems(2) same_osD(1)[OF that] by simp
  show ?case
  proof (cases r1)
    case (Ok i)
    show ?thesis
      by (rule snoc.prems(1)[of "if is_dir i then Ok () else Err (Errno ENOTDIR)" w1])
        (use st Ok s1 in \<open>simp_all add: run_simps Let_def\<close>)
  next
    case (Err e)
    have "solid (disk w1) cs" using sol[OF s1] by (simp add: solid_snoc)
    then obtain r2 w2 where up: "mkdir_all m (rev cs) w1 = (r2, w2)" "same_os w1 w2" "\<And>a. r2 \<noteq> Abort a"
      using snoc.IH \<open>list_all plain cs\<close> by metis
    have s2: "same_os w w2" using s1 up(2) by (rule same_os.frame_trans)
    have "resolve False w2 (path_of (cs @ [c])) = Inr (cs @ [c])"
      using sol[OF s2] snoc.prems(3) by (simp add: solid_snoc)
    moreover have "node_at w2 (cs @ [c]) \<noteq> None"
      using sol[OF s2] by (auto simp: solid_snoc dir_at_def split: option.splits)
    ultimately obtain e3 w3 where mk: "os_Mkdir (path_of (cs @ [c])) m w2 = (Err e3, w3)" "same_os w2 w3"
      by (rule os_Mkdir_existing)
    have s3: "same_os w w3" using s2 mk(2) by (rule same_os.frame_trans)
    obtain r4 w4 where ls: "os_Lstat (path_of (cs @ [c])) w3 = (r4, w4)" by fastforce
    have s4: "same_os w w4" using s3 keepsD[OF keeps_look(2) ls] by (rule same_os.frame_trans)
    show ?thesis
    proof (cases r2)
      case (Ok x)
      have run: "mkdir_all m (rev (cs @ [c])) w =
          (case r4 of Ok i \<Rightarrow> if is_dir i then Ok () else Err e3 | _ \<Rightarrow> Err e3, w4)"
        using st Err up(1) Ok mk(1) ls look_no_abort by (cases r4) (auto simp: run_simps Let_def)
      show ?thesis by (rule snoc.prems(1)[OF run s4]) (auto split: res.splits)
    next
      case e2: (Err e2)
      show ?thesis
        by (rule snoc.prems(1)[of "Err e2" w2]) (use st Err up e2 s2 in \<open>simp_all add: run_simps Let_def\<close>)
    qed (use up in auto)
  qed (use st look_no_abort in blast)
qed

text \<open>Making one directory below existing ones.\<close>

lemma os_MkdirAll_child:
  assumes "solid (disk w) cs" and "list_all plain (cs @ [c])" and "fs_get (disk w) (cs @ [c]) = None"
  obtains (err) e w' where "os_MkdirAll (path_of (cs @ [c])) m w = (Err e, w')" "same_locks w w'"
      "cwd w' = cwd w" "\<forall>q. q \<noteq> cs @ [c] \<longrightarrow> fs_get (disk w') q = fs_get (disk w) q"
  | (ok) i w' where "os_MkdirAll (path_of (cs @ [c])) m w = (Ok (), w')" "same_locks w w'"
      "cwd w' = cwd w" "disk w' = fs_put (cs @ [c]) i (disk w)" "is_dir i"
proof -
  let ?p = "path_of (cs @ [c])"
  have pl: "list_all plain cs" "plain c" using assms(2) by simp_all
  have body: "os_MkdirAll ?p m = mkdir_all m (rev (cs @ [c]))"
    using assms(2) by (simp add: os_MkdirAll_def)
  obtain r1 w1 where st: "os_Stat ?p w = (r1, w1)" by fastforce
  have s1: "same_os w w1" using keepsD[OF keeps_look(1) st] .
  have none: "\<And>i. r1 \<noteq> Ok i"
  proof
    fix i assume "r1 = Ok i"
    moreover have "resolve True w ?p = Inr (cs @ [c])"
      by (rule resolve_no_link) (use assms pl in \<open>simp_all add: no_link_def\<close>)
    ultimately show False
      using st assms(3) by (auto simp: os_Stat_def stat_with_def sys_def at_path_def Let_def split: option.splits)
  qed
  obtain e1 where r1: "r1 = Err e1" using none st look_no_abort by (cases r1) auto
  have "solid (disk w1) cs" using assms(1) same_osD(1)[OF s1] by simp
  then obtain r2 w2 where up: "mkdir_all m (rev cs) w1 = (r2, w2)" "same_os w1 w2" "\<And>a. r2 \<noteq> Abort a"
    using mkdir_all_existing[OF _ pl(1)] by metis
  have s2: "same_os w w2" using s1 up(2) by (rule same_os.frame_trans)
  show thesis
  proof (cases r2)
    case e2: (Err e2)
    then have "os_MkdirAll ?p m w = (Err e2, w2)"
      using st r1 up(1) unfolding body by (simp add: run_simps Let_def)
    then show thesis
      using err[of e2 w2] same_osD[OF s2] same_os_imp(3)[OF s2] by simp
  next
    case (Ok x)
    have "resolve False w2 ?p = Inr (cs @ [c])" "cs @ [c] \<noteq> []"
      using assms(1) pl same_osD(1)[OF s2] by simp_all
    then show thesis
    proof (cases rule: os_Mkdir_cases[where m = m])
      case mk: (err e3 w3)
      obtain r4 w4 where ls: "os_Lstat ?p w3 = (r4, w4)" by fastforce
      have s4: "same_os w w4"
        using same_os.frame_trans[OF s2 same_os.frame_trans[OF mk(2) keepsD[OF keeps_look(2) ls]]] .
      have "\<And>i. r4 \<noteq> Ok i"
      proof
        fix i assume "r4 = Ok i"
        moreover have "disk w3 = disk w" using same_osD(1)[OF s2] same_osD(1)[OF mk(2)] by simp
        moreover have "resolve False w3 ?p = Inr (cs @ [c])"
          using assms(1) pl \<open>disk w3 = disk w\<close> by simp
        ultimately show False
          using ls assms(3)
          by (auto simp: os_Lstat_def stat_with_def sys_def at_path_def Let_def split: option.splits)
      qed
      then have "os_MkdirAll ?p m w = (Err e3, w4)"
        using st r1 up(1) Ok mk(1) ls look_no_abort unfolding body
        by (cases r4) (auto simp: run_simps Let_def)
      then show thesis
        using err[of e3 w4] same_osD[OF s4] same_os_imp(3)[OF s4] by simp
    next
      case mk: (ok i w3)
      then have "os_MkdirAll ?p m w = (Ok (), w3)"
        using st r1 up(1) Ok unfolding body by (simp add: run_simps Let_def)
      then show thesis
        using ok[of w3 i] mk same_osD[OF s2] same_locks.frame_trans[OF same_os_imp(3)[OF s2] mk(2)]
        by simp
    qed
  qed (use up in auto)
qed

section \<open>Staging\<close>

definition inventory_loc :: "build \<Rightarrow> Userdata \<Rightarrow> loc" where
  "inventory_loc b usrdata = user_loc b usrdata @ [''inventory'']"

definition stage_loc :: "build \<Rightarrow> Userdata \<Rightarrow> string \<Rightarrow> loc" where
  "stage_loc b usrdata name = inventory_loc b usrdata @ [name @ StageSuffix]"

definition container_loc :: "build \<Rightarrow> Userdata \<Rightarrow> string \<Rightarrow> loc" where
  "container_loc b usrdata name = inventory_loc b usrdata @ [name]"

lemma inventory_plain [simp]: "layout_ok b u \<Longrightarrow> list_all plain (inventory_loc b u)"
  by (simp add: inventory_loc_def)

lemma container_path:
  "layout_ok b u \<Longrightarrow> plain name \<Longrightarrow> ContainerData b u name = path_of (container_loc b u name)"
  by (simp add: ContainerData_eq container_loc_def inventory_loc_def)

lemma stage_path:
  "layout_ok b u \<Longrightarrow> plain name \<Longrightarrow> ContainerData b u name @ StageSuffix = path_of (stage_loc b u name)"
  by (simp add: container_path container_loc_def stage_loc_def path_of_snoc_append)

text \<open>Outside the tree at \<open>p\<close> nothing changed.\<close>

definition only_below :: "loc \<Rightarrow> world \<Rightarrow> world \<Rightarrow> bool" where
  "only_below p w w' \<longleftrightarrow> cwd w' = cwd w \<and> same_locks w w' \<and>
     (\<forall>q. \<not> prefix p q \<longrightarrow> fs_get (disk w') q = fs_get (disk w) q)"

interpretation only_below: frame "only_below p"
  by unfold_locales (auto simp: only_below_def same_locks_def)

lemma only_below_same_os: "same_os w w' \<Longrightarrow> only_below p w w'"
  by (simp add: only_below_def same_osD same_os_imp(3))

lemma only_below_solid: "solid (disk w) cs \<Longrightarrow> only_below (cs @ [c]) w w' \<Longrightarrow> solid (disk w') cs"
proof (rule solid_cong)
  fix q assume "only_below (cs @ [c]) w w'" and "prefix q cs"
  moreover have "\<not> prefix (cs @ [c]) q"
  proof
    assume "prefix (cs @ [c]) q"
    then have "prefix (cs @ [c]) cs" using \<open>prefix q cs\<close> by (rule prefix_order.trans)
    then show False by (auto dest: prefix_length_le)
  qed
  ultimately show "fs_get (disk w') q = fs_get (disk w) q"
    by (simp add: only_below_def)
qed

lemma only_below_one:
  assumes "same_locks w w'" and "cwd w' = cwd w"
    and "\<forall>q. q \<noteq> p @ x \<longrightarrow> fs_get (disk w') q = fs_get (disk w) q"
  shows "only_below p w w'"
  using assms unfolding only_below_def by (metis prefixI)

lemma dir_at_get: "dir_at t q \<longleftrightarrow> (\<exists>i. fs_get t q = Some i \<and> is_dir i)"
  by (auto simp: dir_at_def split: option.splits)

text \<open>Filling a fresh staged directory.\<close>

lemma fill_staged:
  assumes "solid (disk w) cs" and "list_all plain (cs @ [c])" and "\<forall>q. prefix (cs @ [c]) q \<longrightarrow> fs_get (disk w) q = None"
  and run: "seq (wrap m1 (os_MkdirAll (path_of (cs @ [c])) 493)) (\<lambda>_.
         seq (wrap m2 (os_MkdirAll (path_of (cs @ [c, ''storage''])) 493)) (\<lambda>_.
         seq (wrap m3 (writeConfigToNewFile conf (path_of (cs @ [c, ''config.json''])))) (\<lambda>_. ret x))) w = (r, w')"
  shows "only_below (cs @ [c]) w w' \<and> (case r of
      Ok y \<Rightarrow> y = x \<and> dir_at (disk w') (cs @ [c]) \<and> dir_at (disk w') (cs @ [c, ''storage'']) \<and>
        (\<exists>i. fs_get (disk w') (cs @ [c, ''config.json'']) = Some i \<and> i_kind i = Regular (Doc (encode_config conf)))
    | Err _ \<Rightarrow> True | Abort _ \<Rightarrow> False)"
proof -
  let ?s = "cs @ [c]" and ?st = "(cs @ [c]) @ [''storage'']" and ?cf = "(cs @ [c]) @ [''config.json'']"
  have eqs: "cs @ [c, ''storage''] = ?st" "cs @ [c, ''config.json''] = ?cf" by simp_all
  have pl: "list_all plain ?s" "list_all plain ?st" "list_all plain ?cf" using assms(2) by simp_all
  have fresh: "fs_get (disk w) ?s = None" using assms(3) by simp
  from assms(1) pl(1) fresh show ?thesis
  proof (cases rule: os_MkdirAll_child[where m = 493])
    case (err e w1)
    then have "r = Err (Wrapped m1 e)" "w' = w1" using run by (simp_all add: run_simps)
    then show ?thesis using err(2-) by (auto simp: only_below_def)
  next
    case (ok i w1)
    have b1: "only_below ?s w w1" using ok(2-4) by (auto simp: only_below_def)
    have sol: "solid (disk w1) ?s"
      unfolding solid_snoc using assms(1) ok(4,5) by (auto simp: dir_at_get)
    have "fs_get (disk w1) ?st = None" using assms(3) ok(4) by simp
    from sol pl(2) this show ?thesis
    proof (cases rule: os_MkdirAll_child[where m = 493])
      case e2: (err e w2)
      then have "r = Err (Wrapped m2 e)" "w' = w2" using run ok(1) unfolding eqs by (simp_all add: run_simps)
      moreover have "only_below ?s w1 w2" using only_below_one[OF e2(2-4)] .
      ultimately show ?thesis using only_below.frame_trans[OF b1] by simp
    next
      case o2: (ok j w2)
      have b2: "only_below ?s w1 w2"
        using only_below_one[of w1 w2 ?s "[''storage'']"] o2(2-4) by simp
      have sol2: "solid (disk w2) ?s"
        using solid_put_below[OF sol, of "''storage''" "[]" j] o2(4) by simp
      have "fs_get (disk w2) ?cf = None" using assms(3) ok(4) o2(4) by simp
      then have "resolve True w2 (path_of ?cf) = Inr ?cf" "?cf \<noteq> []"
        using resolve_no_link[OF sol2 pl(1), of "''config.json''" True] by (simp_all add: no_link_def)
      then show ?thesis
      proof (cases rule: writeConfig_cases[where config = conf])
        case e3: (err e w3)
        then have "r = Err (Wrapped m3 e)" "w' = w3"
          using run ok(1) o2(1) unfolding eqs by (simp_all add: run_simps)
        moreover have "only_below ?s w2 w3" using only_below_one[OF e3(2,4,3)] .
        ultimately show ?thesis
          using only_below.frame_trans[OF only_below.frame_trans[OF b1 b2]] by simp
      next
        case o3: (ok k w3)
        then have rw: "r = Ok x" "w' = w3"
          using run ok(1) o2(1) unfolding eqs by (simp_all add: run_simps)
        have "only_below ?s w2 w3" using only_below_one[OF o3(2,4,3)] .
        moreover have "dir_at (disk w3) ?s" "dir_at (disk w3) ?st"
          using o3(3) sol2 o2(4,5) by (auto simp: solid_snoc dir_at_get)
        ultimately show ?thesis
          using rw o3(5,6) only_below.frame_trans[OF only_below.frame_trans[OF b1 b2]]
          unfolding eqs by simp
      qed
    qed
  qed
qed

lemma CreateStaged_effect:
  assumes lay: "layout_ok b u" and sol: "solid (disk w) (inventory_loc b u)"
    and run: "CreateStaged b u name conf w = (r, w')"
  shows "only_below (stage_loc b u name) w w' \<and> (case r of
      Ok ct \<Rightarrow> validateName name = None \<and> ct = \<lparr>Name = name, Path = path_of (stage_loc b u name), Cfg = conf\<rparr> \<and>
        dir_at (disk w') (stage_loc b u name) \<and> dir_at (disk w') (stage_loc b u name @ [''storage'']) \<and>
        (\<exists>i. fs_get (disk w') (stage_loc b u name @ [''config.json'']) = Some i \<and>
             i_kind i = Regular (Doc (encode_config conf)))
    | Err _ \<Rightarrow> True | Abort _ \<Rightarrow> False)"
proof (cases rule: check_cases[of "validateName name"])
  case (bad e)
  then have "r = Err e" "w' = w" using run by (simp_all add: CreateStaged_def fail_def)
  then show ?thesis by (simp add: only_below.frame_refl)
next
  case ok
  let ?cs = "inventory_loc b u" and ?c = "name @ StageSuffix"
  have pl: "plain name" "plain ?c" using ok(1) validateName_plain staged_name_plain by simp_all
  have stage: "stage_loc b u name = ?cs @ [?c]" by (simp add: stage_loc_def)
  have paths: "ContainerData b u name @ StageSuffix = path_of (?cs @ [?c])"
      "path_join [path_of (?cs @ [?c]), ''storage''] = path_of (?cs @ [?c, ''storage''])"
      "path_join [path_of (?cs @ [?c]), configJson] = path_of (?cs @ [?c, ''config.json''])"
    using stage_path[OF lay pl(1)] lay pl(2) by (simp_all add: stage configJson_def)
  obtain r1 w1 where st: "os_Stat (path_join [ContainerData b u name, configJson]) w = (r1, w1)" by fastforce
  have s1: "same_os w w1" using keepsD[OF keeps_look(1) st] .
  show ?thesis
  proof (cases r1)
    case (Ok i)
    then show ?thesis
      using run ok st only_below_same_os[OF s1]
      by (auto simp: CreateStaged_def run_simps Let_def)
  next
    case (Err e)
    have body: "CreateStaged b u name conf w = seq
         (wrap ''failed to remove old staged container'' (unless_missing (os_RemoveAll (path_of (?cs @ [?c]))))) (\<lambda>_.
         seq (wrap ''failed to create container directory'' (os_MkdirAll (path_of (?cs @ [?c])) 493)) (\<lambda>_.
         seq (wrap ''failed to create container storage directory''
                (os_MkdirAll (path_of (?cs @ [?c, ''storage''])) 493)) (\<lambda>_.
         seq (wrap ''failed to write container config''
                (writeConfigToNewFile conf (path_of (?cs @ [?c, ''config.json''])))) (\<lambda>_.
         ret \<lparr>Name = name, Path = path_of (?cs @ [?c]), Cfg = conf\<rparr>)))) w1"
      using ok st Err by (simp add: CreateStaged_def Let_def paths seq_def[of "attempt _"] attempt_def)
    have sol1: "solid (disk w1) ?cs" using sol same_osD(1)[OF s1] by simp
    then have "resolve False w1 (path_of (?cs @ [?c])) = Inr (?cs @ [?c])" using lay pl by simp
    then show ?thesis
    proof (cases rule: os_RemoveAll_cases)
      case e2: (err e w2)
      have b2: "only_below (?cs @ [?c]) w w2"
        using only_below_same_os[OF s1] e2 by (auto simp: only_below_def same_locks_def)
      have "r = Err (Wrapped ''failed to remove old staged container'' e)" "w' = w2"
        using run e2(1,6) unfolding body by (simp_all add: run_simps)
      then show ?thesis using b2 stage by simp
    next
      case (ok w2)
      have b2: "only_below (?cs @ [?c]) w w2"
        using only_below_same_os[OF s1] ok by (auto simp: only_below_def same_locks_def)
      have sol2: "solid (disk w2) ?cs" by (rule only_below_solid[OF sol b2])
      have run2: "seq (wrap ''failed to create container directory'' (os_MkdirAll (path_of (?cs @ [?c])) 493)) (\<lambda>_.
         seq (wrap ''failed to create container storage directory''
                (os_MkdirAll (path_of (?cs @ [?c, ''storage''])) 493)) (\<lambda>_.
         seq (wrap ''failed to write container config''
                (writeConfigToNewFile conf (path_of (?cs @ [?c, ''config.json''])))) (\<lambda>_.
         ret \<lparr>Name = name, Path = path_of (?cs @ [?c]), Cfg = conf\<rparr>))) w2 = (r, w')"
        using run ok(1) unfolding body by (simp add: run_simps)
      have "list_all plain (?cs @ [?c])" "\<forall>q. prefix (?cs @ [?c]) q \<longrightarrow> fs_get (disk w2) q = None"
        using lay pl ok(4) by simp_all
      from fill_staged[OF sol2 this run2] show ?thesis
        using only_below.frame_trans[OF b2] stage \<open>validateName name = None\<close>
        by (auto split: res.splits)
    qed
  qed (use st look_no_abort in blast)
qed

section \<open>Publishing\<close>

text \<open>The container value that staging hands on.\<close>

definition staged :: "build \<Rightarrow> Userdata \<Rightarrow> string \<Rightarrow> Config \<Rightarrow> Container" where
  "staged b usrdata name conf = \<lparr>Name = name, Path = path_of (stage_loc b usrdata name), Cfg = conf\<rparr>"

lemma Staged_path: "Staged ct \<longleftrightarrow> has_suffix (Path ct) StageSuffix"
  by (simp add: Staged_def)

lemma Unstage_renames:
  assumes "layout_ok b u" and "validateName name = None" and "Name ct = name"
    and "Path ct = path_of (stage_loc b u name)"
  shows "Unstage ct = os_Rename (path_of (stage_loc b u name)) (path_of (container_loc b u name))"
proof -
  have pl: "plain name" "plain (name @ StageSuffix)"
    using assms(2) validateName_plain staged_name_plain by simp_all
  have "Path ct = path_of (container_loc b u name) @ StageSuffix"
    using assms(1,4) pl(1) stage_path container_path by simp
  then have "Staged ct" by (simp add: Staged_path has_suffix_iff)
  then show ?thesis
    using assms pl by (simp add: Unstage_def Rename_def stage_loc_def container_loc_def)
qed

lemma Unstage_effect:
  assumes lay: "layout_ok b u" and sol: "solid (disk w) (inventory_loc b u)"
    and valid: "validateName name = None"
    and ct: "Name ct = name" "Path ct = path_of (stage_loc b u name)"
    and run: "Unstage ct w = (r, w')"
  shows "same_locks w w' \<and> cwd w' = cwd w \<and> (case r of
      Ok _ \<Rightarrow> (\<forall>rest. fs_get (disk w') (container_loc b u name @ rest) = fs_get (disk w) (stage_loc b u name @ rest)) \<and>
        (\<forall>q. \<not> prefix (container_loc b u name) q \<longrightarrow>
           fs_get (disk w') q = (if prefix (stage_loc b u name) q then None else fs_get (disk w) q)) \<and>
        \<not> (dir_at (disk w) (container_loc b u name))
    | Err _ \<Rightarrow> disk w' = disk w
    | Abort _ \<Rightarrow> False)"
proof -
  let ?a = "stage_loc b u name" and ?b = "container_loc b u name"
  have pl: "plain name" "plain (name @ StageSuffix)"
    using valid validateName_plain staged_name_plain by simp_all
  have ab: "\<not> prefix ?a ?b" "\<not> prefix ?b ?a" "?a \<noteq> []" "?b \<noteq> []"
    by (simp_all add: stage_loc_def container_loc_def StageSuffix_def)
  have "resolve False w (path_of ?a) = Inr ?a" "resolve False w (path_of ?b) = Inr ?b"
    using sol lay pl by (simp_all add: stage_loc_def container_loc_def)
  then show ?thesis
    using ab(3,4,1)
  proof (cases rule: os_Rename_cases)
    case (err e w1)
    then show ?thesis
      using run Unstage_renames[OF lay valid ct] same_osD[OF err(2)] same_os_imp(3)[OF err(2)] by auto
  next
    case (ok i w1)
    then have "r = Ok ()" "w' = w1" using run Unstage_renames[OF lay valid ct] by simp_all
    moreover have "fs_get (disk w1) (?b @ rest) = fs_get (disk w) (?a @ rest)" for rest
      using ok(4) disk.get_move_dest[OF ab(1,2)] by simp
    moreover have "fs_get (disk w1) q = (if prefix ?a q then None else fs_get (disk w) q)"
      if "\<not> prefix ?b q" for q
      using ok(4) disk.get_move[OF ab(1,2)] that by simp
    moreover have "\<not> dir_at (disk w) ?b" using ok(7) by (auto simp: dir_at_get)
    ultimately show ?thesis using ok(2,3) by simp
  qed
qed

text \<open>
  C6: building a container never disturbs anything but its own staging directory.
  Whatever call fails, every other file and all locks are what they were; on
  success the staging directory holds the storage directory and the complete
  configuration, under a name that listing skips and opening refuses.
\<close>

theorem CreateStaged_isolated:
  assumes "layout_ok b u" and "solid (disk w) (inventory_loc b u)"
    and "CreateStaged b u name conf w = (r, w')"
  shows "same_locks w w' \<and>
    (\<forall>q. \<not> prefix (stage_loc b u name) q \<longrightarrow> fs_get (disk w') q = fs_get (disk w) q) \<and>
    (case r of
      Ok ct \<Rightarrow> validateName name = None \<and> validateName (name @ StageSuffix) \<noteq> None \<and>
        ct = staged b u name conf \<and> Staged ct \<and>
        dir_at (disk w') (stage_loc b u name @ [''storage'']) \<and>
        (\<exists>i. fs_get (disk w') (stage_loc b u name @ [''config.json'']) = Some i \<and>
             i_kind i = Regular (Doc (encode_config conf)))
    | Err _ \<Rightarrow> True | Abort _ \<Rightarrow> False)"
proof -
  have "Staged (staged b u name conf)" if "validateName name = None"
    using stage_path[OF assms(1) validateName_plain[OF that]]
    by (metis Container.select_convs(2) Staged_path has_suffix_iff staged_def)
  moreover have "validateName (name @ StageSuffix) \<noteq> None"
    using valid_name_not_staged by (auto simp: has_suffix_iff)
  ultimately show ?thesis
    using CreateStaged_effect[OF assms] by (auto simp: staged_def only_below_def split: res.splits)
qed

text \<open>
  Publishing is one step: \<^verbatim>\<open>Unstage\<close> either changes no file at all, or moves the
  whole staging tree to the container's own name, where no container directory was
  before; nothing is left behind and nothing else changes.
\<close>

theorem Unstage_atomic:
  assumes "layout_ok b u" and "solid (disk w) (inventory_loc b u)" and "validateName name = None"
    and "Unstage (staged b u name conf) w = (r, w')"
  shows "case r of
      Ok _ \<Rightarrow> \<not> dir_at (disk w) (container_loc b u name) \<and>
        (\<forall>rest. fs_get (disk w') (container_loc b u name @ rest) = fs_get (disk w) (stage_loc b u name @ rest)) \<and>
        (\<forall>q. \<not> prefix (container_loc b u name) q \<longrightarrow>
           fs_get (disk w') q = (if prefix (stage_loc b u name) q then None else fs_get (disk w) q))
    | Err _ \<Rightarrow> disk w' = disk w
    | Abort _ \<Rightarrow> False"
  using Unstage_effect[OF assms(1-3) _ _ assms(4)] by (auto simp: staged_def split: res.splits)

text \<open>
  C8: round trip: a container that was staged and published opens under its name
  with the configuration it was created with (an empty image field reads as the
  legacy \<^verbatim>\<open>fedora:30\<close>).
\<close>

theorem create_Open_round_trip:
  assumes "layout_ok b u" and "solid (disk w) (inventory_loc b u)"
    and "CreateStaged b u name conf w = (Ok ct, w1)" and "Unstage ct w1 = (Ok (), w2)" and "calm w2"
  shows "fst (Open b u name w2) =
    Ok \<lparr>Name = name, Path = ContainerData b u name, Cfg = legacy_image conf\<rparr>"
proof -
  note c = CreateStaged_effect[OF assms(1-3)]
  then have valid: "validateName name = None" and ct: "Name ct = name" "Path ct = path_of (stage_loc b u name)"
    by auto
  have pl: "plain name" using valid by (rule validateName_plain)
  have sol1: "solid (disk w1) (inventory_loc b u)"
    by (rule only_below_solid[OF assms(2), of "name @ StageSuffix"]) (use c in \<open>simp add: stage_loc_def\<close>)
  note u = Unstage_effect[OF assms(1) sol1 valid ct assms(4)]
  let ?b = "container_loc b u name"
  have moved: "fs_get (disk w2) (?b @ rest) = fs_get (disk w1) (stage_loc b u name @ rest)" for rest
    using u by simp
  have "solid (disk w2) (inventory_loc b u)"
  proof (rule solid_cong[OF sol1])
    fix q assume "prefix q (inventory_loc b u)"
    then have "length q \<le> length (inventory_loc b u)" by (rule prefix_length_le)
    then have "\<not> prefix (container_loc b u name) q" "\<not> prefix (stage_loc b u name) q"
      by (auto simp: container_loc_def stage_loc_def dest: prefix_length_le)
    then show "fs_get (disk w2) q = fs_get (disk w1) q" using u by simp
  qed
  then have sol2: "solid (disk w2) ?b"
    using moved[of "[]"] c by (simp add: container_loc_def solid_snoc dir_at_get)
  obtain i where i: "fs_get (disk w2) (?b @ [''config.json'']) = Some i"
    "i_kind i = Regular (Doc (encode_config conf))"
    using moved[of "[''config.json'']"] c by auto
  have plb: "list_all plain ?b" using assms(1) pl by (simp add: container_loc_def)
  have "resolve True w2 (path_join [ContainerData b u name, configJson]) = Inr (?b @ [''config.json''])"
    using resolve_no_link[OF sol2 plb, of "''config.json''" True] i plb
    by (simp add: container_path[OF assms(1) pl] configJson_def no_link_def)
  then obtain w3 where "OpenPath (ContainerData b u name) name w2 =
      (Ok \<lparr>Name = name, Path = ContainerData b u name, Cfg = legacy_image conf\<rparr>, w3)"
    using OpenPath_reads[OF assms(5) _ _ i] by (metis snoc_eq_iff_butlast)
  then show ?thesis using valid by (simp add: Open_def check_def)
qed

end
