(* ===== verification/Container_Locks.thy ===== *)
theory Container_Locks
  imports Container_Ops
begin

text \<open>
  What the container locks guarantee: the lock files a level uses, the exact
  effect of taking one level, of taking all of them and of giving them up, and
  the deletion that runs under them.
\<close>

section \<open>The descriptor table\<close>

text \<open>Open descriptors are below \<open>next_fd\<close>, and the locks we hold are held by open descriptors.\<close>

definition fds_ok :: "world \<Rightarrow> bool" where
  "fds_ok w \<longleftrightarrow> (\<forall>fd. fds w fd \<noteq> None \<longrightarrow> fd < next_fd w) \<and>
     (\<forall>n fd. flocks w n = Some (Mine fd) \<longrightarrow> fds w fd = Some n)"

lemma fds_okD:
  assumes "fds_ok w"
  shows "fds w (next_fd w) = None" "flocks w n \<noteq> Some (Mine (next_fd w))"
    "next_fd w \<le> fd \<Longrightarrow> fds w fd = None"
proof -
  show a: "next_fd w \<le> fd \<Longrightarrow> fds w fd = None" for fd
    using assms by (meson fds_ok_def leD)
  then show "fds w (next_fd w) = None" by simp
  show "flocks w n \<noteq> Some (Mine (next_fd w))"
    using assms a[of "next_fd w"] by (auto simp: fds_ok_def)
qed

lemma fds_ok_same_locks: "fds_ok w \<Longrightarrow> same_locks w w' \<Longrightarrow> fds_ok w'"
  by (simp add: fds_ok_def same_locks_def)

text \<open>\<open>more_fds\<close>: descriptors were opened, none of the old ones closed; the locks are the same.\<close>

definition more_fds :: "world \<Rightarrow> world \<Rightarrow> bool" where
  "more_fds w w' \<longleftrightarrow> flocks w' = flocks w \<and> next_fd w \<le> next_fd w' \<and>
     (\<forall>fd. fd < next_fd w \<longrightarrow> fds w' fd = fds w fd) \<and> (fds_ok w \<longrightarrow> fds_ok w')"

interpretation more_fds: frame more_fds
  by unfold_locales (auto simp: more_fds_def)

lemma more_fds_same_locks: "same_locks w w' \<Longrightarrow> more_fds w w'"
  by (auto simp: more_fds_def same_locks_def fds_ok_def)

section \<open>One level\<close>

definition lock_loc :: "loc \<Rightarrow> LockLevel \<Rightarrow> loc" where
  "lock_loc cs level = (if level = FullContainerLock then cs else cs @ [lock_name level @ ''.lock''])"

definition lockable :: "Container \<Rightarrow> loc \<Rightarrow> world \<Rightarrow> bool" where
  "lockable ct cs w \<longleftrightarrow> located ct cs w \<and> cs \<noteq> [] \<and>
     list_all (\<lambda>level. no_link (disk w) (lock_loc cs level)) lower_levels"

lemma lock_name_plain [simp]: "plain (lock_name level @ ''.lock'')"
  by (cases level) (simp_all add: plain_def)

lemma lock_loc_nonempty [simp]: "cs \<noteq> [] \<Longrightarrow> lock_loc cs level \<noteq> []"
  by (simp add: lock_loc_def)

lemma lock_loc_inj [simp]: "lock_loc cs a = lock_loc cs b \<longleftrightarrow> a = b"
  by (cases a; cases b) (auto simp: lock_loc_def)

lemma lock_loc_below [simp]: "prefix cs (lock_loc cs level)"
  by (simp add: lock_loc_def)

text \<open>Nothing outside the lock file of the level differs, and that file keeps its inode.\<close>

definition same_but_lock :: "loc \<Rightarrow> LockLevel \<Rightarrow> world \<Rightarrow> world \<Rightarrow> bool" where
  "same_but_lock cs level w w' \<longleftrightarrow> cwd w' = cwd w \<and>
     (\<forall>q. q \<noteq> lock_loc cs level \<or> level = FullContainerLock \<longrightarrow> fs_get (disk w') q = fs_get (disk w) q) \<and>
     (\<forall>i. fs_get (disk w) (lock_loc cs level) = Some i \<longrightarrow>
        (\<exists>j. fs_get (disk w') (lock_loc cs level) = Some j \<and> i_ino j = i_ino i)) \<and>
     (no_link (disk w) (lock_loc cs level) \<longrightarrow> no_link (disk w') (lock_loc cs level))"

interpretation same_but_lock: frame "same_but_lock cs level"
proof unfold_locales
  show "same_but_lock cs level s s" for s
    by (simp add: same_but_lock_def)
  show "same_but_lock cs level s u" if "same_but_lock cs level s t" "same_but_lock cs level t u" for s t u
    using that unfolding same_but_lock_def by metis
qed

lemma same_but_lock_disk: "same_disk w w' \<Longrightarrow> same_but_lock cs level w w'"
  by (simp add: same_but_lock_def same_disk_def)

lemma lock_file_cases:
  assumes "lockable ct cs w"
  obtains (err) e w' where
      "lock_level ct level wait w = (Err e, w')" "more_fds w w'" "same_but_lock cs level w w'"
  | (opened) w1 w2 i where "lock_level ct level wait w =
        seq (on_err (unix_Flock (next_fd w) (wait = NoWaitForLock)) (\<lambda>e. fail (flock_error e)))
          (\<lambda>_. ret (next_fd w)) w2"
      "same_locks w w1" "same_but_lock cs level w w1" "same_disk w1 w2"
      "fs_get (disk w2) (lock_loc cs level) = Some i" "flocks w2 = flocks w"
      "fds w2 = (fds w)(next_fd w := Some (i_ino i))" "next_fd w2 = Suc (next_fd w)"
proof -
  let ?q = "lock_loc cs level"
  from assms have loc: "located ct cs w" and ne: "cs \<noteq> []" by (simp_all add: lockable_def)
  note l = locatedD[OF loc]
  let ?path = "if level = FullContainerLock then Path ct
     else path_join [Path ct, lock_name level @ ''.lock'']"
  have path: "?path = path_of ?q"
    using l by (simp add: lock_loc_def)
  have nl: "level \<noteq> FullContainerLock \<Longrightarrow> no_link (disk w) ?q"
    using assms by (cases level) (auto simp: lockable_def lower_levels_def)
  let ?create = "if level = FullContainerLock then ret ()
     else seq (wrap (''create '' @ lock_name level @ '' lock file'') (os_Create ?path)) (\<lambda>_. ret ())"
  have body: "lock_level ct level wait w = seq ?create (\<lambda>_.
      seq (wrap ''failed to open container directory'' (unix_Open (path_of ?q) (level = FullContainerLock))) (\<lambda>fd.
      seq (on_err (unix_Flock fd (wait = NoWaitForLock)) (\<lambda>e. fail (flock_error e))) (\<lambda>_. ret fd))) w"
    unfolding lock_level_def Let_def by (simp only: path)
  have create: "(\<exists>e w1. ?create w = (Err e, w1) \<and> same_locks w w1 \<and> same_but_lock cs level w w1) \<or>
      (\<exists>w1. ?create w = (Ok (), w1) \<and> same_locks w w1 \<and> same_but_lock cs level w w1 \<and>
         resolve True w1 (path_of ?q) = Inr ?q)"
  proof (cases "level = FullContainerLock")
    case True
    then show ?thesis
      using l by (simp add: ret_def lock_loc_def resolve_solid same_locks.frame_refl
        same_but_lock.frame_refl)
  next
    case False
    have r: "resolve True w (path_of ?q) = Inr ?q"
      using l nl[OF False] False by (simp add: lock_loc_def resolve_no_link)
    have "?q \<noteq> []" using ne by simp
    with r show ?thesis
    proof (cases rule: os_Create_cases)
      case (err e w1)
      have "same_but_lock cs level w w1"
        by (rule same_but_lock_disk) (simp add: same_os_imp(2)[OF err(2)])
      then show ?thesis
        using False path err(1) same_os_imp(3)[OF err(2)] by (simp add: run_simps)
    next
      case (ok i w1)
      have sbl: "same_but_lock cs level w w1"
        using ok False by (auto simp: same_but_lock_def no_link_def split: option.splits)
      have "solid (disk w1) cs" using l(3) ok(2) False by (simp add: lock_loc_def)
      moreover have "no_link (disk w1) ?q" using ok by (simp add: no_link_def)
      ultimately have "resolve True w1 (path_of ?q) = Inr ?q"
        using l(2) False by (simp add: lock_loc_def resolve_no_link)
      then show ?thesis
        using False path ok sbl by (simp add: run_simps)
    qed
  qed
  then show thesis
  proof (elim disjE exE conjE)
    fix e w1
    assume "?create w = (Err e, w1)" "same_locks w w1" "same_but_lock cs level w w1"
    then show thesis
      using err[of e w1] unfolding body by (simp add: seq_def more_fds_same_locks)
  next
    fix w1
    assume c: "?create w = (Ok (), w1)" and sl: "same_locks w w1"
      and sbl: "same_but_lock cs level w w1" and r: "resolve True w1 (path_of ?q) = Inr ?q"
    have "?q \<noteq> []" using ne by simp
    with r show thesis
    proof (cases rule: unix_Open_cases[where d = "level = FullContainerLock"])
      case o: (err e w2)
      have "lock_level ct level wait w = (Err (Wrapped ''failed to open container directory'' e), w2)"
        unfolding body using c o by (simp add: run_simps)
      moreover have "more_fds w w2"
        using sl same_os_imp(3)[OF o(2)] more_fds_same_locks same_locks.frame_trans by blast
      moreover have "same_but_lock cs level w w2"
        using sbl same_os_imp(2)[OF o(2)] same_but_lock_disk same_but_lock.frame_trans by blast
      ultimately show thesis by (rule err)
    next
      case o: (ok i w2)
      have "same_locks w w1" using sl .
      then have eq: "next_fd w1 = next_fd w" "fds w1 = fds w" "flocks w1 = flocks w"
        by (simp_all add: same_locks_def)
      have "lock_level ct level wait w =
        seq (on_err (unix_Flock (next_fd w) (wait = NoWaitForLock)) (\<lambda>e. fail (flock_error e)))
          (\<lambda>_. ret (next_fd w)) w2"
        unfolding body using c o eq by (simp add: run_simps)
      moreover have "fs_get (disk w2) ?q = Some i" using o by (simp add: same_disk_def)
      ultimately show thesis
        using opened[of w2 w1 i] sl sbl o eq by simp
    qed
  qed
qed


lemma more_fds_open:
  assumes "same_locks w w1" and "flocks w2 = flocks w"
    and "fds w2 = (fds w)(next_fd w := Some n)" and "next_fd w2 = Suc (next_fd w)"
  shows "more_fds w w2"
proof -
  have "fds_ok w2" if "fds_ok w"
    unfolding fds_ok_def
  proof (intro conjI allI impI)
    show "fd < next_fd w2" if "fds w2 fd \<noteq> None" for fd
      using that assms \<open>fds_ok w\<close> by (auto simp: fds_ok_def less_Suc_eq split: if_splits)
    show "fds w2 fd = Some m" if "flocks w2 m = Some (Mine fd)" for m fd
    proof -
      have "fd \<noteq> next_fd w"
        using that assms(2) fds_okD(2)[OF \<open>fds_ok w\<close>] by auto
      then show ?thesis
        using that assms \<open>fds_ok w\<close> by (simp add: fds_ok_def)
    qed
  qed
  then show ?thesis using assms by (auto simp: more_fds_def)
qed

text \<open>Taking one level: it is granted, refused, or waited for.\<close>

lemma lock_level_cases:
  assumes "lockable ct cs w" and "fds_ok w"
  obtains (err) e w' where
      "lock_level ct level wait w = (Err e, w')" "more_fds w w'" "same_but_lock cs level w w'"
  | (blocked) w' i h where
      "lock_level ct level wait w = (Abort Blocked, w')" "more_fds w w'" "same_but_lock cs level w w'"
      "wait = WaitForLock" "fs_get (disk w') (lock_loc cs level) = Some i" "flocks w (i_ino i) = Some h"
  | (ok) i w' where
      "lock_level ct level wait w = (Ok (next_fd w), w')" "same_but_lock cs level w w'"
      "fs_get (disk w') (lock_loc cs level) = Some i" "flocks w (i_ino i) = None"
      "flocks w' = (flocks w)(i_ino i := Some (Mine (next_fd w)))"
      "fds w' = (fds w)(next_fd w := Some (i_ino i))" "next_fd w' = Suc (next_fd w)"
  using assms(1)
proof (cases rule: lock_file_cases[where level = level and wait = wait])
  case (err e w')
  then show thesis by (rule that(1))
next
  case o: (opened w1 w2 i)
  have sbl: "same_but_lock cs level w w2"
    using o same_but_lock_disk same_but_lock.frame_trans by blast
  have m: "more_fds w w2" using o by (blast intro: more_fds_open)
  have "fds w2 (next_fd w) = Some (i_ino i)" using o by simp
  then show thesis
  proof (cases rule: unix_Flock_cases[where nb = "wait = NoWaitForLock"])
    case f: (err e w3)
    have "lock_level ct level wait w = (Err (flock_error e), w3)"
      using o(1) f(1) by (simp add: run_simps)
    moreover have "more_fds w w3"
      using m more_fds_same_locks[OF same_os_imp(3)[OF f(2)]] more_fds.frame_trans by blast
    moreover have "same_but_lock cs level w w3"
      using sbl same_but_lock_disk[OF same_os_imp(2)[OF f(2)]] same_but_lock.frame_trans by blast
    ultimately show thesis by (rule that(1))
  next
    case f: (blocked w3 h)
    have "lock_level ct level wait w = (Abort Blocked, w3)"
      using o(1) f(1) by (simp add: run_simps)
    moreover have "more_fds w w3"
      using m more_fds_same_locks[OF same_os_imp(3)[OF f(2)]] more_fds.frame_trans by blast
    moreover have "same_but_lock cs level w w3"
      using sbl same_but_lock_disk[OF same_os_imp(2)[OF f(2)]] same_but_lock.frame_trans by blast
    moreover have "wait = WaitForLock" using f(3) by (cases wait) auto
    moreover have "fs_get (disk w3) (lock_loc cs level) = Some i"
      using o(5) same_osD(1)[OF f(2)] by simp
    moreover have "flocks w (i_ino i) = Some h" using f(4) o(6) by simp
    ultimately show thesis by (rule that(2))
  next
    case f: (ok w3)
    have "lock_level ct level wait w = (Ok (next_fd w), w3)"
      using o(1) f(1) by (simp add: run_simps)
    moreover have "same_but_lock cs level w w3"
      using sbl same_but_lock_disk[OF f(2)] same_but_lock.frame_trans by blast
    moreover have "fs_get (disk w3) (lock_loc cs level) = Some i"
      using o(5) f(2) by (simp add: same_disk_def)
    moreover have "flocks w (i_ino i) = None"
      using f(6) o(6) fds_okD(2)[OF assms(2)] by auto
    ultimately show thesis using that(3) f o by simp
  qed
qed

lemma lockable_same_but_lock:
  assumes "lockable ct cs w" and "same_but_lock cs level w w'" and "level \<noteq> FullContainerLock"
  shows "lockable ct cs w'"
proof -
  have "solid (disk w') cs"
  proof (rule solid_cong)
    show "solid (disk w) cs" using assms(1) by (simp add: lockable_def located_def)
    fix q assume "prefix q cs"
    then have "q \<noteq> lock_loc cs level"
      using assms(3) by (auto simp: lock_loc_def dest: prefix_length_le)
    then show "fs_get (disk w') q = fs_get (disk w) q"
      using assms(2) by (simp add: same_but_lock_def)
  qed
  moreover have "no_link (disk w') (lock_loc cs l)" if "l \<in> set lower_levels" for l
  proof (cases "l = level")
    case True
    then show ?thesis
      using assms that by (auto simp: lockable_def same_but_lock_def list_all_iff)
  next
    case False
    then have "fs_get (disk w') (lock_loc cs l) = fs_get (disk w) (lock_loc cs l)"
      using assms(2) by (simp add: same_but_lock_def)
    then show ?thesis
      using assms(1) that by (auto simp: lockable_def no_link_def list_all_iff)
  qed
  ultimately show ?thesis
    using assms(1) by (simp add: lockable_def located_def list_all_iff)
qed

lemma lockable_same_disk: "lockable ct cs w \<Longrightarrow> disk w' = disk w \<Longrightarrow> lockable ct cs w'"
  by (simp add: lockable_def located_def)

lemma same_but_full: "same_but_lock cs FullContainerLock w w' \<Longrightarrow> fs_get (disk w') q = fs_get (disk w) q"
  by (simp add: same_but_lock_def)

lemma lockable_cong:
  assumes "lockable ct cs w" and "\<And>q. fs_get (disk w') q = fs_get (disk w) q"
  shows "lockable ct cs w'"
  using assms by (auto simp: lockable_def located_def no_link_def list_all_iff intro: solid_cong)

section \<open>Giving locks up\<close>

text \<open>The lock table without the locks of the given descriptors.\<close>

definition without :: "nat list \<Rightarrow> (nat \<Rightarrow> holder option) \<Rightarrow> nat \<Rightarrow> holder option" where
  "without held locks n = (case locks n of
      Some (Mine fd) \<Rightarrow> if fd \<in> set held then None else Some (Mine fd)
    | h \<Rightarrow> h)"

lemma without_Nil [simp]: "without [] locks = locks"
  by (rule ext) (simp add: without_def split: option.splits holder.splits)

lemma without_Cons: "without (fd # held) locks = without held (without [fd] locks)"
  by (rule ext) (auto simp: without_def split: option.splits holder.splits)

lemma Release_effect:
  assumes "fds_ok w" and "distinct held" and "list_all (\<lambda>fd. fds w fd \<noteq> None) held"
  obtains w' where "Release held w = (Ok (), w')" "same_disk w w'" "fds_ok w'"
    "flocks w' = without held (flocks w)" "next_fd w' = next_fd w"
    "\<forall>fd. fds w' fd = (if fd \<in> set held then None else fds w fd)"
  using assms
proof (induction held arbitrary: w thesis)
  case Nil
  then show ?case by (simp add: Release_def ret_def same_disk.frame_refl)
next
  case (Cons fd held)
  then obtain n where n: "fds w fd = Some n" by auto
  then show ?case
  proof (cases rule: unix_Close_run)
    case (1 r w1)
    have fl: "flocks w1 = without [fd] (flocks w)"
    proof (rule ext)
      fix m
      have "m = n" if "flocks w m = Some (Mine fd)"
        using that n Cons.prems(2) by (auto simp: fds_ok_def)
      then have "flocks w m = Some (Mine fd) \<longleftrightarrow> m = n \<and> flocks w n = Some (Mine fd)"
        by blast
      moreover have "without [fd] (flocks w) m = (if flocks w m = Some (Mine fd) then None else flocks w m)"
        by (simp add: without_def split: option.splits holder.splits)
      ultimately show "flocks w1 m = without [fd] (flocks w) m"
        unfolding 1(6) by simp
    qed
    have ok: "fds_ok w1"
      unfolding fds_ok_def
    proof (intro conjI allI impI)
      show "fd' < next_fd w1" if "fds w1 fd' \<noteq> None" for fd'
        using that 1 Cons.prems(2) by (auto simp: fds_ok_def split: if_splits)
      show "fds w1 fd' = Some m" if "flocks w1 m = Some (Mine fd')" for m fd'
        using that 1(4) fl Cons.prems(2)
        by (auto simp: fds_ok_def without_def split: option.splits holder.splits if_splits)
    qed
    have "list_all (\<lambda>fd. fds w1 fd \<noteq> None) held" "distinct held"
      using Cons.prems 1(4) by (auto simp: list_all_iff)
    from Cons.IH[OF _ ok this(2,1)] obtain w2 where w2: "Release held w1 = (Ok (), w2)"
      "same_disk w1 w2" "fds_ok w2" "flocks w2 = without held (flocks w1)" "next_fd w2 = next_fd w1"
      "\<forall>x. fds w2 x = (if x \<in> set held then None else fds w1 x)" by blast
    have "Release (fd # held) w = Release held w1"
      using 1(1,2) by (auto simp: Release_def run_simps)
    then show ?thesis
      using Cons.prems(1)[of w2] w2 1 fl same_disk.frame_trans[of w w1 w2]
        without_Cons[of fd held "flocks w"]
      by simp
  qed
qed


section \<open>All levels\<close>

text \<open>Only the contents of the container's lock files may differ.\<close>

definition same_but_locks :: "loc \<Rightarrow> world \<Rightarrow> world \<Rightarrow> bool" where
  "same_but_locks cs w w' \<longleftrightarrow> cwd w' = cwd w \<and>
     (\<forall>q. (\<forall>level\<in>set lower_levels. q \<noteq> lock_loc cs level) \<longrightarrow> fs_get (disk w') q = fs_get (disk w) q) \<and>
     (\<forall>q i. fs_get (disk w) q = Some i \<longrightarrow>
        (\<exists>j. fs_get (disk w') q = Some j \<and> i_ino j = i_ino i))"

interpretation same_but_locks: frame "same_but_locks cs"
proof unfold_locales
  show "same_but_locks cs s s" for s
    by (simp add: same_but_locks_def)
  show "same_but_locks cs s u" if "same_but_locks cs s t" "same_but_locks cs t u" for s t u
    using that unfolding same_but_locks_def by metis
qed

lemma level_lower: "level = FullContainerLock \<or> level \<in> set lower_levels"
  by (cases level) (auto simp: lower_levels_def)

lemma same_but_locks_level: "same_but_lock cs level w w' \<Longrightarrow> same_but_locks cs w w'"
  using level_lower[of level] unfolding same_but_lock_def same_but_locks_def by metis

lemma same_but_locks_disk: "same_disk w w' \<Longrightarrow> same_but_locks cs w w'"
  by (simp add: same_but_locks_def same_disk_def)

text \<open>Every listed level is locked through one of the descriptors.\<close>

definition holds :: "loc \<Rightarrow> LockLevel list \<Rightarrow> nat list \<Rightarrow> world \<Rightarrow> bool" where
  "holds cs levels held w \<longleftrightarrow> (\<forall>level\<in>set levels. \<exists>fd\<in>set held. \<exists>i.
     fs_get (disk w) (lock_loc cs level) = Some i \<and> flocks w (i_ino i) = Some (Mine fd))"

definition all_open :: "nat list \<Rightarrow> world \<Rightarrow> bool" where
  "all_open held w \<longleftrightarrow> distinct held \<and> list_all (\<lambda>fd. fds w fd \<noteq> None) held"

lemma without_fresh:
  assumes "fds_ok w" and "flocks w n = None"
  shows "without (held @ [next_fd w]) ((flocks w)(n := Some (Mine (next_fd w)))) = without held (flocks w)"
  using assms(2) fds_okD(2)[OF assms(1)]
  by (intro ext) (auto simp: without_def split: option.splits holder.splits)

lemma fds_ok_taken:
  assumes "fds_ok w" and "flocks w' = (flocks w)(n := Some (Mine (next_fd w)))"
    and "fds w' = (fds w)(next_fd w := Some n)" and "next_fd w' = Suc (next_fd w)"
  shows "fds_ok w'"
  unfolding fds_ok_def
proof (intro conjI allI impI)
  show "fd < next_fd w'" if "fds w' fd \<noteq> None" for fd
    using that assms by (auto simp: fds_ok_def less_Suc_eq split: if_splits)
  show "fds w' fd = Some m" if "flocks w' m = Some (Mine fd)" for m fd
    using that assms fds_okD(2)[OF assms(1), of m]
    by (cases "m = n"; cases "fd = next_fd w") (auto simp: fds_ok_def)
qed

lemma all_open_more: "all_open held w \<Longrightarrow> fds_ok w \<Longrightarrow> more_fds w w' \<Longrightarrow> all_open held w'"
  by (auto simp: all_open_def more_fds_def list_all_iff fds_ok_def)

lemma Release_all_open:
  assumes "fds_ok w" and "all_open held w"
  obtains w' where "Release held w = (Ok (), w')" "same_disk w w'" "fds_ok w'"
    "flocks w' = without held (flocks w)"
  using Release_effect[of w held] assms by (auto simp: all_open_def)

lemma lock_sublevels_outcome:
  assumes "lock_sublevels ct wait held levels w = (r, w')"
    and "lockable ct cs w" and "fds_ok w" and "all_open held w" and "distinct (map (lock_loc cs) levels)"
    and "FullContainerLock \<notin> set levels" and "holds cs done held w"
  shows "same_but_locks cs w w' \<and> lockable ct cs w' \<and> fds_ok w' \<and>
    (\<forall>n p. flocks w n = Some (Theirs p) \<longrightarrow> flocks w' n = Some (Theirs p)) \<and>
    (case r of
       Ok held' \<Rightarrow> all_open held' w' \<and> holds cs (done @ levels) held' w' \<and>
         without held' (flocks w') = without held (flocks w)
     | Err e \<Rightarrow> flocks w' = without held (flocks w)
     | Abort a \<Rightarrow> a = Blocked \<and> wait = WaitForLock)"
  using assms
proof (induction levels arbitrary: held w "done")
  case Nil
  then show ?case by (auto simp: ret_def same_but_locks.frame_refl)
next
  case (Cons level levels)
  from Cons.prems(2,3) show ?case
  proof (cases rule: lock_level_cases[where level = level and wait = wait])
    case (err e w1)
    have ok1: "fds_ok w1" using err(2) Cons.prems(3) by (simp add: more_fds_def)
    obtain w2 where rel: "Release held w1 = (Ok (), w2)" "same_disk w1 w2" "fds_ok w2"
      "flocks w2 = without held (flocks w1)"
      using Release_all_open[OF ok1 all_open_more[OF Cons.prems(4,3) err(2)]] .
    have fl: "flocks w2 = without held (flocks w)"
      using rel(4) err(2) by (simp add: more_fds_def)
    have "r = Err (Wrapped (''locking lower level lock '' @ show_nat (level_index level)) e)" "w' = w2"
      using Cons.prems(1) err(1) rel(1) by (simp_all add: run_simps)
    moreover have "same_but_locks cs w w2"
      using same_but_locks_level[OF err(3)] same_but_locks_disk[OF rel(2)]
        same_but_locks.frame_trans by blast
    moreover have "lockable ct cs w2"
      using lockable_same_but_lock[OF Cons.prems(2) err(3)] Cons.prems(6) rel(2)
      by (auto simp: same_disk_def intro: lockable_same_disk)
    ultimately show ?thesis
      using fl rel(3) by (auto simp: without_def)
  next
    case (blocked w1 i h)
    then have "r = Abort Blocked" "w' = w1"
      using Cons.prems(1) by (simp_all add: run_simps)
    then show ?thesis
      using blocked Cons.prems(3,6) lockable_same_but_lock[OF Cons.prems(2) blocked(3)]
        same_but_locks_level[OF blocked(3)] by (auto simp: more_fds_def)
  next
    case (ok i w1)
    let ?fd = "next_fd w"
    have run: "lock_sublevels ct wait (held @ [?fd]) levels w1 = (r, w')"
      using Cons.prems(1) ok(1) by (simp add: run_simps)
    have lk: "lockable ct cs w1"
      using lockable_same_but_lock[OF Cons.prems(2) ok(2)] Cons.prems(6) by auto
    have fok: "fds_ok w1" using fds_ok_taken[OF Cons.prems(3) ok(5-7)] .
    have op: "all_open (held @ [?fd]) w1"
      using Cons.prems(4) fds_okD(1)[OF Cons.prems(3)] ok(6) by (auto simp: all_open_def list_all_iff)
    have hd: "holds cs (done @ [level]) (held @ [?fd]) w1"
      unfolding holds_def
    proof
      fix l assume l: "l \<in> set (done @ [level])"
      show "\<exists>fd\<in>set (held @ [?fd]). \<exists>i. fs_get (disk w1) (lock_loc cs l) = Some i \<and>
          flocks w1 (i_ino i) = Some (Mine fd)"
      proof (cases "l = level")
        case True
        then show ?thesis using ok(3,5) by auto
      next
        case False
        then obtain fd j where j: "fd \<in> set held" "fs_get (disk w) (lock_loc cs l) = Some j"
          "flocks w (i_ino j) = Some (Mine fd)"
          using Cons.prems(7) l by (auto simp: holds_def)
        have "fs_get (disk w1) (lock_loc cs l) = Some j"
          using ok(2) False j(2) by (simp add: same_but_lock_def)
        moreover have "flocks w1 (i_ino j) = Some (Mine fd)"
          using ok(4,5) j(3) by auto
        ultimately show ?thesis using j(1) by auto
      qed
    qed
    have "distinct (map (lock_loc cs) levels)" "FullContainerLock \<notin> set levels"
      using Cons.prems(5,6) by auto
    note IH = Cons.IH[OF run lk fok op this hd]
    have wo: "without (held @ [?fd]) (flocks w1) = without held (flocks w)"
      unfolding ok(5) by (rule without_fresh[OF Cons.prems(3) ok(4)])
    have th: "flocks w n = Some (Theirs p) \<Longrightarrow> flocks w1 n = Some (Theirs p)" for n p
      using ok(4,5) by auto
    show ?thesis
      using IH wo th same_but_locks_level[OF ok(2)] same_but_locks.frame_trans[of cs w w1 w']
      by (auto split: res.splits)
  qed
qed

text \<open>The levels that \<^verbatim>\<open>Lock\<close> takes.\<close>

definition levels_of :: "LockLevel \<Rightarrow> LockLevel list" where
  "levels_of level = (if level = FullContainerLock then FullContainerLock # lower_levels else [level])"

lemma Lock_outcome:
  assumes "Lock ct level wait w = (r, w')" and "lockable ct cs w" and "fds_ok w"
  shows "same_but_locks cs w w'" "lockable ct cs w'" "fds_ok w'"
    "flocks w n = Some (Theirs p) \<Longrightarrow> flocks w' n = Some (Theirs p)"
    "case r of
       Ok held \<Rightarrow> all_open held w' \<and> holds cs (levels_of level) held w' \<and>
         without held (flocks w') = flocks w
     | Err e \<Rightarrow> flocks w' = flocks w
     | Abort a \<Rightarrow> a = Blocked \<and> wait = WaitForLock"
proof -
  have "same_but_locks cs w w' \<and> lockable ct cs w' \<and> fds_ok w' \<and>
    (\<forall>n p. flocks w n = Some (Theirs p) \<longrightarrow> flocks w' n = Some (Theirs p)) \<and>
    (case r of
       Ok held \<Rightarrow> all_open held w' \<and> holds cs (levels_of level) held w' \<and>
         without held (flocks w') = flocks w
     | Err e \<Rightarrow> flocks w' = flocks w
     | Abort a \<Rightarrow> a = Blocked \<and> wait = WaitForLock)" (is "?goal")
    using assms(2,3)
  proof (cases rule: lock_level_cases[where level = level and wait = wait])
    case (err e w1)
    then have "r = Err e" "w' = w1" using assms(1) by (simp_all add: Lock_def run_simps)
    moreover have "lockable ct cs w1"
      using lockable_same_but_lock[OF assms(2) err(3)]
        lockable_cong[OF assms(2), of w1] same_but_full[of cs w w1] err(3) by auto
    ultimately show ?goal
      using err assms(3) same_but_locks_level[OF err(3)] by (auto simp: more_fds_def)
  next
    case (blocked w1 i h)
    then have "r = Abort Blocked" "w' = w1" using assms(1) by (simp_all add: Lock_def run_simps)
    moreover have "lockable ct cs w1"
      using lockable_same_but_lock[OF assms(2) blocked(3)]
        lockable_cong[OF assms(2), of w1] same_but_full[of cs w w1] blocked(3) by auto
    ultimately show ?goal
      using blocked assms(3) same_but_locks_level[OF blocked(3)] by (auto simp: more_fds_def)
  next
    case (ok i w1)
    have lk: "lockable ct cs w1"
      using lockable_same_but_lock[OF assms(2) ok(2)]
        lockable_cong[OF assms(2), of w1] same_but_full[of cs w w1] ok(2) by auto
    have fok: "fds_ok w1" using fds_ok_taken[OF assms(3) ok(5-7)] .
    have op: "all_open [next_fd w] w1" using ok(6) by (simp add: all_open_def)
    have hd: "holds cs [level] [next_fd w] w1" using ok(3,5) by (auto simp: holds_def)
    have wo: "without [next_fd w] (flocks w1) = flocks w"
      using without_fresh[OF assms(3) ok(4), of "[]"] ok(5) by simp
    have sb: "same_but_locks cs w w1" using same_but_locks_level[OF ok(2)] .
    have th: "flocks w n = Some (Theirs p) \<Longrightarrow> flocks w1 n = Some (Theirs p)" for n p
      using ok(4,5) by auto
    show ?goal
    proof (cases "level = FullContainerLock")
      case False
      then have "r = Ok [next_fd w]" "w' = w1"
        using assms(1) ok(1) by (simp_all add: Lock_def run_simps)
      then show ?goal using False lk fok op hd wo sb th by (simp add: levels_of_def)
    next
      case True
      then have run: "lock_sublevels ct wait [next_fd w] lower_levels w1 = (r, w')"
        using assms(1) ok(1) by (simp add: Lock_def run_simps)
      have "distinct (map (lock_loc cs) lower_levels)" "FullContainerLock \<notin> set lower_levels"
        by (simp_all add: lower_levels_def)
      note sub = lock_sublevels_outcome[OF run lk fok op this hd]
      show ?goal
        using sub True wo sb th same_but_locks.frame_trans[of cs w w1 w']
        by (auto simp: levels_of_def split: res.splits)
    qed
  qed
  then show "same_but_locks cs w w'" "lockable ct cs w'" "fds_ok w'"
    "flocks w n = Some (Theirs p) \<Longrightarrow> flocks w' n = Some (Theirs p)"
    "case r of
       Ok held \<Rightarrow> all_open held w' \<and> holds cs (levels_of level) held w' \<and>
         without held (flocks w') = flocks w
     | Err e \<Rightarrow> flocks w' = flocks w
     | Abort a \<Rightarrow> a = Blocked \<and> wait = WaitForLock"
    by simp_all
qed


section \<open>Deleting\<close>

lemma not_below_not_lock: "\<not> prefix cs q \<Longrightarrow> q \<noteq> lock_loc cs level"
  using lock_loc_below by metis

lemma lockable_resolve: "lockable ct cs w \<Longrightarrow> resolve f w (Path ct) = Inr cs"
  by (simp add: lockable_def located_def resolve_solid)

text \<open>
  C2: a container that another process is running (or exporting, or
  reconfiguring, or deleting) is never deleted: while that process holds one of
  the container's locks, \<^verbatim>\<open>LockAndDelete\<close> returns an error, or waits if it was
  asked to wait, and every file of the container but the contents of its lock
  files is what it was; no lock of another process is lost.
\<close>

theorem LockAndDelete_locked:
  assumes "lockable ct cs w" and "fds_ok w"
    and "fs_get (disk w) (lock_loc cs level) = Some i" and "flocks w (i_ino i) = Some (Theirs p)"
  shows "(case LockAndDelete ct wait w of
      (Err e, w') \<Rightarrow> same_but_locks cs w w' \<and> flocks w' = flocks w
    | (Abort a, w') \<Rightarrow> a = Blocked \<and> wait = WaitForLock \<and> same_but_locks cs w w'
    | (Ok _, w') \<Rightarrow> False)"
proof -
  obtain r w1 where lock: "Lock ct FullContainerLock wait w = (r, w1)" by fastforce
  note out = Lock_outcome[OF lock assms(1,2)]
  obtain j where j: "fs_get (disk w1) (lock_loc cs level) = Some j" "i_ino j = i_ino i"
    using out(1) assms(3) unfolding same_but_locks_def by blast
  have theirs: "flocks w1 (i_ino j) = Some (Theirs p)"
    using out(4)[OF assms(4)] j(2) by simp
  have "r \<noteq> Ok held" for held
  proof
    assume r: "r = Ok held"
    have "level \<in> set (levels_of FullContainerLock)"
      using level_lower[of level] by (auto simp: levels_of_def)
    then obtain fd where "flocks w1 (i_ino j) = Some (Mine fd)"
      using out(5) r j(1) by (auto simp: holds_def)
    then show False using theirs by simp
  qed
  then show ?thesis
    using lock out(1,5) by (cases r) (auto simp: LockAndDelete_def seq_def)
qed

lemma LockAndDelete_outcome:
  assumes "lockable ct cs w" and "fds_ok w"
  shows "(case LockAndDelete ct wait w of
      (Ok _, w') \<Rightarrow> flocks w' = flocks w \<and>
         (\<forall>q. fs_get (disk w') q = (if prefix cs q then None else fs_get (disk w) q))
    | (Err e, w') \<Rightarrow> flocks w' = flocks w \<and>
         (\<forall>q. prefix cs q \<or> fs_get (disk w') q = fs_get (disk w) q)
    | (Abort a, w') \<Rightarrow> a = Blocked \<and> wait = WaitForLock)"
proof -
  obtain r w1 where lock: "Lock ct FullContainerLock wait w = (r, w1)" by fastforce
  note out = Lock_outcome[OF lock assms]
  have outside: "\<not> prefix cs q \<Longrightarrow> fs_get (disk w1) q = fs_get (disk w) q" for q
    using out(1) not_below_not_lock[of cs q] by (simp add: same_but_locks_def)
  show ?thesis
  proof (cases r)
    case (Ok held)
    from out(5) Ok have held: "all_open held w1" "without held (flocks w1) = flocks w" by auto
    have "resolve False w1 (Path ct) = Inr cs" by (rule lockable_resolve[OF out(2)])
    then show ?thesis
    proof (cases rule: os_RemoveAll_cases)
      case (err e w2)
      then have "fds_ok w2" "all_open held w2"
        using out(3) held(1) by (auto intro: fds_ok_same_locks simp: same_locks_def all_open_def)
      then obtain w3 where "Release held w2 = (Ok (), w3)" "same_disk w2 w3"
        "flocks w3 = without held (flocks w2)" using Release_all_open by metis
      then show ?thesis
        using lock Ok err outside held(2)
        by (auto simp: LockAndDelete_def run_simps defer_do_def same_disk_def same_locks_def)
    next
      case (ok w2)
      then have "fds_ok w2" "all_open held w2"
        using out(3) held(1) by (auto intro: fds_ok_same_locks simp: same_locks_def all_open_def)
      then obtain w3 where "Release held w2 = (Ok (), w3)" "same_disk w2 w3"
        "flocks w3 = without held (flocks w2)" using Release_all_open by metis
      then show ?thesis
        using lock Ok ok outside held(2)
        by (auto simp: LockAndDelete_def run_simps defer_do_def same_disk_def same_locks_def)
    qed
  next
    case (Err e)
    then show ?thesis
      using lock out(5) outside by (auto simp: LockAndDelete_def seq_def)
  next
    case (Abort a)
    then show ?thesis
      using lock out(5) by (auto simp: LockAndDelete_def seq_def)
  qed
qed

text \<open>
  C1: what deletion does otherwise. On success nothing is left at or below the
  container's directory; in every case, whichever call fails, nothing outside
  that directory changes, and all locks that were taken are given up.
\<close>

theorem LockAndDelete_effect:
  assumes "lockable ct cs w" and "fds_ok w"
  shows "(case LockAndDelete ct wait w of
      (Ok _, w') \<Rightarrow> flocks w' = flocks w \<and>
         (\<forall>q. fs_get (disk w') q = (if prefix cs q then None else fs_get (disk w) q))
    | (Err e, w') \<Rightarrow> flocks w' = flocks w \<and>
         (\<forall>q. prefix cs q \<or> fs_get (disk w') q = fs_get (disk w) q)
    | (Abort a, w') \<Rightarrow> a = Blocked \<and> wait = WaitForLock)"
  by (rule LockAndDelete_outcome[OF assms])

text \<open>
  A lock that cannot be taken is given up, yet its descriptor stays open:
  \<^verbatim>\<open>Lock\<close> does not close it when \<^verbatim>\<open>Flock\<close> fails.
\<close>

lemma Lock_leaks_descriptor:
  assumes "lockable ct cs w" and "fds_ok w"
    and "\<forall>n. fault w n = None"
    and "fs_get (disk w) cs = Some i" and "flocks w (i_ino i) = Some (Theirs p)"
  shows "\<exists>w'. Lock ct FullContainerLock NoWaitForLock w = (Err (Msg ''container is locked''), w') \<and>
    fds w' (next_fd w) = Some (i_ino i)"
proof -
  have "resolve True w (Path ct) = Inr cs"
    by (rule lockable_resolve[OF assms(1)])
  moreover have "is_dir i"
    using assms(1,4) by (auto simp: lockable_def located_def solid_iff dir_at_def
      dest!: spec[of _ "length cs"])
  ultimately show ?thesis
    using assms by (simp add: Lock_def lock_level_def run_simps unix_Open_def unix_Flock_def
      sys_def at_path_def lockable_def flock_error_def)
qed

section \<open>Locking makes no requests\<close>

definition same_calls :: "world \<Rightarrow> world \<Rightarrow> bool" where
  "same_calls w w' \<longleftrightarrow> calls w' = calls w"

interpretation same_calls: frame same_calls
  by unfold_locales (simp_all add: same_calls_def)

lemma keeps_calls_locking:
  "keeps same_calls (os_Create p)" "keeps same_calls (unix_Open p dd)" "keeps same_calls (unix_Flock fd nb)"
  "keeps same_calls (unix_Close fd)"
  unfolding keeps_def same_calls_def os_Create_def unix_Open_def unix_Flock_def unix_Close_def sys_def
    at_path_def put_node_def set_node_def Let_def
  by (auto split: option.splits sum.splits kind.splits if_splits)

lemma keeps_calls_lock_level: "keeps same_calls (lock_level ct level wait)"
  unfolding lock_level_def Let_def
  by (auto intro!: same_calls.keeps_all keeps_calls_locking)

lemma keeps_calls_Lock: "keeps same_calls (Lock ct level wait)"
proof -
  note l = keeps_calls_lock_level
  have "keeps same_calls (lock_sublevels ct wait held levels)" for held levels
  proof (induction levels arbitrary: held)
    case (Cons level levels)
    then show ?case
      unfolding lock_sublevels.simps Release_def
      by (auto intro!: same_calls.keeps_all keeps_calls_locking l split: sum.splits)
  qed (simp add: same_calls.keeps_ret)
  then show ?thesis
    unfolding Lock_def by (auto intro!: same_calls.keeps_all l)
qed

lemma keeps_calls_Release: "keeps same_calls (Release lock)"
  unfolding Release_def by (auto intro!: same_calls.keeps_all keeps_calls_locking)

end
