(* ===== verification/Images.thy ===== *)
theory Images
  imports Paths Container
begin

text \<open>
  \<^verbatim>\<open>internal/release\<close> and \<^verbatim>\<open>internal/image\<close>: the release files beside the program,
  and the image definitions it can build containers from.
\<close>

section \<open>Release files\<close>

text \<open>
  The text of a file. A file kept as a document has the text of that document
  (up to the white space an encoder may add).
\<close>

fun json_text :: "json \<Rightarrow> string" where
  "json_text JNull = ''null''"
| "json_text (JBool b) = (if b then ''true'' else ''false'')"
| "json_text (JNum n) = show_int n"
| "json_text (JStr s) = CHR 0x22 # concat (map (\<lambda>c. if c = CHR 0x22 \<or> c = CHR 0x5C then [CHR 0x5C, c] else [c]) s) @ [CHR 0x22]"
| "json_text (JArr js) = ''['' @ join '','' (map json_text js) @ '']''"
| "json_text (JObj kjs) =
     ''{'' @ join '','' (map (\<lambda>(k, j). json_text (JStr k) @ '':'' @ json_text j) kjs) @ ''}''"

fun text_of :: "content \<Rightarrow> string" where
  "text_of (Raw s) = s"
| "text_of (Doc j) = json_text j"

datatype Branch = StableBranch | EdgeBranch

fun Branch_String :: "Branch \<Rightarrow> string" where
  "Branch_String StableBranch = ''stable''"
| "Branch_String EdgeBranch = ''edge''"

record ReleaseInfo =
  rel_Branch :: Branch
  rel_Version :: string

definition read_branch :: "string \<Rightarrow> err + Branch" where
  "read_branch s =
     (if s = ''stable'' then Inr StableBranch
      else if s = ''edge'' then Inr EdgeBranch
      else Inl (Msg (''invalid release file branch: '' @ s)))"

text \<open>
  The two files are read in the order in which Go happens to range over the map
  \<^verbatim>\<open>releaseFiles\<close>: \<open>branch_first\<close> is that choice.
\<close>

definition read_release_file :: "string \<Rightarrow> string \<Rightarrow> string io" where
  "read_release_file dir name =
     seq (os_Open (path_join [dir, name])) (\<lambda>file.
     seq (file_read file) (\<lambda>bytes. ret (trim_space (text_of bytes))))"

definition release_Read :: "build \<Rightarrow> (err + string) \<Rightarrow> bool \<Rightarrow> ReleaseInfo io" where
  "release_Read b exe branch_first =
     seq (wrap ''failed to get release path'' (GetReleaseDataDir b exe)) (\<lambda>dir.
     seq (if branch_first then
            seq (read_release_file dir ''BRANCH'') (\<lambda>br.
            seq (read_release_file dir ''VERSION'') (\<lambda>v. ret (br, v)))
          else
            seq (read_release_file dir ''VERSION'') (\<lambda>v.
            seq (read_release_file dir ''BRANCH'') (\<lambda>br. ret (br, v)))) (\<lambda>(branchString, version).
     seq (lift_res (of_sum (read_branch branchString))) (\<lambda>br.
     ret \<lparr>rel_Branch = br, rel_Version = version\<rparr>)))"

section \<open>Image metadata\<close>

record Image_info =
  RootPath :: string
  img_Base :: string
  img_Remote :: string
  img_Target :: string
  img_Parent :: string
  img_SudoGroup :: string
  img_ValidTags :: "string list"

definition image_at :: "string \<Rightarrow> Image_info" where
  "image_at path = \<lparr>RootPath = path, img_Base = '''', img_Remote = '''', img_Target = '''',
     img_Parent = '''', img_SudoGroup = '''', img_ValidTags = []\<rparr>"

text \<open>
  \<^verbatim>\<open>json.Decode\<close> into the struct: the tags name the keys, letter case is ignored,
  and \<^verbatim>\<open>RootPath\<close>, which has no tag, is a key as well.
\<close>

definition set_str :: "json \<Rightarrow> string \<Rightarrow> (string \<Rightarrow> Image_info) \<Rightarrow> err + Image_info" where
  "set_str j old upd = (case decode_str j old of Inl e \<Rightarrow> Inl e | Inr s \<Rightarrow> Inr (upd s))"

definition decode_image_field :: "string \<Rightarrow> json \<Rightarrow> Image_info \<Rightarrow> err + Image_info" where
  "decode_image_field key j img = (let k = to_lower key in
     if k = ''rootpath'' then set_str j (RootPath img) (\<lambda>s. img\<lparr>RootPath := s\<rparr>)
     else if k = ''base'' then set_str j (img_Base img) (\<lambda>s. img\<lparr>img_Base := s\<rparr>)
     else if k = ''remote'' then set_str j (img_Remote img) (\<lambda>s. img\<lparr>img_Remote := s\<rparr>)
     else if k = ''target'' then set_str j (img_Target img) (\<lambda>s. img\<lparr>img_Target := s\<rparr>)
     else if k = ''parent'' then set_str j (img_Parent img) (\<lambda>s. img\<lparr>img_Parent := s\<rparr>)
     else if k = ''sudo_group'' then set_str j (img_SudoGroup img) (\<lambda>s. img\<lparr>img_SudoGroup := s\<rparr>)
     else if k = ''valid_tags'' then
       (case decode_strings j (img_ValidTags img) of
          Inl e \<Rightarrow> Inl e | Inr tags \<Rightarrow> Inr (img\<lparr>img_ValidTags := tags\<rparr>))
     else Inr img)"

fun decode_image_fields :: "(string \<times> json) list \<Rightarrow> Image_info \<Rightarrow> err + Image_info" where
  "decode_image_fields [] img = Inr img"
| "decode_image_fields ((k, j) # kjs) img =
     (case decode_image_field k j img of Inl e \<Rightarrow> Inl e | Inr img' \<Rightarrow> decode_image_fields kjs img')"

definition decode_image :: "content \<Rightarrow> Image_info \<Rightarrow> err + Image_info" where
  "decode_image data img = (case data of
      Doc (JObj kjs) \<Rightarrow> decode_image_fields kjs img
    | Doc JNull \<Rightarrow> Inr img
    | Doc _ \<Rightarrow> type_error
    | Raw _ \<Rightarrow> Inl (Msg ''invalid character''))"

section \<open>Opening images\<close>

definition must_exist :: "string \<Rightarrow> unit io" where
  "must_exist path =
     seq (attempt (os_Stat path)) (\<lambda>r. case r of
       Inl _ \<Rightarrow> fail (Msg (''missing file '' @ path @ '' (is the image corrupted?)''))
     | Inr _ \<Rightarrow> ret ())"

definition openImageAtPath :: "string \<Rightarrow> Image_info io" where
  "openImageAtPath path =
     (let metadataPath = path_join [path, ''metadata.json''];
          playbookPath = path_join [path, ''playbook.yaml''] in
      seq (each must_exist [metadataPath, playbookPath]) (\<lambda>_.
      seq (wrap ''failed to open metadata'' (os_Open metadataPath)) (\<lambda>file.
      wrap ''failed to read metadata''
        (seq (file_read file) (\<lambda>data. lift_res (of_sum (decode_image data (image_at path))))))))"

definition check_tag :: "bool \<Rightarrow> string \<Rightarrow> Image_info \<Rightarrow> err option" where
  "check_tag validateTag tag img =
     (if \<not> validateTag then None
      else if img_ValidTags img \<noteq> [] then
        if tag = '''' then Some (Msg ''image requires a tag'')
        else if \<not> list_ex (\<lambda>validTag. validTag = tag) (img_ValidTags img)
        then Some (Msg ''image does not accept this tag'')
        else None
      else if tag \<noteq> '''' then Some (Msg ''image does not accept a tag'')
      else None)"

definition image_replacements :: "build \<Rightarrow> ReleaseInfo \<Rightarrow> string \<Rightarrow> (string \<times> string) list" where
  "image_replacements b rel tag =
     [(''{image_tag}'', tag), (''{nsbox_branch}'', Branch_String (rel_Branch rel)),
      (''{nsbox_version}'', rel_Version rel), (''{nsbox_product_name}'', ProductName b)]"

definition substitute_image :: "(string \<Rightarrow> string) \<Rightarrow> Image_info \<Rightarrow> Image_info" where
  "substitute_image f img = img\<lparr>img_Base := f (img_Base img), img_Remote := f (img_Remote img),
     img_Target := f (img_Target img), img_Parent := f (img_Parent img)\<rparr>"

definition openTaggedImageAtPath ::
  "build \<Rightarrow> (err + string) \<Rightarrow> bool \<Rightarrow> string \<Rightarrow> string \<Rightarrow> bool \<Rightarrow> Image_info io" where
  "openTaggedImageAtPath b exe branch_first path tag validateTag =
     seq (wrap ''failed to read release info'' (release_Read b exe branch_first)) (\<lambda>rel.
     seq (openImageAtPath path) (\<lambda>img.
     case check_tag validateTag tag img of
       Some e \<Rightarrow> fail e
     | None \<Rightarrow> ret (substitute_image (replacer (image_replacements b rel tag)) img)))"

definition split_tag :: "string \<Rightarrow> string \<times> string" where
  "split_tag name = (case index_of CHR '':'' name of
      Some idx \<Rightarrow> (take idx name, drop (idx + 1) name)
    | None \<Rightarrow> (name, ''''))"

definition image_Open :: "build \<Rightarrow> (err + string) \<Rightarrow> bool \<Rightarrow> string \<Rightarrow> bool \<Rightarrow> Image_info io" where
  "image_Open b exe branch_first fullname validateTag =
     (let (name, tag) = split_tag fullname;
          customImagePath = GetCustomImageDir b name in
      seq (attempt (os_Stat customImagePath)) (\<lambda>r. case r of
        Inr _ \<Rightarrow> openTaggedImageAtPath b exe branch_first customImagePath tag validateTag
      | Inl _ \<Rightarrow>
          seq (attempt (GetSystemImageDir b exe name)) (\<lambda>r. case r of
            Inl _ \<Rightarrow> fail (Msg ''does not exist'')
          | Inr globalImagePath \<Rightarrow>
              seq (attempt (os_Stat globalImagePath)) (\<lambda>r. case r of
                Inl _ \<Rightarrow> fail (Msg ''does not exist'')
              | Inr _ \<Rightarrow> openTaggedImageAtPath b exe branch_first globalImagePath tag validateTag))))"

definition image_Name :: "Image_info \<Rightarrow> string" where
  "image_Name img = path_base (RootPath img)"

text \<open>
  \<^verbatim>\<open>ResolveChain\<close> recurses for as long as images name parents: \<open>None\<close> is the answer
  that has not come after \<open>fuel\<close> calls.
\<close>

fun ResolveChain :: "build \<Rightarrow> (err + string) \<Rightarrow> bool \<Rightarrow> nat \<Rightarrow> Image_info \<Rightarrow> bool \<Rightarrow>
    world \<Rightarrow> (Image_info list res \<times> world) option" where
  "ResolveChain b exe bf 0 img validateTag w = None"
| "ResolveChain b exe bf (Suc fuel) img validateTag w =
     (if img_Parent img \<noteq> '''' then
        (case wrap (''could not resolve parent '' @ img_Parent img)
                (image_Open b exe bf (img_Parent img) validateTag) w of
           (Ok parent, w') \<Rightarrow>
             (case ResolveChain b exe bf fuel parent validateTag w' of
                Some (Ok chain, w'') \<Rightarrow> Some (Ok (chain @ [img]), w'')
              | r \<Rightarrow> r)
         | (Err e, w') \<Rightarrow> Some (Err e, w')
         | (Abort a, w') \<Rightarrow> Some (Abort a, w'))
      else Some (Ok [img], w))"

section \<open>Listing images\<close>

definition list_image :: "string \<Rightarrow> string list \<times> Image_info list \<Rightarrow> string \<Rightarrow> (string list \<times> Image_info list) io" where
  "list_image path = (\<lambda>(foundImages, images) name.
     if name \<in> set foundImages then ret (foundImages, images)
     else seq (attempt (openImageAtPath (path_join [path, name]))) (\<lambda>r. case r of
            Inl _ \<Rightarrow> ret (foundImages, images)
          | Inr img \<Rightarrow> ret (name # foundImages, images @ [img])))"

definition list_images_in :: "string list \<times> Image_info list \<Rightarrow> string \<Rightarrow> (string list \<times> Image_info list) io" where
  "list_images_in found path =
     seq (attempt (os_ReadDir path)) (\<lambda>r. case r of
       Inl e \<Rightarrow> if is_not_exist e then ret found
                else fail (Wrapped (''failed to read '' @ path) e)
     | Inr items \<Rightarrow> each_acc (list_image path) found items)"

definition image_List :: "build \<Rightarrow> (err + string) \<Rightarrow> Image_info list io" where
  "image_List b exe =
     seq (GetSystemImagesDir b exe) (\<lambda>systemImages.
     seq (each_acc list_images_in ([], []) [GetCustomImagesDir b, systemImages]) (\<lambda>(foundImages, images).
     ret images))"

section \<open>Facts about images\<close>

lemma keeps_GetReleaseDataDir [keeps_intros]:
  "keeps same_os (getPathRelativeToInstallRoot exe ps)"
  unfolding getPathRelativeToInstallRoot_def Let_def
  by (intro same_os.keeps_all keeps_look)

lemma keeps_release_Read [keeps_intros]: "keeps same_os (release_Read b exe bf)"
  unfolding release_Read_def read_release_file_def GetReleaseDataDir_def
  by (auto intro!: same_os.keeps_all keeps_look keeps_GetReleaseDataDir)

lemma keeps_openImageAtPath [keeps_intros]: "keeps same_os (openImageAtPath p)"
  unfolding openImageAtPath_def must_exist_def Let_def
  by (auto intro!: same_os.keeps_all keeps_look split: sum.splits)

lemma keeps_openTagged [keeps_intros]: "keeps same_os (openTaggedImageAtPath b exe bf p tag v)"
  unfolding openTaggedImageAtPath_def
  by (auto intro!: same_os.keeps_all keeps_release_Read keeps_openImageAtPath split: option.splits)

lemma keeps_image_Open [keeps_intros]: "keeps same_os (image_Open b exe bf name v)"
  unfolding image_Open_def GetSystemImageDir_def GetSystemImagesDir_def Let_def
  by (auto intro!: same_os.keeps_all keeps_look keeps_GetReleaseDataDir keeps_openTagged
      split: sum.splits prod.splits)

lemma openTagged_tag:
  assumes "openTaggedImageAtPath b exe bf p tag True w = (Ok img, w')"
  shows "(img_ValidTags img = [] \<and> tag = '''') \<or> (tag \<noteq> '''' \<and> tag \<in> set (img_ValidTags img))"
  using assms unfolding openTaggedImageAtPath_def
  by (auto elim!: seq_OkD simp: check_tag_def ret_def fail_def substitute_image_def list_ex_iff
      split: if_splits)

text \<open>
  An image opened with tag checking has the tag it asks for: the part of the
  name after the first colon is one of the image's valid tags, or the image takes
  no tags and the name has none. Opening an image only reads.
\<close>

theorem image_Open_valid_tag:
  assumes "image_Open b exe bf name True w = (Ok img, w')"
  shows "same_os w w' \<and>
    ((img_ValidTags img = [] \<and> snd (split_tag name) = '''') \<or>
     (snd (split_tag name) \<noteq> '''' \<and> snd (split_tag name) \<in> set (img_ValidTags img)))"
proof
  show "same_os w w'" using keepsD[OF keeps_image_Open assms] .
  obtain n tag where split: "split_tag name = (n, tag)" by fastforce
  have "\<exists>p w1 w2. openTaggedImageAtPath b exe bf p tag True w1 = (Ok img, w2)"
    using assms unfolding image_Open_def split Let_def
    by (fastforce elim!: seq_OkD simp: attempt_def fail_def split: sum.splits prod.splits res.splits)
  then show "(img_ValidTags img = [] \<and> snd (split_tag name) = '''') \<or>
     (snd (split_tag name) \<noteq> '''' \<and> snd (split_tag name) \<in> set (img_ValidTags img))"
    using openTagged_tag split by fastforce
qed

section \<open>Parent chains\<close>

text \<open>\<open>parent_of\<close>: the image was opened under the name its child gives for its parent.\<close>

definition parent_of :: "build \<Rightarrow> (err + string) \<Rightarrow> bool \<Rightarrow> bool \<Rightarrow> world \<Rightarrow> Image_info \<Rightarrow> Image_info \<Rightarrow> bool" where
  "parent_of b exe bf v w child parent \<longleftrightarrow> img_Parent child \<noteq> '''' \<and>
     (\<exists>w1 w2. same_os w w1 \<and> image_Open b exe bf (img_Parent child) v w1 = (Ok parent, w2))"

fun chain_ok :: "(Image_info \<Rightarrow> Image_info \<Rightarrow> bool) \<Rightarrow> Image_info list \<Rightarrow> bool" where
  "chain_ok R (parent # child # imgs) \<longleftrightarrow> R child parent \<and> chain_ok R (child # imgs)"
| "chain_ok R imgs \<longleftrightarrow> True"

lemma chain_ok_snoc:
  "chain_ok R (imgs @ [p]) \<Longrightarrow> R c p \<Longrightarrow> chain_ok R (imgs @ [p, c])"
  by (induction R imgs rule: chain_ok.induct) auto

lemma parent_of_shift: "same_os w w' \<Longrightarrow> parent_of b exe bf v w' c p \<Longrightarrow> parent_of b exe bf v w c p"
  unfolding parent_of_def using same_os.frame_trans by blast

lemma chain_ok_mono: "(\<And>x y. R x y \<Longrightarrow> S x y) \<Longrightarrow> chain_ok R imgs \<Longrightarrow> chain_ok S imgs"
  by (induction R imgs rule: chain_ok.induct) auto

text \<open>
  C30: a resolved chain starts at an image without a parent, ends at the image
  asked for, and each image in it is followed by one that names it as its parent.
\<close>

theorem ResolveChain_sound:
  assumes "ResolveChain b exe bf fuel img v w = Some (Ok chain, w')"
  shows "same_os w w' \<and> (\<exists>ancestors. chain = ancestors @ [img]) \<and> img_Parent (hd chain) = '''' \<and>
    chain_ok (parent_of b exe bf v w) chain"
  using assms
proof (induction fuel arbitrary: img w chain w')
  case (Suc fuel)
  show ?case
  proof (cases "img_Parent img = ''''")
    case True
    then show ?thesis using Suc.prems by auto
  next
    case False
    then obtain parent w1 where opened: "image_Open b exe bf (img_Parent img) v w = (Ok parent, w1)"
      and "\<exists>up. ResolveChain b exe bf fuel parent v w1 = Some (Ok up, w') \<and> chain = up @ [img]"
      using Suc.prems
      by (auto simp: wrap_run split: prod.splits res.splits option.splits if_splits)
    then obtain up where up: "ResolveChain b exe bf fuel parent v w1 = Some (Ok up, w')"
      and chain: "chain = up @ [img]" by blast
    note IH = Suc.IH[OF up]
    have s1: "same_os w w1" using keepsD[OF keeps_image_Open opened] .
    obtain anc where anc: "up = anc @ [parent]" using IH by blast
    have "chain_ok (parent_of b exe bf v w) up"
      using IH parent_of_shift[OF s1] chain_ok_mono by blast
    moreover have "parent_of b exe bf v w img parent"
      using False opened same_os_refl unfolding parent_of_def by blast
    ultimately have "chain_ok (parent_of b exe bf v w) chain"
      using chain_ok_snoc unfolding chain anc by fastforce
    moreover have "hd chain = hd up" using chain anc by (cases anc) auto
    ultimately show ?thesis
      using IH chain same_os.frame_trans[OF s1] by auto
  qed
qed simp

text \<open>
  Parents that get closer to a root: every image opened under a name of \<open>names\<close> has
  no parent, or one of \<open>names\<close> that ranks below.
\<close>

definition well_founded_parents ::
  "build \<Rightarrow> (err + string) \<Rightarrow> bool \<Rightarrow> bool \<Rightarrow> world \<Rightarrow> string list \<Rightarrow> (string \<Rightarrow> nat) \<Rightarrow> bool" where
  "well_founded_parents b exe bf v w names rank \<longleftrightarrow>
     (\<forall>n\<in>set names. \<forall>w1 w2 img. same_os w w1 \<longrightarrow> image_Open b exe bf n v w1 = (Ok img, w2) \<longrightarrow>
        img_Parent img = '''' \<or> (img_Parent img \<in> set names \<and> rank (img_Parent img) < rank n))"

lemma ResolveChain_returns_aux:
  assumes "well_founded_parents b exe bf v w0 names rank" and "same_os w0 w"
    and "img_Parent img = '''' \<or> (img_Parent img \<in> set names \<and> rank (img_Parent img) < n)"
    and "n < fuel"
  shows "ResolveChain b exe bf fuel img v w \<noteq> None"
  using assms(2-)
proof (induction fuel arbitrary: img w n)
  case (Suc fuel)
  show ?case
  proof (cases "img_Parent img = ''''")
    case False
    then have in_names: "img_Parent img \<in> set names" and less: "rank (img_Parent img) < n"
      using Suc.prems(2) by auto
    obtain r w1 where opened: "image_Open b exe bf (img_Parent img) v w = (r, w1)" by fastforce
    have s1: "same_os w0 w1"
      using Suc.prems(1) keepsD[OF keeps_image_Open opened] by (rule same_os.frame_trans)
    show ?thesis
    proof (cases r)
      case (Ok parent)
      have "img_Parent parent = '''' \<or> (img_Parent parent \<in> set names \<and>
          rank (img_Parent parent) < rank (img_Parent img))"
        using assms(1) in_names Suc.prems(1) opened Ok unfolding well_founded_parents_def by blast
      then have "ResolveChain b exe bf fuel parent v w1 \<noteq> None"
        using Suc.IH[OF s1] less Suc.prems(3) by force
      then show ?thesis
        using opened Ok by (auto simp: wrap_run split: res.splits)
    qed (use False opened in \<open>auto simp: wrap_run\<close>)
  qed simp
qed simp

text \<open>
  C31: when parents are well founded the chain resolves: \<^verbatim>\<open>ResolveChain\<close> returns, with
  the chain or an error, after at most as many calls as the rank of the parent's
  name plus two.
\<close>

theorem ResolveChain_returns:
  assumes "well_founded_parents b exe bf v w names rank"
    and "img_Parent img = '''' \<or> img_Parent img \<in> set names"
  shows "ResolveChain b exe bf (rank (img_Parent img) + 2) img v w \<noteq> None"
  by (rule ResolveChain_returns_aux[OF assms(1) same_os_refl, where n = "rank (img_Parent img) + 1"])
    (use assms(2) in auto)

text \<open>An image that is its own parent is never resolved, however long one waits.\<close>

lemma ResolveChain_cycle:
  assumes "\<And>w1. same_os w w1 \<Longrightarrow>
      \<exists>w2 img'. image_Open b exe bf n v w1 = (Ok img', w2) \<and> img_Parent img' = n"
    and "n \<noteq> ''''" and "img_Parent img = n"
  shows "ResolveChain b exe bf fuel img v w = None"
  using assms
proof (induction fuel arbitrary: img w)
  case (Suc fuel)
  from Suc.prems(1)[OF same_os_refl] obtain w2 img' where
    opened: "image_Open b exe bf n v w = (Ok img', w2)" "img_Parent img' = n" by blast
  have "same_os w w2" using keepsD[OF keeps_image_Open opened(1)] .
  then have "ResolveChain b exe bf fuel img' v w2 = None"
    using Suc.IH[of w2 img'] Suc.prems(1,2) opened(2) same_os.frame_trans by blast
  then show ?case using Suc.prems(2,3) opened by (simp add: wrap_run)
qed simp

end
