(* ===== verification/Nspawn.thy ===== *)
theory Nspawn
  imports File_Laws
begin

text \<open>
  \<^verbatim>\<open>internal/nspawn/builder.go\<close>: the command line of \<^verbatim>\<open>systemd-nspawn\<close>.
\<close>

definition NetworkZonePrefix :: string where "NetworkZonePrefix = ''vz-''"

record BindMount =
  b_Host :: string
  b_Dest :: string
  b_Recursive :: bool

record Builder =
  nspawn :: string
  Quiet :: bool
  AsPid2 :: bool
  nb_Boot :: bool
  KeepUnit :: bool
  PipeConsole :: bool
  NetworkVeth :: bool
  NetworkZone :: string
  MachineDirectory :: string
  LinkJournal :: string
  nb_MachineName :: string
  Hostname :: string
  Capabilities :: "string list"
  SystemCallFilter :: string
  Binds :: "BindMount list"
  Command :: "string list"

text \<open>\<open>look\<close> is \<^verbatim>\<open>exec.LookPath("systemd-nspawn")\<close>.\<close>

definition NewBuilder :: "(err + string) \<Rightarrow> Builder res" where
  "NewBuilder look = (case look of
      Inl _ \<Rightarrow> Err (Msg ''systemd-nspawn is unavailable'')
    | Inr path \<Rightarrow> Ok \<lparr>nspawn = path, Quiet = False, AsPid2 = False, nb_Boot = False,
        KeepUnit = False, PipeConsole = False, NetworkVeth = False, NetworkZone = '''',
        MachineDirectory = '''', LinkJournal = '''', nb_MachineName = '''', Hostname = '''',
        Capabilities = [], SystemCallFilter = '''', Binds = [], Command = []\<rparr>)"

definition AddBindFull :: "string \<Rightarrow> string \<Rightarrow> bool \<Rightarrow> Builder \<Rightarrow> Builder io" where
  "AddBindFull host dest recursive builder =
     seq (attempt (os_Stat host)) (\<lambda>r. case r of
       Inl _ \<Rightarrow> ret builder
     | Inr _ \<Rightarrow> ret (builder\<lparr>Binds := Binds builder @
         [\<lparr>b_Host = host, b_Dest = dest, b_Recursive = recursive\<rparr>]\<rparr>))"

definition AddBindTo :: "string \<Rightarrow> string \<Rightarrow> Builder \<Rightarrow> Builder io" where
  "AddBindTo host dest = AddBindFull host dest False"

definition AddRecursiveBindTo :: "string \<Rightarrow> string \<Rightarrow> Builder \<Rightarrow> Builder io" where
  "AddRecursiveBindTo host dest = AddBindFull host dest True"

definition AddBind :: "string \<Rightarrow> Builder \<Rightarrow> Builder io" where
  "AddBind path = AddBindTo path path"

definition AddRecursiveBind :: "string \<Rightarrow> Builder \<Rightarrow> Builder io" where
  "AddRecursiveBind path = AddRecursiveBindTo path path"

definition addArg :: "string \<Rightarrow> string list" where
  "addArg arg = [''--'' @ arg]"

definition addArgValue :: "string \<Rightarrow> string \<Rightarrow> string list" where
  "addArgValue arg value = addArg (arg @ ''='' @ value)"

definition maybeAddArgValue :: "string \<Rightarrow> string \<Rightarrow> string list" where
  "maybeAddArgValue arg value = (if value \<noteq> '''' then addArgValue arg value else [])"

definition escapeMountPath :: "string \<Rightarrow> string" where
  "escapeMountPath path =
     replace_all CHR '':'' [CHR 0x5C, CHR '':''] (replace_all CHR 0x5C [CHR 0x5C, CHR 0x5C] path)"

definition bind_spec :: "BindMount \<Rightarrow> string" where
  "bind_spec bind =
     (let dest = escapeMountPath (b_Dest bind);
          host = escapeMountPath (b_Host bind);
          opts = (if b_Recursive bind then ''rbind'' else ''norbind'') in
      join '':'' [host, dest, opts])"

definition switch :: "bool \<Rightarrow> string \<Rightarrow> string list" where
  "switch b arg = (if b then addArg arg else [])"

definition Build :: "Builder \<Rightarrow> string list res" where
  "Build builder =
     (if MachineDirectory builder = '''' then Abort (Panic ''MachineDirectory must be set'')
      else Ok ([nspawn builder] @
        switch (Quiet builder) ''quiet'' @
        switch (AsPid2 builder) ''as-pid2'' @
        switch (nb_Boot builder) ''boot'' @
        switch (KeepUnit builder) ''keep-unit'' @
        switch (PipeConsole builder) ''pipe'' @
        switch (NetworkVeth builder) ''network-veth'' @
        addArgValue ''directory'' (MachineDirectory builder) @
        maybeAddArgValue ''link-journal'' (LinkJournal builder) @
        maybeAddArgValue ''machine'' (nb_MachineName builder) @
        maybeAddArgValue ''hostname'' (Hostname builder) @
        maybeAddArgValue ''network-zone'' (NetworkZone builder) @
        maybeAddArgValue ''system-call-filter'' (SystemCallFilter builder) @
        concat (map (addArgValue ''capability'') (Capabilities builder)) @
        concat (map (\<lambda>bind. addArgValue ''bind'' (bind_spec bind)) (Binds builder)) @
        Command builder))"

section \<open>The bind specification\<close>

text \<open>
  How \<^verbatim>\<open>systemd-nspawn\<close> documents it reads \<^verbatim>\<open>--bind=\<close>: fields separated by colons,
  a backslash takes the next character literally.
\<close>

fun read_spec :: "string \<Rightarrow> string \<Rightarrow> string list" where
  "read_spec acc [] = [acc]"
| "read_spec acc [c] = (if c = CHR '':'' then [acc, ''''] else [acc @ [c]])"
| "read_spec acc (c # d # s) =
     (if c = CHR 0x5C then read_spec (acc @ [d]) s
      else if c = CHR '':'' then acc # read_spec '''' (d # s)
      else read_spec (acc @ [c]) (d # s))"

lemma escapeMountPath_simps:
  "escapeMountPath [] = []"
  "escapeMountPath (c # s) =
     (if c = CHR 0x5C \<or> c = CHR '':'' then [CHR 0x5C, c] else [c]) @ escapeMountPath s"
  by (auto simp: escapeMountPath_def replace_all_append)

lemma read_spec_escape:
  "rest \<noteq> [] \<Longrightarrow> read_spec acc (escapeMountPath s @ rest) = read_spec (acc @ s) rest"
proof (induction s arbitrary: acc)
  case (Cons c s)
  obtain d rest' where "escapeMountPath s @ rest = d # rest'"
    using Cons.prems by (cases "escapeMountPath s @ rest") auto
  then show ?case
    using Cons.IH[of "acc @ [c]"] Cons.prems by (auto simp: escapeMountPath_simps)
qed (simp add: escapeMountPath_simps)

lemma read_spec_field: "rest \<noteq> [] \<Longrightarrow> read_spec acc (CHR '':'' # rest) = acc # read_spec [] rest"
  by (cases rest) auto

lemma read_spec_word:
  "\<forall>c\<in>set s. c \<noteq> CHR 0x5C \<and> c \<noteq> CHR '':'' \<Longrightarrow> read_spec acc s = [acc @ s]"
  by (induction acc s rule: read_spec.induct) auto


text \<open>
  The command line starts with the nspawn binary, ends with the command to
  run, and everything in between is an option: no value of the builder's fields can
  introduce a word of its own, and the bind mounts appear in the order they were added.
\<close>

theorem Build_shape:
  assumes "MachineDirectory builder \<noteq> ''''"
  shows "\<exists>opts. Build builder = Ok (nspawn builder # opts @ Command builder) \<and>
    list_all (\<lambda>x. has_prefix x ''--'') opts \<and>
    filter (\<lambda>x. has_prefix x ''--bind='') opts = map (\<lambda>b. ''--bind='' @ bind_spec b) (Binds builder)"
proof -
  let ?flags = "switch (Quiet builder) ''quiet'' @ switch (AsPid2 builder) ''as-pid2'' @
    switch (nb_Boot builder) ''boot'' @ switch (KeepUnit builder) ''keep-unit'' @
    switch (PipeConsole builder) ''pipe'' @ switch (NetworkVeth builder) ''network-veth'' @
    addArgValue ''directory'' (MachineDirectory builder) @
    maybeAddArgValue ''link-journal'' (LinkJournal builder) @
    maybeAddArgValue ''machine'' (nb_MachineName builder) @
    maybeAddArgValue ''hostname'' (Hostname builder) @
    maybeAddArgValue ''network-zone'' (NetworkZone builder) @
    maybeAddArgValue ''system-call-filter'' (SystemCallFilter builder)"
  let ?caps = "concat (map (addArgValue ''capability'') (Capabilities builder))"
  let ?binds = "map (\<lambda>b. ''--bind='' @ bind_spec b) (Binds builder)"
  have "concat (map (\<lambda>bind. addArgValue ''bind'' (bind_spec bind)) bs) =
      map (\<lambda>b. ''--bind='' @ bind_spec b) bs" for bs
    by (induction bs) (auto simp: addArgValue_def addArg_def)
  then have run: "Build builder = Ok (nspawn builder # (?flags @ ?caps @ ?binds) @ Command builder)"
    using assms by (simp add: Build_def)
  have caps: "list_all (\<lambda>x. has_prefix x ''--'' \<and> \<not> has_prefix x ''--bind='') ?caps"
    by (auto simp: list_all_iff addArgValue_def addArg_def has_prefix_def)
  have flags: "list_all (\<lambda>x. has_prefix x ''--'' \<and> \<not> has_prefix x ''--bind='') ?flags"
    by (simp add: switch_def maybeAddArgValue_def addArgValue_def addArg_def has_prefix_def)
  have none: "filter (\<lambda>x. has_prefix x ''--bind='') xs = []"
    if "list_all (\<lambda>x. has_prefix x ''--'' \<and> \<not> has_prefix x ''--bind='') xs" for xs
    using that by (auto simp: list_all_iff filter_empty_conv)
  have "list_all (\<lambda>x. has_prefix x ''--'') (?flags @ ?caps @ ?binds)"
    using caps flags by (auto simp: list_all_iff has_prefix_def)
  moreover have "filter (\<lambda>x. has_prefix x ''--bind='') ?binds = ?binds"
    by (rule filter_True) (auto simp: has_prefix_def)
  then have "filter (\<lambda>x. has_prefix x ''--bind='') (?flags @ ?caps @ ?binds) = ?binds"
    using none[OF flags] none[OF caps] by (simp only: filter_append append_Nil)
  ultimately show ?thesis using run by blast
qed

end
