(* ===== verification/Network.thy ===== *)
theory Network
  imports File_System
begin

text \<open>
  \<^verbatim>\<open>internal/network\<close>: choosing an interface name for a container's virtual
  network, and the firewall that must trust it. The kernel's link list, the random
  letters and the answers of firewalld on the bus are parameters.
\<close>

section \<open>Interface names\<close>

definition IFNAMSIZ :: nat where "IFNAMSIZ = 16"

definition nsboxPrefix :: string where "nsboxPrefix = ''nx-''"

text \<open>
  The loop over the positions of the name from the last one down to the first after
  the prefix; \<open>rand k\<close> is the \<open>k\<close>-th draw of \<^verbatim>\<open>rand.Intn(26)\<close>.
\<close>

definition rand_letter :: "nat \<Rightarrow> char" where
  "rand_letter n = char_of (n + (of_char CHR ''a'' :: nat))"

fun unique_loop :: "string set \<Rightarrow> (nat \<Rightarrow> nat) \<Rightarrow> nat \<Rightarrow> nat list \<Rightarrow> string \<Rightarrow> string option" where
  "unique_loop linkNames rand k [] name = None"
| "unique_loop linkNames rand k (i # is) name =
     (if name \<in> linkNames then
        unique_loop linkNames rand (Suc k) is (take i name @ [rand_letter (rand k)] @ drop (i + 1) name)
      else Some name)"

definition GenerateUniqueLinkName ::
  "(err + string list) \<Rightarrow> (nat \<Rightarrow> nat) \<Rightarrow> string \<Rightarrow> string \<Rightarrow> string res" where
  "GenerateUniqueLinkName links rand base assumedPrefix = (case links of
      Inl e \<Rightarrow> Err (Wrapped ''getting netlink list'' e)
    | Inr names \<Rightarrow>
        let linkNames = set names;
            maxBaseLength = int IFNAMSIZ - int (length assumedPrefix) - int (length nsboxPrefix) - 1 in
        if int (length base) > maxBaseLength \<and> maxBaseLength < 0
        then Abort (Panic ''slice bounds out of range'')
        else
          let name = nsboxPrefix @
                (if int (length base) > maxBaseLength then take (nat maxBaseLength) base else base) in
          case unique_loop linkNames rand 0 (rev [length nsboxPrefix..<length name]) name of
            None \<Rightarrow> Err (Msg (''could not generate unique interface name for '' @ base))
          | Some name \<Rightarrow> Ok name)"

lemma rev_upt_last: "m < n \<Longrightarrow> rev [m..<n] = (n - 1) # rev [m..<n - 1]"
  by (cases n) auto

lemma unique_loop_Some:
  assumes "unique_loop links rand k is name = Some name'" and "list_all (\<lambda>i. 3 \<le> i \<and> i < length name) is"
  shows "name' \<notin> links \<and> length name' = length name \<and> take 3 name' = take 3 name"
  using assms
proof (induction links rand k "is" name rule: unique_loop.induct)
  case (2 links rand k i "is" name)
  show ?case
  proof (cases "name \<in> links")
    case True
    let ?n = "take i name @ [rand_letter (rand k)] @ drop (i + 1) name"
    have len: "length ?n = length name" using 2(3) by auto
    have "take 3 ?n = take 3 name" using 2(3) by (auto simp: take_Cons')
    moreover have "unique_loop links rand (Suc k) is ?n = Some name'"
      using 2(2) True by simp
    moreover have "list_all (\<lambda>i. 3 \<le> i \<and> i < length ?n) is"
      using 2(3) unfolding len by simp
    ultimately show ?thesis using 2(1)[OF True] len by metis
  qed (use 2 in simp)
qed simp

lemma unique_name_run:
  assumes "length assumedPrefix \<le> 12" and "name = nsboxPrefix @ take (12 - length assumedPrefix) base"
  shows "GenerateUniqueLinkName (Inr links) rand base assumedPrefix =
      (case unique_loop (set links) rand 0 (rev [3..<length name]) name of
         None \<Rightarrow> Err (Msg (''could not generate unique interface name for '' @ base)) | Some n \<Rightarrow> Ok n)"
proof -
  let ?max = "12 - length assumedPrefix"
  have max: "int IFNAMSIZ - int (length assumedPrefix) - int (length nsboxPrefix) - 1 = int ?max"
    using assms by (simp add: IFNAMSIZ_def nsboxPrefix_def)
  have cut: "(if int (length base) > int ?max then take (nat (int ?max)) base else base) = take ?max base"
    by simp
  have ge: "\<not> (int (length base) > int ?max \<and> int ?max < 0)" by simp
  have pl: "length nsboxPrefix = 3" by (simp add: nsboxPrefix_def)
  show ?thesis
    unfolding GenerateUniqueLinkName_def sum.case Let_def max cut assms(2)
    by (simp only: ge pl if_False)
qed

lemma unique_loop_first:
  assumes "name = nsboxPrefix @ base" and "base \<noteq> ''''" and "name \<notin> links"
  shows "unique_loop links rand k (rev [3..<length name]) name = Some name"
proof -
  have "0 < length base" using assms(2) by simp
  then have "3 < length name" unfolding assms(1) length_append by (simp add: nsboxPrefix_def)
  then have "rev [3..<length name] = (length name - 1) # rev [3..<length name - 1]" by (rule rev_upt_last)
  then show ?thesis using assms(3) by (metis unique_loop.simps(2))
qed

text \<open>
  C26: a generated interface name fits the kernel's limit together with the prefix
  that will be put before it (at most \<open>IFNAMSIZ - 1\<close> characters), starts with nsbox's
  own prefix, and is not the name of an existing link; for prefixes of up to twelve
  characters the function never panics, and a name that is free and short enough is
  kept as it is.
\<close>

theorem GenerateUniqueLinkName_ok:
  assumes "length assumedPrefix \<le> 12"
  shows "case GenerateUniqueLinkName (Inr links) rand base assumedPrefix of
      Ok name \<Rightarrow> length (assumedPrefix @ name) < IFNAMSIZ \<and> has_prefix name nsboxPrefix \<and>
        name \<notin> set links \<and>
        (length base + length assumedPrefix \<le> 12 \<longrightarrow> nsboxPrefix @ base \<notin> set links \<longrightarrow>
           name = nsboxPrefix @ base)
    | Err _ \<Rightarrow> length base + length assumedPrefix \<le> 12 \<and> base \<noteq> '''' \<longrightarrow> nsboxPrefix @ base \<in> set links
    | Abort _ \<Rightarrow> False"
proof -
  let ?name = "nsboxPrefix @ take (12 - length assumedPrefix) base"
  let ?r = "unique_loop (set links) rand 0 (rev [3..<length ?name]) ?name"
  note run = unique_name_run[OF assms refl]
  have short: "take (12 - length assumedPrefix) base = base" if "length base + length assumedPrefix \<le> 12"
    using that by simp
  have kept: "?r = Some (nsboxPrefix @ base)"
    if "length base + length assumedPrefix \<le> 12" "base \<noteq> ''''" "nsboxPrefix @ base \<notin> set links"
    unfolding short[OF that(1)] by (rule unique_loop_first[OF refl that(2,3)])
  show ?thesis
  proof (cases ?r)
    case None
    have "nsboxPrefix @ base \<in> set links" if "length base + length assumedPrefix \<le> 12" "base \<noteq> ''''"
    proof (rule ccontr)
      assume "nsboxPrefix @ base \<notin> set links"
      from kept[OF that this] None show False by simp
    qed
    then show ?thesis using None unfolding run by auto
  next
    case (Some n)
    have "list_all (\<lambda>i. 3 \<le> i \<and> i < length ?name) (rev [3..<length ?name])" by (auto simp: list_all_iff)
    note n = unique_loop_Some[OF Some this]
    have "length n \<le> 3 + (12 - length assumedPrefix)" using n by (simp add: nsboxPrefix_def)
    then have "length (assumedPrefix @ n) < IFNAMSIZ" using assms by (simp add: IFNAMSIZ_def)
    moreover have "take 3 n = nsboxPrefix" using n by (simp add: nsboxPrefix_def)
    then have "has_prefix n nsboxPrefix" unfolding has_prefix_def by (metis take_is_prefix)
    moreover have "n = nsboxPrefix @ base"
      if "length base + length assumedPrefix \<le> 12" "nsboxPrefix @ base \<notin> set links"
      using kept[OF that(1)] that(2) Some by (cases "base = ''''") (simp_all add: nsboxPrefix_def)
    ultimately show ?thesis using n Some unfolding run by auto
  qed
qed

text \<open>
  The name that is compared with the existing links is the one without the
  prefix: when \<^verbatim>\<open>vz-nx-box\<close> is in use, \<^verbatim>\<open>nx-box\<close> is still handed out for it.
\<close>

lemma GenerateUniqueLinkName_ignores_prefix:
  "GenerateUniqueLinkName (Inr [''vz-nx-box'']) rand ''box'' ''vz-'' = Ok ''nx-box''"
  by (simp add: GenerateUniqueLinkName_def IFNAMSIZ_def nsboxPrefix_def)

section \<open>The firewall\<close>

text \<open>
  What the bus answers: whether there is a system bus and a firewalld on it, and
  the error of a call of the given method on a zone and an interface.
\<close>

record firewalld_bus =
  fw_SystemBus :: "err option"
  fw_Version :: "err option"
  fw_Call :: "string \<Rightarrow> string \<Rightarrow> string \<Rightarrow> err option"
  fw_Close :: "err option"

definition firewalldZoneIface :: string where
  "firewalldZoneIface = ''org.fedoraproject.FirewallD1.zone''"

definition firewalldZoneChangeInterfaceMethod :: string where
  "firewalldZoneChangeInterfaceMethod = firewalldZoneIface @ ''.changeZoneOfInterface''"

definition firewalldZoneRemoveInterfaceMethod :: string where
  "firewalldZoneRemoveInterfaceMethod = firewalldZoneIface @ ''.removeInterface''"

definition trustedZone :: string where "trustedZone = ''trusted''"

text \<open>\<^verbatim>\<open>GetFirewall\<close>: \<open>None\<close> when firewalld is absent.\<close>

definition GetFirewall :: "firewalld_bus \<Rightarrow> firewalld_bus option" where
  "GetFirewall bus =
     (if fw_SystemBus bus \<noteq> None then None
      else if fw_Version bus \<noteq> None then None
      else Some bus)"

definition fw_call :: "firewalld_bus \<Rightarrow> string \<Rightarrow> string \<Rightarrow> unit io" where
  "fw_call fw method iface =
     request method [trustedZone, iface] (fw_Call fw method trustedZone iface)"

definition TrustInterface :: "firewalld_bus \<Rightarrow> string \<Rightarrow> unit io" where
  "TrustInterface fw iface = fw_call fw firewalldZoneChangeInterfaceMethod iface"

definition UntrustInterface :: "firewalld_bus \<Rightarrow> string \<Rightarrow> unit io" where
  "UntrustInterface fw iface = fw_call fw firewalldZoneRemoveInterfaceMethod iface"

definition fw_close :: "firewalld_bus \<Rightarrow> unit io" where
  "fw_close fw = request ''Close'' [] (fw_Close fw)"

end
