(* ===== verification/Selinux.thy ===== *)
theory Selinux
  imports Go_Strings Prelude
begin

text \<open>
  \<^verbatim>\<open>internal/selinux\<close>: the label a container process runs under. The SELinux
  library's answers are parameters.
\<close>

definition systemRole :: string where "systemRole = ''system_r''"

definition spcType :: string where "spcType = ''spc_t''"

datatype enforce_mode = Enforcing_mode | Permissive_mode | Disabled_mode

text \<open>\<open>ExecLabel\<close> gives \<open>Inl None\<close> for \<^verbatim>\<open>io.EOF\<close>.\<close>

record selinux_sys =
  EnforceMode :: enforce_mode
  ExecLabel :: "err option + string"
  CurrentLabel :: "err + string"
  SetExecLabel :: "string \<Rightarrow> err option"

definition Enforcing :: "selinux_sys \<Rightarrow> bool" where
  "Enforcing s \<longleftrightarrow> EnforceMode s = Enforcing_mode"

definition Enabled :: "selinux_sys \<Rightarrow> bool" where
  "Enabled s \<longleftrightarrow> EnforceMode s \<noteq> Disabled_mode"

definition GetCurrentLabel :: "selinux_sys \<Rightarrow> err + string" where
  "GetCurrentLabel s = (case ExecLabel s of
      Inl None \<Rightarrow> CurrentLabel s
    | Inl (Some e) \<Rightarrow> Inl e
    | Inr label \<Rightarrow> Inr label)"

text \<open>The format string of the error has no argument: Go prints \<^verbatim>\<open>%!s(MISSING)\<close>.\<close>

definition GetExecLabel :: "string \<Rightarrow> err + string" where
  "GetExecLabel currentLabel =
     (let parts = split_on CHR '':'' currentLabel in
      if length parts \<noteq> 4 \<and> length parts \<noteq> 5
      then Inl (Msg ''invalid SELinux label: %!s(MISSING)'')
      else Inr (join '':'' (parts[1 := systemRole, 2 := spcType])))"

text \<open>
  \<^verbatim>\<open>SetExecProcessContextContainer\<close> does not look at the error of \<^verbatim>\<open>GetExecLabel\<close>:
  it goes on with the empty label.
\<close>

definition SetExecProcessContextContainer :: "selinux_sys \<Rightarrow> err option" where
  "SetExecProcessContextContainer s =
     (if \<not> Enabled s then None
      else case GetCurrentLabel s of
        Inl e \<Rightarrow> Some (Wrapped ''get current label'' e)
      | Inr currentLabel \<Rightarrow>
          let newLabel = (case GetExecLabel currentLabel of Inl _ \<Rightarrow> '''' | Inr l \<Rightarrow> l) in
          (case SetExecLabel s newLabel of
             Some e \<Rightarrow> Some (Wrapped ''failed to set label'' e)
           | None \<Rightarrow> None))"

lemma split_on_length_join:
  assumes "xs \<noteq> []" and "\<forall>x\<in>set xs. CHR '':'' \<notin> set x"
  shows "split_on CHR '':'' (join '':'' xs) = xs"
  using assms by (intro split_on_join) auto

text \<open>
  The exec transition keeps the identity of the label: in a well-formed label
  (four or five fields) exactly the role and the type are replaced, the user, the
  level and the number of fields stay, and doing it twice changes nothing more.
\<close>

theorem GetExecLabel_fields:
  assumes "GetExecLabel label = Inr new"
  shows "split_on CHR '':'' new = (split_on CHR '':'' label)[1 := systemRole, 2 := spcType] \<and>
    length (split_on CHR '':'' new) \<in> {4, 5} \<and> GetExecLabel new = Inr new"
proof -
  let ?parts = "split_on CHR '':'' label"
  let ?new = "?parts[1 := systemRole, 2 := spcType]"
  from assms have len: "length ?parts = 4 \<or> length ?parts = 5" and new: "new = join '':'' ?new"
    by (auto simp: GetExecLabel_def Let_def split: if_splits)
  have "set ?new \<subseteq> {systemRole, spcType} \<union> set ?parts"
    by (auto dest!: set_update_subset_insert[THEN subsetD])
  then have "\<forall>x\<in>set ?new. CHR '':'' \<notin> set x"
    using split_on_parts[of _ "CHR '':''" label] by (auto simp: systemRole_def spcType_def)
  moreover have "?new \<noteq> []" using len by auto
  ultimately have split: "split_on CHR '':'' new = ?new"
    unfolding new by (intro split_on_length_join)
  then have "GetExecLabel new = Inr new"
    using len new by (auto simp: GetExecLabel_def Let_def list_update_swap)
  then show ?thesis using split len by auto
qed

text \<open>A label with the wrong number of fields makes the empty label be set.\<close>

lemma SetExec_malformed:
  "Enabled s \<Longrightarrow> GetCurrentLabel s = Inr ''unconfined'' \<Longrightarrow> SetExecLabel s '''' = None \<Longrightarrow>
     SetExecProcessContextContainer s = None"
  by (simp add: SetExecProcessContextContainer_def GetExecLabel_def)

end
