(* ===== verification/Daemon.thy ===== *)
theory Daemon
  imports Container_Locks Images Nspawn Network Selinux
begin

text \<open>
  \<^verbatim>\<open>internal/daemon/direct.go\<close>: what \<^verbatim>\<open>nsboxd\<close> does to start a container: prepare its
  files, assemble the nspawn command line, run it. The function
  \<^verbatim>\<open>RunContainerDirectNspawn\<close> is cut into the phases its blank lines suggest; each
  phase takes and returns the pair of the user data (whose environment map the
  source mutates) and the command-line builder.
\<close>

section \<open>Environment and devices\<close>

record launch =
  l_usr :: Userdata
  l_bld :: Builder

definition set_env :: "string \<Rightarrow> string \<Rightarrow> Userdata \<Rightarrow> Userdata" where
  "set_env name value usrdata = usrdata\<lparr>Environ := AList.update name value (Environ usrdata)\<rparr>"

definition env_of :: "Userdata \<Rightarrow> string \<Rightarrow> string option" where
  "env_of usrdata = map_of (Environ usrdata)"

definition with_env :: "string \<Rightarrow> string \<Rightarrow> launch \<Rightarrow> launch" where
  "with_env name value l = l\<lparr>l_usr := set_env name value (l_usr l)\<rparr>"

definition bind_with :: "(Builder \<Rightarrow> Builder io) \<Rightarrow> launch \<Rightarrow> launch io" where
  "bind_with add l = seq (add (l_bld l)) (\<lambda>b. ret (l\<lparr>l_bld := b\<rparr>))"

definition getXdgRuntimeDir :: "Userdata \<Rightarrow> string res" where
  "getXdgRuntimeDir usrdata = (case env_of usrdata ''XDG_RUNTIME_DIR'' of
      Some value \<Rightarrow> Ok value
    | None \<Rightarrow> Err (Msg ''XDG_RUNTIME_DIR must be set''))"

text \<open>\<^verbatim>\<open>filepath.EvalSymlinks\<close> of an absolute path\<close>

definition EvalSymlinks :: "string \<Rightarrow> string io" where
  "EvalSymlinks p = sys (at_path True p (\<lambda>q w.
     case node_at w q of
       None \<Rightarrow> (Err (Errno ENOENT), w)
     | Some _ \<Rightarrow> (Ok (path_of q), w)))"

definition is_symlink :: "inode \<Rightarrow> bool" where
  "is_symlink i = (case i_kind i of Symlink _ \<Rightarrow> True | _ \<Rightarrow> False)"

definition bindHome :: "launch \<Rightarrow> launch io" where
  "bindHome l0 =
     (let l = with_env ''NSBOX_HOME'' (HomeDir (User (l_usr l0))) l0 in
      seq (wrap ''failed to stat home parent'' (os_Lstat ''/home'')) (\<lambda>info.
      if is_symlink info then
        seq (wrap ''failed to resolve home parent'' (EvalSymlinks ''/home'')) (\<lambda>resolvedHomeRoot.
        seq (bind_with (AddRecursiveBind resolvedHomeRoot) l) (\<lambda>l.
        seq (wrap (''failed to make home parent '' @ resolvedHomeRoot @ '' relative'')
               (path_Rel ''/'' resolvedHomeRoot)) (\<lambda>relResolvedHomeRoot.
        let l = with_env ''NSBOX_HOME_LINK_TARGET'' relResolvedHomeRoot l in
        ret (if path_dir (HomeDir (User (l_usr l))) = ''/home''
             then with_env ''NSBOX_HOME_LINK_TARGET_ADJUST_CWD'' ''1'' l else l))))
      else bind_with (AddRecursiveBind (HomeDir (User (l_usr l)))) l))"

text \<open>\<^verbatim>\<open>os.TempDir\<close>\<close>

definition os_TempDir :: "string io" where
  "os_TempDir = get_state (\<lambda>w. if getenv (environ w) ''TMPDIR'' = '''' then ''/tmp''
                                else getenv (environ w) ''TMPDIR'')"

definition share_device :: "launch \<times> bool \<Rightarrow> string \<Rightarrow> (launch \<times> bool) io" where
  "share_device = (\<lambda>(l, bindFullDev) dev.
     if dev = ''*'' then seq (bind_with (AddRecursiveBind ''/dev'') l) (\<lambda>l. ret (l, True))
     else seq (bind_with (AddRecursiveBind dev) l) (\<lambda>l. ret (l, bindFullDev)))"

definition bindDevices :: "Container \<Rightarrow> launch \<Rightarrow> launch io" where
  "bindDevices ct l =
     seq os_TempDir (\<lambda>tmpdir.
     seq (bind_with (AddBind (path_join [tmpdir, ''.X11-unix''])) l) (\<lambda>l.
     seq (each_acc share_device (l, False) (ShareDevices (Cfg ct))) (\<lambda>(l, bindFullDev).
     if \<not> bindFullDev then
       seq (bind_with (AddBind ''/dev/dri'') l) (bind_with (AddBind ''/dev/input''))
     else ret l)))"

definition stripLeadingSlash :: "string \<Rightarrow> string res" where
  "stripLeadingSlash path = (case path_rel ''/'' path of
      None \<Rightarrow> Abort (Panic (''unexpected error stripping leading slash from '' @ path))
    | Some result \<Rightarrow> Ok result)"

section \<open>Sudo, environment and files\<close>

definition setupSudo :: "SudoAccess res \<Rightarrow> Image_info \<Rightarrow> Container \<Rightarrow> Userdata \<Rightarrow> Userdata io" where
  "setupSudo access img ct usrdata =
     (let sudoGroup = (if img_SudoGroup img = '''' then ''wheel'' else img_SudoGroup img);
          usrdata = set_env ''NSBOX_SUDO_GROUP'' sudoGroup usrdata in
      seq (lift_res access) (\<lambda>sudoAccess.
      let usrdata = set_env ''NSBOX_CAN_SUDO'' (if sudoAccess \<noteq> NoSudo then ''1'' else '''') usrdata;
          shouldSetNoPasswd = (sudoAccess = CanSudoNoPasswd);
          noPasswdFile = StorageChild ct [''etc'', ''sudoers.d'', ''10-nsbox-passwd''] in
      seq (if shouldSetNoPasswd then
             (let line = ''%'' @ sudoGroup @ '' ALL=(ALL:ALL) NOPASSWD: ALL'' in
              seq (wrap ''write nopasswd file'' (os_WriteFile noPasswdFile line 416)) (\<lambda>_.
              wrap ''chmod nopasswd file'' (os_Chmod noPasswdFile 288)))
           else wrap ''remove nopasswd file'' (unless_missing (os_Remove noPasswdFile))) (\<lambda>_.
      ret usrdata)))"

definition setUserEnv :: "string \<Rightarrow> Container \<Rightarrow> Userdata \<Rightarrow> Userdata io" where
  "setUserEnv hostMachineId ct usrdata =
     seq (Shell_of ct usrdata) (\<lambda>sh.
     let usrdata = set_env ''NSBOX_USER'' (Username (User usrdata)) usrdata;
         usrdata = set_env ''NSBOX_UID'' (Uid (User usrdata)) usrdata;
         usrdata = set_env ''NSBOX_SHELL'' sh usrdata;
         usrdata = set_env ''NSBOX_CONTAINER'' (Name ct) usrdata;
         usrdata = set_env ''NSBOX_HOST_MACHINE'' hostMachineId usrdata in
     ret (if Boot (Cfg ct) then set_env ''NSBOX_BOOTED'' ''1'' usrdata else usrdata))"

definition newline :: string where "newline = [CHR 0x0A]"

definition shared_env_text :: "Userdata \<Rightarrow> string" where
  "shared_env_text usrdata = concat (map (\<lambda>(name, value). name @ ''='' @ value @ newline) (Environ usrdata))"

text \<open>A failing write to these files is not noticed: the source ignores \<^verbatim>\<open>Fprintf\<close>'s error.\<close>

definition writeContainerFiles :: "string res \<Rightarrow> Container \<Rightarrow> string \<Rightarrow> Userdata \<Rightarrow> unit io" where
  "writeContainerFiles shadow ct hostPrivPath usrdata =
     seq (os_Create (path_join [hostPrivPath, ''shared-env''])) (\<lambda>sharedEnv.
     seq (attempt (file_write sharedEnv (Raw (shared_env_text usrdata)))) (\<lambda>_.
     if Auth (Cfg ct) = AuthAuto then
       seq (wrap ''failed to get shadow line'' (lift_res shadow)) (\<lambda>shadowLine.
       let shadowEntryPath = path_join [hostPrivPath, ''shadow-entry''] in
       seq (wrap ''failed to delete old shadow-entry'' (unless_missing (os_Remove shadowEntryPath))) (\<lambda>_.
       seq (os_Create shadowEntryPath) (\<lambda>shadowEntry.
       seq (attempt (file_chmod shadowEntry 0)) (\<lambda>_.
       seq (attempt (file_write shadowEntry (Raw (shadowLine @ newline)))) (\<lambda>_. ret ())))))
     else ret ()))"

section \<open>Private directories\<close>

definition make_owned :: "int \<Rightarrow> int \<Rightarrow> nat \<Rightarrow> string \<Rightarrow> string \<Rightarrow> string io" where
  "make_owned uid gid perm currentRoot part =
     (let path = path_join [currentRoot, part] in
      seq (attempt (os_Mkdir path perm)) (\<lambda>r.
      seq (case r of
             Inl e \<Rightarrow> if is_exist e then ret () else fail (Wrapped (''mkdir '' @ path) e)
           | Inr _ \<Rightarrow> wrap (''chown '' @ path) (os_Chown path uid gid)) (\<lambda>_.
      ret path)))"

definition MkdirAllOwnedByUser :: "string \<Rightarrow> int \<Rightarrow> int \<Rightarrow> nat \<Rightarrow> unit io" where
  "MkdirAllOwnedByUser path uid gid perm =
     (let parts = split_on CHR ''/'' path in
      seq (if is_abs path then each_acc (make_owned uid gid perm) ''/'' (drop 1 parts)
           else each_acc (make_owned uid gid perm) '''' parts) (\<lambda>_. ret ()))"

definition bind_private_dir :: "Container \<Rightarrow> launch \<Rightarrow> string \<Rightarrow> launch io" where
  "bind_private_dir ct l private =
     (let usrdata = l_usr l in
      if is_abs private \<or> contains private ''..''
      then panic (''unexpected absolute private path '' @ private)
      else
        let hostPath = PrivateHomeStorageChild ct usrdata [''home'', private] in
        seq (lift_res (NumericIds usrdata)) (\<lambda>(uid, gid).
        seq (wrap ''create private storage directory'' (MkdirAllOwnedByUser hostPath uid gid 448)) (\<lambda>_.
        bind_with (AddBindTo hostPath (path_join [HomeDir (User usrdata), private])) l)))"

definition bindPrivate :: "Container \<Rightarrow> launch \<Rightarrow> launch io" where
  "bindPrivate ct l = each_acc (bind_private_dir ct) l (PrivateDirs (Cfg ct))"

section \<open>Starting the container\<close>

text \<open>What the environment answers.\<close>

record daemon_sys =
  d_exe :: "err + string"
  d_branch_first :: bool
  d_nspawn :: "err + string"
  d_links :: "err + string list"
  d_rand :: "nat \<Rightarrow> nat"
  d_firewall :: firewalld_bus
  d_MachineID :: "err + string"
  d_userdb :: userdb
  d_sudo_tools :: sudo_tools
  d_varlink :: "string \<Rightarrow> err option"
  d_selinux :: selinux_sys
  d_Run :: "string list \<Rightarrow> err option"

text \<open>The zone's interface: named, and trusted if there is a firewall that agrees.\<close>

definition setup_network :: "daemon_sys \<Rightarrow> Container \<Rightarrow> Builder \<Rightarrow> Builder io" where
  "setup_network d ct builder =
     (let builder = builder\<lparr>Quiet := True, KeepUnit := True, NetworkVeth := VirtualNetwork (Cfg ct)\<rparr> in
      if VirtualNetwork (Cfg ct) then
        seq (wrap (''generating zone name for '' @ Name ct)
               (lift_res (GenerateUniqueLinkName (d_links d) (d_rand d) (Name ct) NetworkZonePrefix))) (\<lambda>zone.
        ret (builder\<lparr>NetworkZone := zone\<rparr>))
      else ret builder)"

text \<open>The body runs between the two deferred firewall calls.\<close>

definition with_firewall :: "daemon_sys \<Rightarrow> Container \<Rightarrow> Builder \<Rightarrow> unit io \<Rightarrow> unit io" where
  "with_firewall d ct builder body =
     (if VirtualNetwork (Cfg ct) then
        (case GetFirewall (d_firewall d) of
           None \<Rightarrow> body
         | Some firewall \<Rightarrow>
             let iface = NetworkZonePrefix @ NetworkZone builder in
             defer_do (seq (attempt (fw_close firewall)) (\<lambda>_. ret ()))
               (seq (attempt (TrustInterface firewall iface)) (\<lambda>r. case r of
                  Inl _ \<Rightarrow> body
                | Inr _ \<Rightarrow>
                    defer_do (seq (attempt (UntrustInterface firewall iface)) (\<lambda>_. ret ())) body)))
      else body)"

definition configure_builder :: "Container \<Rightarrow> Userdata \<Rightarrow> Builder \<Rightarrow> Builder" where
  "configure_builder ct usrdata builder = builder\<lparr>
     MachineDirectory := Storage ct, LinkJournal := ''host'',
     nb_MachineName := MachineName ct usrdata, Hostname := Name ct,
     Capabilities := ExtraCapabilities (Cfg ct),
     SystemCallFilter := join '' '' (SyscallFilters (Cfg ct)),
     nb_Boot := (if Boot (Cfg ct) then True else nb_Boot builder),
     AsPid2 := (if Boot (Cfg ct) then AsPid2 builder else True),
     PipeConsole := (if Boot (Cfg ct) then PipeConsole builder else True)\<rparr>"

definition bind_image :: "nat \<times> launch \<Rightarrow> Image_info \<Rightarrow> (nat \<times> launch) io" where
  "bind_image = (\<lambda>(i, l) img.
     seq (bind_with (AddBindTo (RootPath img) (path_join [InContainerPrivPath, ''images'', image_Name img])) l) (\<lambda>l.
     ret (Suc i,
       if i = 0 then with_env ''NSBOX_IMAGE_CHAIN'' (image_Name img) l
       else with_env ''NSBOX_IMAGE_CHAIN''
              ((case env_of (l_usr l) ''NSBOX_IMAGE_CHAIN'' of Some v \<Rightarrow> v | None \<Rightarrow> '''') @ '' '' @ image_Name img) l)))"

text \<open>
  \<open>fuel\<close> bounds the image chain; a chain that is longer blocks the start (the source
  would recurse on).
\<close>

definition resolve_chain :: "daemon_sys \<Rightarrow> build \<Rightarrow> nat \<Rightarrow> Image_info \<Rightarrow> Image_info list io" where
  "resolve_chain d b fuel img w =
     (case ResolveChain b (d_exe d) (d_branch_first d) fuel img False w of
        Some (r, w') \<Rightarrow> (r, w')
      | None \<Rightarrow> (Abort Blocked, w))"

definition bind_program_files :: "daemon_sys \<Rightarrow> build \<Rightarrow> nat \<Rightarrow> Container \<Rightarrow> launch \<Rightarrow>
    (launch \<times> string \<times> string \<times> Image_info \<times> string) io" where
  "bind_program_files d b fuel ct l0 =
     (let l = with_env ''HOSTNAME'' (Name ct) (with_env ''NSBOX_INTERNAL'' ''1'' l0) in
      seq (lift_res (stripLeadingSlash InContainerPrivPath)) (\<lambda>priv.
      let hostPrivPath = StorageChild ct [priv] in
      seq (wrap ''failed to create private directory'' (os_MkdirAll hostPrivPath 493)) (\<lambda>_.
      seq (bind_with (AddBindTo hostPrivPath ''/run/host/nsbox'') l) (\<lambda>l.
      seq (wrap ''failed to locate nsbox data directory'' (GetDataDir b (d_exe d))) (\<lambda>dataDir.
      seq (bind_with (AddBindTo (path_join [dataDir, ''scripts'']) (path_join [InContainerPrivPath, ''scripts''])) l) (\<lambda>l.
      seq (wrap ''failed to locate nsbox-host'' (GetPrivateExecutable b (d_exe d) ''nsbox-host'')) (\<lambda>nsboxHost.
      seq (bind_with (AddBindTo nsboxHost (path_join [InContainerPrivPath, ''bin/nsbox-host''])) l) (\<lambda>l.
      seq (wrap ''failed to get container base image path''
             (image_Open b (d_exe d) (d_branch_first d) (Image (Cfg ct)) False)) (\<lambda>mainImage.
      seq (wrap ''failed to resolve image chain'' (resolve_chain d b fuel mainImage)) (\<lambda>imgChain.
      seq (each_acc bind_image (0, l) imgChain) (\<lambda>(_, l).
      seq (wrap ''failed to read machine id'' (lift_res (of_sum (d_MachineID d)))) (\<lambda>machineId.
      let hostJournal = path_join [''/var/log/journal'', machineId] in
      seq (bind_with (AddBind hostJournal) l) (\<lambda>l.
      seq (bind_with (AddBindTo hostJournal ''/run/host/journal'') l) (\<lambda>l.
      seq (wrap ''failed to locate release files'' (GetReleaseDataDir b (d_exe d))) (\<lambda>releaseDir.
      seq (bind_with (AddBindTo releaseDir (path_join [InContainerPrivPath, ''release''])) l) (\<lambda>l.
      ret (l, hostPrivPath, dataDir, mainImage, machineId)))))))))))))))))"

definition bind_for_boot :: "Container \<Rightarrow> string \<Rightarrow> string \<Rightarrow> launch \<Rightarrow> launch io" where
  "bind_for_boot ct xdgRuntimeDir dataDir l =
     seq (bind_with (AddRecursiveBindTo xdgRuntimeDir (path_join [InContainerPrivPath, ''usr-run''])) l) (\<lambda>l.
     seq (bind_with (AddBindTo (path_join [dataDir, ''nsbox-init.service'']) ''/etc/systemd/system/nsbox-init.service'') l) (\<lambda>l.
     seq (bind_with (AddBindTo (path_join [dataDir, ''nsbox-container.target'']) ''/etc/systemd/system/nsbox-container.target'') l) (\<lambda>l.
     seq (bind_with (AddBindTo (path_join [dataDir, ''getty-override.conf''])
            ''/etc/systemd/system/console-getty.service.d/00-nsbox.conf'') l) (\<lambda>l.
     let tmpfilesX11 = StorageChild ct [''etc/tmpfiles.d/x11.conf''] in
     seq (wrap ''delete tmpfiles.d/x11.conf'' (unless_missing (os_Remove tmpfilesX11))) (\<lambda>_.
     seq (wrap ''mask tmpfiles.d/x11.conf'' (os_Symlink ''/dev/null'' tmpfilesX11)) (\<lambda>_.
     if VirtualNetwork (Cfg ct) then
       bind_with (AddBindTo (path_join [dataDir, ''wants-networkd.conf''])
         ''/etc/systemd/system/nsbox-container.target.d/00-nsbox-networkd.conf'') l
     else ret l))))))"

definition bind_without_boot :: "string \<Rightarrow> launch \<Rightarrow> launch io" where
  "bind_without_boot xdgRuntimeDir l =
     seq (bind_with (AddBind ''/var/lib/systemd/coredump'') l) (\<lambda>l.
     seq (bind_with (AddRecursiveBind xdgRuntimeDir) l) (\<lambda>l.
     case env_of (l_usr l) ''DBUS_SYSTEM_BUS_ADDRESS'' of
       Some value \<Rightarrow> bind_with (AddBind value) l
     | None \<Rightarrow> bind_with (AddBind ''/run/dbus'') l))"

definition bind_extra :: "launch \<Rightarrow> string \<Rightarrow> launch io" where
  "bind_extra l bind = (case split_n2 CHR '':'' bind of
      [host, dest] \<Rightarrow> bind_with (AddBindTo host dest) l
    | [path] \<Rightarrow> bind_with (AddBind path) l
    | _ \<Rightarrow> panic ''index out of range'')"

definition bind_user_files :: "Container \<Rightarrow> launch \<Rightarrow> launch io" where
  "bind_user_files ct l =
     seq (bind_with (AddBind ''/run/media'') l) (\<lambda>l.
     seq (bind_with (AddBindTo ''/etc'' ''/run/host/etc'') l) (\<lambda>l.
     let maildir = path_join [''/var/mail'', Username (User (l_usr l))];
         privateHome = list_ex (\<lambda>private. private = ''.'') (PrivateDirs (Cfg ct)) in
     seq (bind_with (AddBindTo maildir (path_join [InContainerPrivPath, ''mail''])) l) (\<lambda>l.
     seq (if privateHome then ret (with_env ''NSBOX_HOME'' (HomeDir (User (l_usr l))) l)
          else wrap ''failed to bind home'' (bindHome l)) (\<lambda>l.
     seq (bindDevices ct l) (\<lambda>l.
     seq (if ShareCgroupfs (Cfg ct) then bind_with (AddRecursiveBind ''/sys/fs/cgroup'') l else ret l) (\<lambda>l.
     seq (each_acc bind_extra l (ExtraBindMounts (Cfg ct))) (\<lambda>l.
     wrap ''bind private storage'' (bindPrivate ct l))))))))"

definition sudo_access :: "daemon_sys \<Rightarrow> build \<Rightarrow> Userdata \<Rightarrow> SudoAccess res" where
  "sudo_access d b usrdata =
     GetSudoAccess (EnableCvtsudoers b) (SudoGroup b) (d_userdb d) (d_sudo_tools d) usrdata"

definition startVarlinkService :: "daemon_sys \<Rightarrow> string \<Rightarrow> unit io" where
  "startVarlinkService d hostPrivPath =
     (let serviceUri = ''unix://'' @ path_join [hostPrivPath, HostServiceSocketName] in
      request ''varlink'' [serviceUri] (d_varlink d serviceUri))"

definition nspawn_environ :: "Container \<Rightarrow> string list \<Rightarrow> string list" where
  "nspawn_environ ct env =
     env @ [''NOTIFY_SOCKET='', ''SYSTEMD_NSPAWN_SHARE_NS_IPC=1''] @
     (if ShareCgroupfs (Cfg ct) then [''SYSTEMD_NSPAWN_USE_CGNS=0''] else [])"

text \<open>The child process is recorded as its argument and environment vectors.\<close>

definition run_nspawn :: "daemon_sys \<Rightarrow> Container \<Rightarrow> Builder \<Rightarrow> unit io" where
  "run_nspawn d ct builder0 =
     (let builder = builder0\<lparr>Command :=
            (if Boot (Cfg ct) then [''--'', ''--unit=nsbox-container.target'']
             else [''/run/host/nsbox/scripts/nsbox-init.sh''])\<rparr> in
      seq (lift_res (Build builder)) (\<lambda>nspawnArgs.
      seq (get_state environ) (\<lambda>env.
      seq (request ''environ'' (nspawn_environ ct env) None) (\<lambda>_.
      request ''run'' nspawnArgs (d_Run d nspawnArgs)))))"

definition prepare_and_run :: "daemon_sys \<Rightarrow> build \<Rightarrow> nat \<Rightarrow> Container \<Rightarrow> string \<Rightarrow> launch \<Rightarrow> unit io" where
  "prepare_and_run d b fuel ct xdgRuntimeDir l =
     seq (bind_program_files d b fuel ct l) (\<lambda>(l, hostPrivPath, dataDir, mainImage, machineId).
     seq (if Boot (Cfg ct) then bind_for_boot ct xdgRuntimeDir dataDir l
          else bind_without_boot xdgRuntimeDir l) (\<lambda>l.
     seq (bind_user_files ct l) (\<lambda>l.
     seq (setUserEnv machineId ct (l_usr l)) (\<lambda>usrdata.
     seq (wrap ''setup sudo'' (setupSudo (sudo_access d b usrdata) mainImage ct usrdata)) (\<lambda>usrdata.
     seq (wrap ''failed to write private container files''
            (writeContainerFiles (ShadowLine (d_userdb d) usrdata) ct hostPrivPath usrdata)) (\<lambda>_.
     seq (startVarlinkService d hostPrivPath) (\<lambda>_.
     defer_do (request ''varlink close'' [] None) (run_nspawn d ct (l_bld l)))))))))"

definition RunContainerDirectNspawn :: "daemon_sys \<Rightarrow> build \<Rightarrow> nat \<Rightarrow> Container \<Rightarrow> Userdata \<Rightarrow> unit io" where
  "RunContainerDirectNspawn d b fuel ct usrdata =
     seq (LockUntilProcessDeath ct RunLock NoWaitForLock) (\<lambda>_.
     seq (lift_res (getXdgRuntimeDir usrdata)) (\<lambda>xdgRuntimeDir.
     seq (lift_res (NewBuilder (d_nspawn d))) (\<lambda>builder.
     seq (setup_network d ct builder) (\<lambda>builder.
     with_firewall d ct builder
       (prepare_and_run d b fuel ct xdgRuntimeDir
          \<lparr>l_usr = usrdata, l_bld = configure_builder ct usrdata builder\<rparr>)))))"

end
