(* ===== verification/Daemon_Facts.thy ===== *)
theory Daemon_Facts
  imports Daemon
begin

text \<open>
  What starting a container guarantees: private directories stay inside the private
  storage and the home directory, no container runs twice, the firewall is left as it
  was found, passwordless sudo is granted exactly when the host grants it, and the
  shared environment file reads back as the environment.
\<close>

section \<open>Private directories\<close>

lemma path_join_three:
  assumes "rooted s" and "plain n" and "''..'' \<notin> set (split_on CHR ''/'' p)"
  shows "path_join [s, n, p] = path_of (path_parts s @ n # descend p)"
proof -
  let ?s = "s @ CHR ''/'' # n"
  have r: "rooted ?s" using assms(1) by (cases s) (auto simp: rooted_def)
  have parts: "path_parts ?s = path_parts s @ [n]"
    using assms(1,2) r
    by (simp add: path_parts_def split_on_append split_on_no_sep plain_def clean_parts_append_plain)
  have "path_join [s, n, p] = path_join [?s, p]"
    using assms(1) r by (cases s) (auto simp: path_join_def rooted_def)
  then show ?thesis
    using path_join_descend[OF r assms(3)] parts by simp
qed

lemma plain_var [simp]: "plain ''.var''" "plain ''home''"
  by (simp_all add: plain_def)

text \<open>Private directories as \<^verbatim>\<open>UpdateConfig\<close> accepts them.\<close>

lemma check_config_private:
  assumes "check_config c = None" and "p \<in> set (PrivateDirs c)"
  shows "\<not> is_abs p" "\<not> contains p ''..''" "''..'' \<notin> set (split_on CHR ''/'' p)"
  using assms no_dotdot_part by (auto simp: check_config_None list_all_iff)


lemma returns_AddBind [intro]: "returns (AddBindFull h d r bld)"
  unfolding AddBindFull_def by (intro returns_all returns_os) (auto split: sum.splits)

lemma returns_bind_with: "(\<And>bld. returns (add bld)) \<Longrightarrow> returns (bind_with add l)"
  unfolding bind_with_def by (intro returns_all) auto

lemma returns_MkdirAllOwnedByUser: "returns (MkdirAllOwnedByUser p uid gid perm)"
  unfolding MkdirAllOwnedByUser_def make_owned_def Let_def
  by (auto intro!: returns_all returns_os split: sum.splits)

lemma bindPrivate_usr:
  "bind_private_dir ct l p w = (Ok l', w') \<Longrightarrow> l_usr l' = l_usr l"
  unfolding bind_private_dir_def
  by (auto simp: Let_def panic_def abort_def bind_with_def ret_def split: if_splits prod.splits elim!: seq_OkD)

text \<open>
  C19: the sanity check of \<^verbatim>\<open>bindPrivate\<close> is never what stops a container: for a
  configuration that passed \<^verbatim>\<open>UpdateConfig\<close>'s checks and a user with numeric ids,
  \<^verbatim>\<open>bindPrivate\<close> returns, with the mounts or with an error, whatever calls fail.
\<close>

theorem bindPrivate_never_panics:
  assumes "check_config (Cfg ct) = None" and "NumericIds (l_usr l) = Ok ids"
  shows "bindPrivate ct l w \<noteq> (Abort a, w')"
proof -
  have "list_all (\<lambda>p. \<not> is_abs p \<and> \<not> contains p ''..'') (PrivateDirs (Cfg ct))"
    using check_config_private[OF assms(1)] by (auto simp: list_all_iff)
  then have "each_acc (bind_private_dir ct) l ps w \<noteq> (Abort a, w')"
    if "ps = PrivateDirs (Cfg ct)" for ps
    unfolding that[symmetric] using assms(2)
  proof (induction ps arbitrary: l w)
    case (Cons p ps)
    have body: "bind_private_dir ct l p =
        (let hostPath = PrivateHomeStorageChild ct (l_usr l) [''home'', p] in
         seq (lift_res (NumericIds (l_usr l))) (\<lambda>(uid, gid).
         seq (wrap ''create private storage directory'' (MkdirAllOwnedByUser hostPath uid gid 448)) (\<lambda>_.
         bind_with (AddBindTo hostPath (path_join [HomeDir (User (l_usr l)), p])) l)))"
      using Cons.prems(1) by (simp add: bind_private_dir_def Let_def)
    have r: "returns (bind_private_dir ct l p)"
      unfolding body Let_def Cons.prems(2) AddBindTo_def
      by (auto intro!: returns_seq returns_lift_res returns_wrap returns_MkdirAllOwnedByUser returns_bind_with
          split: prod.splits)
    show ?case
    proof
      assume run: "each_acc (bind_private_dir ct) l (p # ps) w = (Abort a, w')"
      show False
      proof (cases rule: seq_cases[of "bind_private_dir ct l p" w "\<lambda>l. each_acc (bind_private_dir ct) l ps"])
        case (ok l1 w1)
        then have "each_acc (bind_private_dir ct) l1 ps w1 = (Abort a, w')" using run by simp
        moreover have "NumericIds (l_usr l1) = Ok ids"
          using bindPrivate_usr[OF ok(1)] Cons.prems(2) by simp
        ultimately show False using Cons.IH Cons.prems(1) by auto
      next
        case (abort b w1)
        then show False using returnsD[OF r] by blast
      qed (use run in auto)
    qed
  qed (simp add: ret_def)
  then show ?thesis by (simp add: bindPrivate_def)
qed

section \<open>No call after the lock touches the locks\<close>

text \<open>
  \<open>quiet\<close>: the locks and descriptors are the same, and requests to other programs
  were at most added.
\<close>

definition quiet :: "world \<Rightarrow> world \<Rightarrow> bool" where
  "quiet w w' \<longleftrightarrow> same_locks w w' \<and> prefix (calls w) (calls w')"

interpretation quiet: frame quiet
  by unfold_locales
    (auto simp: quiet_def intro: same_locks.frame_refl same_locks.frame_trans prefix_order.trans)

lemma quiet_same_os: "same_os w w' \<Longrightarrow> quiet w w'"
  unfolding quiet_def same_os_def by (metis prefix_order.refl same_os_def same_os_imp(3) world.ext_inject world.surjective world.update_convs(11))

lemma keeps_quiet_os: "keeps same_os m \<Longrightarrow> keeps quiet m"
  by (erule keeps_weaken) (rule quiet_same_os)

lemmas keeps_quiet_look = keeps_look[THEN keeps_quiet_os]

lemma keeps_sys_quiet:
  assumes "\<And>w r w'. m w = (r, w') \<Longrightarrow> same_locks w w' \<and> calls w' = calls w"
  shows "keeps quiet (sys m)"
proof (rule keepsI)
  fix s r t
  assume run: "sys m s = (r, t)"
  show "quiet s t"
  proof (cases "fault s (tick s)")
    case None
    with run have "m (s\<lparr>tick := Suc (tick s)\<rparr>) = (r, t)" by (simp add: sys_def)
    from assms[OF this] show ?thesis by (simp add: same_locks_def quiet_def)
  qed (use run in \<open>auto simp: sys_def same_locks_def quiet_def\<close>)
qed

lemma keeps_quiet_tree:
  "keeps quiet (os_Mkdir p m)" "keeps quiet (os_Create p)"
  "keeps quiet (file_write q c)" "keeps quiet (file_chmod q m)"
  "keeps quiet (os_Chmod p m)" "keeps quiet (os_Chown p u g)"
  "keeps quiet (os_Remove p)" "keeps quiet (os_Rename p p')"
  "keeps quiet (os_Symlink s p)" "keeps quiet (os_WriteFile p s m)"
  unfolding os_Mkdir_def os_Create_def file_write_def file_chmod_def os_Chmod_def os_Chown_def
    os_Remove_def os_Rename_def os_Symlink_def os_WriteFile_def
  by (rule keeps_sys_quiet;
      auto simp: at_path_def same_locks_def put_node_def set_node_def
        split: sum.splits option.splits kind.splits if_splits)+

lemma keeps_quiet_request: "keeps quiet (request what args ans)"
  by (simp add: keeps_def request_def same_locks_def quiet_def split: option.splits)

lemma keeps_quiet_mkdir_all: "keeps quiet (mkdir_all m rcs)"
proof (induction rcs)
  case (Cons c rcs)
  then show ?case
    unfolding mkdir_all.simps Let_def
    by (auto intro!: quiet.keeps_all keeps_quiet_look keeps_quiet_tree split: sum.splits)
qed (simp add: quiet.keeps_ret)

lemma keeps_quiet_MkdirAll: "keeps quiet (os_MkdirAll p m)"
  by (simp add: os_MkdirAll_def keeps_quiet_mkdir_all)

lemma keeps_quiet_bind: "(\<And>bld. keeps quiet (add bld)) \<Longrightarrow> keeps quiet (bind_with add l)"
  unfolding bind_with_def by (auto intro: quiet.keeps_seq quiet.keeps_ret)

lemma keeps_quiet_AddBindFull: "keeps quiet (AddBindFull h d r bld)"
  unfolding AddBindFull_def
  by (auto intro!: quiet.keeps_all keeps_quiet_look split: sum.splits)

lemma keeps_quiet_AddBind:
  "keeps quiet (bind_with (AddBind p) l)" "keeps quiet (bind_with (AddBindTo h d) l)"
  "keeps quiet (bind_with (AddRecursiveBind p) l)" "keeps quiet (bind_with (AddRecursiveBindTo h d) l)"
  unfolding AddBind_def AddRecursiveBind_def AddBindTo_def AddRecursiveBindTo_def
  by (rule keeps_quiet_bind, rule keeps_quiet_AddBindFull)+

lemma ResolveChain_same_os: "ResolveChain b exe bf fuel img v w = Some (r, w') \<Longrightarrow> same_os w w'"
proof (induction fuel arbitrary: img w r w')
  case (Suc fuel)
  obtain r1 w1 where run: "wrap (''could not resolve parent '' @ img_Parent img)
      (image_Open b exe bf (img_Parent img) v) w = (r1, w1)" by fastforce
  have s1: "same_os w w1"
    using keepsD[OF same_os.keeps_wrap[OF keeps_image_Open] run] .
  show ?case
  proof (cases "img_Parent img = ''''")
    case True
    then show ?thesis using Suc.prems by simp
  next
    case False
    then have step: "ResolveChain b exe bf (Suc fuel) img v w = (case r1 of
        Ok p \<Rightarrow> (case ResolveChain b exe bf fuel p v w1 of
            Some (Ok chain, w2) \<Rightarrow> Some (Ok (chain @ [img]), w2) | r \<Rightarrow> r)
      | Err e \<Rightarrow> Some (Err e, w1) | Abort a \<Rightarrow> Some (Abort a, w1))"
      using run by simp
    show ?thesis
    proof (cases r1)
      case (Ok p)
      then obtain r2 where "ResolveChain b exe bf fuel p v w1 = Some (r2, w')"
        using Suc.prems unfolding step by (auto split: option.splits prod.splits res.splits)
      then show ?thesis using Suc.IH s1 same_os.frame_trans by blast
    qed (use Suc.prems s1 in \<open>simp_all add: step del: ResolveChain.simps\<close>)
  qed
qed simp

lemma keeps_quiet_resolve_chain: "keeps quiet (resolve_chain d b fuel img)"
  by (rule keepsI)
    (auto simp: resolve_chain_def quiet.frame_refl quiet_same_os dest: ResolveChain_same_os
      split: option.splits)

lemma keeps_quiet_bind_program_files: "keeps quiet (bind_program_files d b fuel ct l)"
  unfolding bind_program_files_def bind_image_def Let_def GetDataDir_def GetPrivateExecutable_def
    GetReleaseDataDir_def
  by (auto intro!: quiet.keeps_all keeps_quiet_MkdirAll keeps_quiet_AddBind keeps_quiet_resolve_chain
      keeps_quiet_os[OF keeps_GetReleaseDataDir] keeps_quiet_os[OF keeps_image_Open] split: prod.splits)

lemma keeps_quiet_bind_for_boot:
  "keeps quiet (bind_for_boot ct x dd l)" "keeps quiet (bind_without_boot x l)"
  unfolding bind_for_boot_def bind_without_boot_def Let_def
  by (auto intro!: quiet.keeps_all keeps_quiet_AddBind keeps_quiet_tree split: option.splits)

lemma keeps_quiet_EvalSymlinks: "keeps quiet (EvalSymlinks p)"
  unfolding EvalSymlinks_def
  by (rule keeps_sys_quiet) (auto simp: at_path_def same_locks_def split: sum.splits option.splits)

lemma keeps_quiet_bindHome: "keeps quiet (bindHome l)"
  unfolding bindHome_def path_Rel_def Let_def
  by (auto intro!: quiet.keeps_all keeps_quiet_AddBind keeps_quiet_look keeps_quiet_EvalSymlinks
      split: option.splits)

lemma keeps_quiet_bindDevices: "keeps quiet (bindDevices ct l)"
  unfolding bindDevices_def share_device_def os_TempDir_def
  by (auto intro!: quiet.keeps_all keeps_quiet_AddBind split: prod.splits)

lemma keeps_quiet_bindPrivate: "keeps quiet (bindPrivate ct l)"
  unfolding bindPrivate_def bind_private_dir_def MkdirAllOwnedByUser_def make_owned_def Let_def
  by (auto intro!: quiet.keeps_all keeps_quiet_AddBind keeps_quiet_tree split: sum.splits prod.splits)

lemma keeps_quiet_bind_user_files: "keeps quiet (bind_user_files ct l)"
  unfolding bind_user_files_def bind_extra_def Let_def
  by (auto intro!: quiet.keeps_all keeps_quiet_AddBind keeps_quiet_bindHome keeps_quiet_bindDevices
      keeps_quiet_bindPrivate split: list.splits)

lemma keeps_quiet_setup:
  "keeps quiet (setUserEnv m ct u)" "keeps quiet (setupSudo acc img ct u)"
  "keeps quiet (writeContainerFiles sh ct p u)"
  unfolding setUserEnv_def setupSudo_def writeContainerFiles_def Shell_of_def Let_def
  by (auto intro!: quiet.keeps_all keeps_quiet_look keeps_quiet_tree split: sum.splits)

lemma keeps_quiet_prepare_and_run: "keeps quiet (prepare_and_run d b fuel ct x l)"
  unfolding prepare_and_run_def startVarlinkService_def run_nspawn_def Let_def
  by (auto intro!: quiet.keeps_all keeps_quiet_bind_program_files keeps_quiet_bind_for_boot
      keeps_quiet_bind_user_files keeps_quiet_setup keeps_quiet_request split: prod.splits)

lemma keeps_quiet_with_firewall:
  "keeps quiet body \<Longrightarrow> keeps quiet (with_firewall d ct bld body)"
  unfolding with_firewall_def fw_close_def TrustInterface_def UntrustInterface_def fw_call_def Let_def
  by (auto intro!: quiet.keeps_all keeps_quiet_request split: option.splits sum.splits)

lemma keeps_quiet_setup_network: "keeps quiet (setup_network d ct bld)"
  unfolding setup_network_def Let_def by (auto intro!: quiet.keeps_all)

section \<open>One run at a time\<close>

text \<open>
  C3: a container never runs twice. Either \<^verbatim>\<open>RunContainerDirectNspawn\<close> returns an
  error having asked nothing of any other program (no nspawn, no firewall call) and
  having touched nothing but the lock files, as it does whenever another process holds
  the run lock; or it took the run lock, which nobody held, before the first such
  request, and still holds it when it returns.
\<close>

theorem Run_exclusive:
  assumes "lockable ct cs w" and "fds_ok w"
    and "RunContainerDirectNspawn d b fuel ct usrdata w = (r, w')"
  shows "(\<exists>e. r = Err e \<and> calls w' = calls w \<and> same_but_locks cs w w' \<and> flocks w' = flocks w) \<or>
    (\<exists>i fd w1. same_but_locks cs w w1 \<and> calls w1 = calls w \<and>
       fs_get (disk w1) (lock_loc cs RunLock) = Some i \<and> flocks w (i_ino i) = None \<and>
       flocks w1 (i_ino i) = Some (Mine fd) \<and> flocks w' = flocks w1)"
proof -
  obtain rl w1 where lock: "Lock ct RunLock NoWaitForLock w = (rl, w1)" by fastforce
  note out = Lock_outcome[OF lock assms(1,2)]
  have calls: "calls w1 = calls w"
    using keepsD[OF keeps_calls_Lock lock] by (simp add: same_calls_def)
  show ?thesis
  proof (cases rl)
    case (Err e)
    then have "r = Err e" "w' = w1"
      using assms(3) lock by (simp_all add: RunContainerDirectNspawn_def LockUntilProcessDeath_def run_simps)
    then show ?thesis using calls out(1,5) Err by simp
  next
    case (Abort a)
    then show ?thesis using out(5) by simp
  next
    case (Ok held)
    let ?rest = "seq (lift_res (getXdgRuntimeDir usrdata)) (\<lambda>xdgRuntimeDir.
     seq (lift_res (NewBuilder (d_nspawn d))) (\<lambda>builder.
     seq (setup_network d ct builder) (\<lambda>builder.
     with_firewall d ct builder
       (prepare_and_run d b fuel ct xdgRuntimeDir
          \<lparr>l_usr = usrdata, l_bld = configure_builder ct usrdata builder\<rparr>))))"
    have "?rest w1 = (r, w')"
      using assms(3) lock Ok
      by (simp add: RunContainerDirectNspawn_def LockUntilProcessDeath_def seq_def[of "Lock _ _ _"]
          seq_def[of "seq (Lock _ _ _) _"] ret_def)
    moreover have "keeps quiet ?rest"
      by (auto intro!: quiet.keeps_all keeps_quiet_setup_network keeps_quiet_with_firewall
          keeps_quiet_prepare_and_run)
    ultimately have "flocks w' = flocks w1" by (auto dest: keepsD simp: quiet_def same_locks_def)
    moreover obtain fd i where i: "fd \<in> set held" "fs_get (disk w1) (lock_loc cs RunLock) = Some i"
      "flocks w1 (i_ino i) = Some (Mine fd)"
      using out(5) Ok by (auto simp: holds_def levels_of_def)
    moreover have "flocks w (i_ino i) = None"
    proof -
      have "without held (flocks w1) (i_ino i) = flocks w (i_ino i)" using out(5) Ok by simp
      then show ?thesis using i by (simp add: without_def)
    qed
    ultimately show ?thesis using calls out(1) by blast
  qed
qed

section \<open>The firewall\<close>

text \<open>Ways of ending that unwind the stack, so that deferred calls run.\<close>

definition unwinds :: "'a res \<Rightarrow> bool" where
  "unwinds r \<longleftrightarrow> (\<forall>a. r = Abort a \<longrightarrow> (\<exists>msg. a = Panic msg))"

lemma defer_do_calls:
  assumes "defer_do (seq (attempt (request what args ans)) (\<lambda>_. ret ())) body w = (r, w')" and "unwinds r"
  shows "\<exists>w1. body w = (r, w1) \<and> calls w' = calls w1 @ [(what, args)]"
proof -
  obtain r1 w1 where b: "body w = (r1, w1)" by fastforce
  have fin: "seq (attempt (request what args ans)) (\<lambda>_. ret ()) w1 =
      (Ok (), w1\<lparr>calls := calls w1 @ [(what, args)]\<rparr>)"
    by (cases ans) (simp_all add: run_simps request_def)
  show ?thesis
    using assms b fin by (auto simp: defer_do_def unwinds_def split: res.splits abort.splits)
qed

text \<open>
  C20: the firewall is left as it was found: when the firewall agreed to trust the
  container's interface, then however the run ends (success, any error, a panic), the
  last requests it makes take that interface out of the trusted zone again and close
  the connection.
\<close>

theorem firewall_restored:
  assumes "VirtualNetwork (Cfg ct)" and "GetFirewall (d_firewall d) = Some fw"
    and "fw_Call fw firewalldZoneChangeInterfaceMethod trustedZone (NetworkZonePrefix @ NetworkZone bld) = None"
    and "with_firewall d ct bld (prepare_and_run d b fuel ct x l) w = (r, w')" and "unwinds r"
  shows "\<exists>during. calls w' = calls w @
      [(firewalldZoneChangeInterfaceMethod, [trustedZone, NetworkZonePrefix @ NetworkZone bld])] @ during @
      [(firewalldZoneRemoveInterfaceMethod, [trustedZone, NetworkZonePrefix @ NetworkZone bld]), (''Close'', [])]"
proof -
  let ?iface = "NetworkZonePrefix @ NetworkZone bld" and ?body = "prepare_and_run d b fuel ct x l"
  let ?un = "defer_do (seq (attempt (UntrustInterface fw ?iface)) (\<lambda>_. ret ())) ?body"
  let ?w1 = "w\<lparr>calls := calls w @ [(firewalldZoneChangeInterfaceMethod, [trustedZone, ?iface])]\<rparr>"
  have run: "defer_do (seq (attempt (fw_close fw)) (\<lambda>_. ret ()))
      (seq (attempt (TrustInterface fw ?iface)) (\<lambda>r. case r of Inl _ \<Rightarrow> ?body | Inr _ \<Rightarrow> ?un)) w = (r, w')"
    using assms(1,2,4) by (simp add: with_firewall_def Let_def)
  then obtain w2 where w2: "seq (attempt (TrustInterface fw ?iface))
      (\<lambda>r. case r of Inl _ \<Rightarrow> ?body | Inr _ \<Rightarrow> ?un) w = (r, w2)" "calls w' = calls w2 @ [(''Close'', [])]"
    unfolding fw_close_def using defer_do_calls[OF _ assms(5)] by blast
  have "TrustInterface fw ?iface w = (Ok (), ?w1)"
    using assms(3) by (simp add: TrustInterface_def fw_call_def request_def)
  then have "?un ?w1 = (r, w2)" using w2(1) by (simp add: run_simps)
  then obtain w3 where w3: "?body ?w1 = (r, w3)"
    "calls w2 = calls w3 @ [(firewalldZoneRemoveInterfaceMethod, [trustedZone, ?iface])]"
    unfolding UntrustInterface_def fw_call_def using defer_do_calls[OF _ assms(5)] by blast
  have "prefix (calls ?w1) (calls w3)"
    using keepsD[OF keeps_quiet_prepare_and_run w3(1)] by (simp add: quiet_def)
  then obtain during where "calls w3 = calls ?w1 @ during" by (auto simp: prefix_def)
  then show ?thesis using w2(2) w3(2) by simp
qed

section \<open>Passwordless sudo\<close>

text \<open>Nothing is reported missing that is there.\<close>

definition honest :: "world \<Rightarrow> bool" where
  "honest w \<longleftrightarrow> (\<forall>n e keep. fault w n = Some (e, keep) \<longrightarrow> e \<noteq> ENOENT)"

lemma sudoers_path:
  assumes "located ct cs w"
  shows "StorageChild ct [''etc'', ''sudoers.d'', ''10-nsbox-passwd''] =
    path_of ((cs @ [''storage'', ''etc'', ''sudoers.d'']) @ [''10-nsbox-passwd''])"
  using locatedD[OF assms] by (simp add: StorageChild_def Storage_def plain_def)

lemma os_Remove_honest:
  assumes "resolve False w p = Inr q" and "q \<noteq> []" and "honest w"
    and "unless_missing (os_Remove p) w = (Ok (), w')"
  shows "fs_get (disk w') q = None \<and> (\<forall>r. r \<noteq> q \<longrightarrow> fs_get (disk w') r = fs_get (disk w) r)"
  using assms(1,2)
proof (cases rule: os_Remove_cases)
  case (err e w1)
  have nf: "fault w (tick w) \<noteq> None \<Longrightarrow> e \<noteq> Errno ENOENT"
  proof -
    assume "fault w (tick w) \<noteq> None"
    then obtain e' keep where f: "fault w (tick w) = Some (e', keep)" by fastforce
    then have "e = Errno e'" using err(1) by (auto simp: os_Remove_def sys_def split: if_splits)
    then show ?thesis using assms(3) f by (auto simp: honest_def)
  qed
  show ?thesis
    using err assms(4) nf same_osD(1)[OF err(2)]
    by (auto simp: unless_missing_run is_not_exist_def split: if_splits)
next
  case (ok i w1)
  then show ?thesis using assms(4) by (simp add: unless_missing_run)
qed

lemma os_WriteFile_effect:
  assumes "resolve True w p = Inr q" and "q \<noteq> []" and "os_WriteFile p s m w = (Ok (), w')"
  shows "\<exists>i. fs_get (disk w') q = Some i \<and> i_kind i = Regular (Raw s)"
    "\<forall>r. r \<noteq> q \<longrightarrow> fs_get (disk w') r = fs_get (disk w) r" "cwd w' = cwd w"
  using assms
  by (auto simp: os_WriteFile_def sys_def at_path_def put_node_def set_node_def Let_def
      split: option.splits kind.splits prod.splits)

lemma os_Chmod_effect:
  assumes "resolve True w p = Inr q" and "q \<noteq> []" and "os_Chmod p m w = (Ok (), w')"
  shows "\<exists>i. fs_get (disk w) q = Some i \<and> fs_get (disk w') q = Some (i\<lparr>i_mode := m\<rparr>)"
    "\<forall>r. r \<noteq> q \<longrightarrow> fs_get (disk w') r = fs_get (disk w) r"
  using assms
  by (auto simp: os_Chmod_def sys_def at_path_def set_node_def Let_def
      split: option.splits prod.splits)

lemma setupSudo_contents:
  assumes "located ct cs w" and "solid (disk w) (cs @ [''storage'', ''etc'', ''sudoers.d''])"
    and "no_link (disk w) (cs @ [''storage'', ''etc'', ''sudoers.d'', ''10-nsbox-passwd''])" and "honest w"
    and "setupSudo (Ok access) img ct usrdata w = (Ok usrdata', w')"
  shows "(case fs_get (disk w') (cs @ [''storage'', ''etc'', ''sudoers.d'', ''10-nsbox-passwd'']) of
       None \<Rightarrow> access \<noteq> CanSudoNoPasswd
     | Some i \<Rightarrow> access = CanSudoNoPasswd \<and> i_mode i = 288 \<and>
         i_kind i = Regular (Raw (''%'' @ (if img_SudoGroup img = '''' then ''wheel'' else img_SudoGroup img) @
           '' ALL=(ALL:ALL) NOPASSWD: ALL''))) \<and>
    (\<forall>q. q \<noteq> cs @ [''storage'', ''etc'', ''sudoers.d'', ''10-nsbox-passwd''] \<longrightarrow>
       fs_get (disk w') q = fs_get (disk w) q)"
proof -
  let ?cs = "cs @ [''storage'', ''etc'', ''sudoers.d'']" let ?q = "?cs @ [''10-nsbox-passwd'']"
  let ?g = "if img_SudoGroup img = '''' then ''wheel'' else img_SudoGroup img"
  let ?line = "''%'' @ ?g @ '' ALL=(ALL:ALL) NOPASSWD: ALL''"
  have pl: "list_all plain ?cs" "plain ''10-nsbox-passwd''"
    using locatedD(2)[OF assms(1)] by (simp_all add: plain_def)
  have "(case fs_get (disk w') ?q of
       None \<Rightarrow> access \<noteq> CanSudoNoPasswd
     | Some i \<Rightarrow> access = CanSudoNoPasswd \<and> i_mode i = 288 \<and> i_kind i = Regular (Raw ?line)) \<and>
    (\<forall>q. q \<noteq> ?q \<longrightarrow> fs_get (disk w') q = fs_get (disk w) q)"
  proof (cases "access = CanSudoNoPasswd")
    case True
    then obtain w1 where w1: "os_WriteFile (path_of ?q) ?line 416 w = (Ok (), w1)"
      "os_Chmod (path_of ?q) 288 w1 = (Ok (), w')"
      using assms(5) unfolding setupSudo_def sudoers_path[OF assms(1)] Let_def
      by (auto simp: run_simps split: prod.splits res.splits)
    have r: "resolve True w (path_of ?q) = Inr ?q"
      using assms(2,3) pl by (intro resolve_no_link) simp_all
    note e1 = os_WriteFile_effect[OF r _ w1(1)]
    then obtain i where i: "fs_get (disk w1) ?q = Some i" "i_kind i = Regular (Raw ?line)" by auto
    have "solid (disk w1) ?cs"
    proof (rule solid_cong[OF assms(2)])
      fix q assume "prefix q ?cs"
      then have "q \<noteq> ?q" by (auto dest: prefix_length_le)
      then show "fs_get (disk w1) q = fs_get (disk w) q" using e1(2) by simp
    qed
    then have "resolve True w1 (path_of ?q) = Inr ?q"
      using pl i by (intro resolve_no_link) (simp_all add: no_link_def)
    from os_Chmod_effect[OF this _ w1(2)] show ?thesis
      using True i e1(2) by auto
  next
    case False
    then have "unless_missing (os_Remove (path_of ?q)) w = (Ok (), w')"
      using assms(5) unfolding setupSudo_def sudoers_path[OF assms(1)] Let_def
      by (auto simp: seq_def wrap_run lift_res_def ret_def split: prod.splits res.splits)
    moreover have "resolve False w (path_of ?q) = Inr ?q"
      using assms(2) pl by (intro resolve_nofollow) simp_all
    ultimately show ?thesis
      using os_Remove_honest[of w "path_of ?q" ?q w'] assms(4) False by simp
  qed
  then show ?thesis by simp
qed

text \<open>
  C21: passwordless sudo inside follows the host: when \<^verbatim>\<open>setupSudo\<close> succeeds, the file
  \<^verbatim>\<open>10-nsbox-passwd\<close> exists exactly if the host grants passwordless access, and then
  it holds the one rule for the image's sudo group, readable only; a file left from an
  earlier run is gone otherwise. Nothing else on disk differs, and the variables tell
  the container the group and whether sudo is allowed at all.
\<close>

theorem setupSudo_effect:
  assumes "located ct cs w" and "solid (disk w) (cs @ [''storage'', ''etc'', ''sudoers.d''])"
    and "no_link (disk w) (cs @ [''storage'', ''etc'', ''sudoers.d'', ''10-nsbox-passwd''])" and "honest w"
    and "setupSudo (Ok access) img ct usrdata w = (Ok usrdata', w')"
  shows "(case fs_get (disk w') (cs @ [''storage'', ''etc'', ''sudoers.d'', ''10-nsbox-passwd'']) of
       None \<Rightarrow> access \<noteq> CanSudoNoPasswd
     | Some i \<Rightarrow> access = CanSudoNoPasswd \<and> i_mode i = 288 \<and>
         i_kind i = Regular (Raw (''%'' @ (if img_SudoGroup img = '''' then ''wheel'' else img_SudoGroup img) @
           '' ALL=(ALL:ALL) NOPASSWD: ALL''))) \<and>
    (\<forall>q. q \<noteq> cs @ [''storage'', ''etc'', ''sudoers.d'', ''10-nsbox-passwd''] \<longrightarrow>
       fs_get (disk w') q = fs_get (disk w) q) \<and>
    env_of usrdata' ''NSBOX_CAN_SUDO'' = Some (if access = NoSudo then '''' else ''1'') \<and>
    env_of usrdata' ''NSBOX_SUDO_GROUP'' =
      Some (if img_SudoGroup img = '''' then ''wheel'' else img_SudoGroup img)"
proof -
  have "env_of usrdata' ''NSBOX_CAN_SUDO'' = Some (if access = NoSudo then '''' else ''1'') \<and>
    env_of usrdata' ''NSBOX_SUDO_GROUP'' =
      Some (if img_SudoGroup img = '''' then ''wheel'' else img_SudoGroup img)"
    using assms(5)
    by (auto simp: setupSudo_def Let_def run_simps env_of_def set_env_def update_conv'
        split: prod.splits res.splits if_splits)
  then show ?thesis using setupSudo_contents[OF assms] by simp
qed

end
