(* ===== verification/Pty_Service.thy ===== *)
theory Pty_Service
  imports Transport Container_Ops
begin

text \<open>
  \<^verbatim>\<open>internal/ptyservice\<close>: a service inside the container opens a pseudo terminal
  and sends its master descriptor and the name of its slave over a Unix socket;
  the client outside receives both.
\<close>

definition maxPathSize :: nat where "maxPathSize = 16"

text \<open>\<^verbatim>\<open>[]byte(s)\<close> and \<^verbatim>\<open>string(b)\<close>\<close>

definition bytes_of :: "string \<Rightarrow> byte list" where
  "bytes_of s = map (\<lambda>c. word_of_nat (of_char c)) s"

definition string_of :: "byte list \<Rightarrow> string" where
  "string_of bs = map (\<lambda>b. char_of (unat b)) bs"

lemma string_of_bytes_of [simp]: "string_of (bytes_of s) = s"
proof -
  have "char_of (unat (word_of_nat (of_char c) :: byte)) = c" for c :: char
  proof -
    have "(of_char c :: nat) < 256" by simp
    then have "unat (word_of_nat (of_char c) :: byte) = of_char c"
      by (simp add: unat_of_nat take_bit_nat_eq_self)
    then show ?thesis by simp
  qed
  then show ?thesis by (simp add: string_of_def bytes_of_def comp_def map_idI)
qed

lemma length_bytes_of [simp]: "length (bytes_of s) = length s"
  by (simp add: bytes_of_def)

section \<open>The service\<close>

text \<open>
  \<open>pty\<close> is what \<^verbatim>\<open>pty.Open\<close> gives: the master descriptor and the slave's name;
  \<open>conn_file\<close> and \<open>sendmsg\<close> are the errors of those calls. The result is what the
  handler puts on the connection before it closes it.
\<close>

definition handlePtyRequest :: "(err + int \<times> string) \<Rightarrow> err option \<Rightarrow> (packet \<Rightarrow> err option) \<Rightarrow> packet list" where
  "handlePtyRequest pty conn_file sendmsg = (case pty of
      Inl e \<Rightarrow> []
    | Inr (fd, path) \<Rightarrow>
        let bytePath = bytes_of path in
        if length bytePath > maxPathSize then []
        else if conn_file \<noteq> None then []
        else (case sendmsg (bytePath, [fd]) of
            Some e \<Rightarrow> []
          | None \<Rightarrow> [(bytePath, [fd])]))"

text \<open>\<^verbatim>\<open>StartPtyService\<close>; the accept loop then runs \<open>handlePtyRequest\<close> per connection.\<close>

definition StartPtyService :: "(string \<Rightarrow> unit io) \<Rightarrow> unit io" where
  "StartPtyService listen =
     (let socketPath = ''/run/host/nsbox/'' @ PtyServiceSocketName in
      seq (wrap ''failed to remove old pty service socket'' (unless_missing (os_Remove socketPath))) (\<lambda>_.
      wrap ''failed to listen on pty service socket'' (listen socketPath)))"

section \<open>The client\<close>

text \<open>
  \<open>dial\<close> connects to a socket: the connection is the list of packets that the
  service sends on it.
\<close>

definition OpenPtyInContainer :: "(string \<Rightarrow> err + packet list) \<Rightarrow> err option \<Rightarrow> receiver \<Rightarrow> Container \<Rightarrow>
    (int \<times> string) res" where
  "OpenPtyInContainer dial conn_file rx ct =
     (case dial (StorageChild ct [InContainerPrivPath, PtyServiceSocketName]) of
        Inl e \<Rightarrow> Err (Wrapped ''failed to connect to pty service'' e)
      | Inr wire \<Rightarrow> (case conn_file of
          Some e \<Rightarrow> Err (Wrapped ''failed to access connection file'' e)
        | None \<Rightarrow> (case fst (recvmsg (rx_fault rx 0) maxPathSize (nat (CmsgSpace 4)) wire) of
            Inl e \<Rightarrow> Err (Wrapped ''failed to receive pty message'' e)
          | Inr (pathBuffer, control) \<Rightarrow> (case rx_ParseControl rx (nat (CmsgSpace 4)) control of
              Inl e \<Rightarrow> Err (Wrapped ''failed to parse pty control message'' e)
            | Inr [rights] \<Rightarrow>
                (case rights of
                   [fd] \<Rightarrow> if fd < 0 then Abort (Panic ''given invalid fd by pty service'')
                           else Ok (fd, string_of pathBuffer)
                 | _ \<Rightarrow> Err (Msg (''unexpected '' @ show_nat (length rights) @ '' fds from pty service'')))
            | Inr cs \<Rightarrow> Err (Msg ''unexpected control messages from pty service'')))))"

text \<open>
  C28: the pty hand-over: when the service can open a pty and send it, the client
  gets that descriptor and the slave's full name; a name too long for the client's
  buffer is never sent (so never truncated), and the client then reports an error.
\<close>

theorem pty_hand_over:
  assumes "dial (StorageChild ct [InContainerPrivPath, PtyServiceSocketName]) =
      Inr (handlePtyRequest (Inr (fd, path)) None (\<lambda>_. None))"
    and "0 \<le> fd" and "\<And>n. rx_fault rx n = None" and "rx_ParseControl rx 24 (Some [fd]) = Inr [[fd]]"
    and "rx_ParseControl rx 24 None = Inl e"
  shows "OpenPtyInContainer dial None rx ct =
    (if length path \<le> 16 then Ok (fd, path)
     else Err (Wrapped ''failed to parse pty control message'' e))"
proof (cases "length path \<le> 16")
  case True
  then have "handlePtyRequest (Inr (fd, path)) None (\<lambda>_. None) = [(bytes_of path, [fd])]"
    by (simp add: handlePtyRequest_def maxPathSize_def Let_def)
  then show ?thesis
    using assms True by (simp add: OpenPtyInContainer_def recvmsg_def maxPathSize_def CmsgSpace_def)
next
  case False
  then have "handlePtyRequest (Inr (fd, path)) None (\<lambda>_. None) = []"
    by (simp add: handlePtyRequest_def maxPathSize_def Let_def)
  then show ?thesis
    using assms False by (simp add: OpenPtyInContainer_def recvmsg_def CmsgSpace_def)
qed

end
