(* ===== verification/Nsbus.thy ===== *)
theory Nsbus
  imports File_Laws
begin

text \<open>
  \<^verbatim>\<open>internal/nsbus\<close>: the bus inside a container. A forked child joins the container's mount
  namespace and connects a socket to the bus there; the parent forwards a private socket
  to it and connects to that one. Sockets and the namespace are descriptors of the
  process; what the kernel, the temporary directory's package and the bus library answer
  is a parameter.
\<close>

section \<open>The kernel and the libraries\<close>

text \<open>The system calls of the child answer with the number of an error, or succeed.\<close>

record nsbus_sys =
  nb_tempdir :: "err + string"
  nb_open_ns :: "string \<Rightarrow> err option"
  nb_socket :: "err option"
  nb_clone :: "err option"
  nb_setns :: "nat option"
  nb_connect :: "string \<Rightarrow> nat option"
  nb_killed :: bool
  nb_wait :: "err option"
  nb_listen :: "string \<Rightarrow> err option"
  nb_dial :: "string \<Rightarrow> err option"
  nb_accept :: "err option"

definition new_descriptor :: "err option \<Rightarrow> nat io" where
  "new_descriptor failing w = (case failing of
      Some e \<Rightarrow> (Err e, w)
    | None \<Rightarrow> (Ok (next_fd w), w\<lparr>fds := (fds w)(next_fd w := Some (next_ino w)), next_fd := Suc (next_fd w),
        next_ino := Suc (next_ino w)\<rparr>))"

definition answer :: "err option \<Rightarrow> unit io" where
  "answer failing = (case failing of Some e \<Rightarrow> fail e | None \<Rightarrow> ret ())"

section \<open>The address\<close>

definition PrivateBusTmpdir :: string where
  "PrivateBusTmpdir = ''/tmp/nsbox''"

definition busPath :: string where
  "busPath = ''/run/dbus/system_bus_socket''"

text \<open>
  \<^verbatim>\<open>RawSockaddrUnix\<close>: 108 bytes, filled from the front and ended by a zero byte; the
  length that is passed along counts the two bytes of the family, the path, and the end.
\<close>

definition sockaddr_Path :: "string \<Rightarrow> string" where
  "sockaddr_Path path = (take 108 path @ replicate (108 - length path) (CHR 0x00))[length path := CHR 0x00]"

definition sockaddrLen :: "string \<Rightarrow> nat" where
  "sockaddrLen path = 2 + (length path + 1)"

text \<open>What the kernel reads: the bytes of the length, up to the first zero.\<close>

definition kernel_path :: "string \<Rightarrow> nat \<Rightarrow> string" where
  "kernel_path bytes len = takeWhile (\<lambda>c. c \<noteq> CHR 0x00) (take (len - 2) bytes)"

section \<open>Connecting\<close>

text \<open>The status the child exits with: the kernel keeps its low byte.\<close>

definition forkAndRunChild :: "nsbus_sys \<Rightarrow> string \<Rightarrow> nat \<Rightarrow> nat res" where
  "forkAndRunChild nb bytes len = (case nb_clone nb of
      Some e \<Rightarrow> Err e
    | None \<Rightarrow> Ok ((case nb_setns nb of
          Some n \<Rightarrow> n
        | None \<Rightarrow> (case nb_connect nb (kernel_path bytes len) of
            Some n \<Rightarrow> 128 + n
          | None \<Rightarrow> 0)) mod 256))"

text \<open>A copying goroutine: the outcomes of \<^verbatim>\<open>io.Copy\<close> in turn; it ends in a fatal error, or never.\<close>

partial_function (option) copyForever :: "(nat \<Rightarrow> err option) \<Rightarrow> nat \<Rightarrow> abort option" where
  "copyForever copied n = (case copied n of
      Some e \<Rightarrow> Some (Exited 1)
    | None \<Rightarrow> copyForever copied (Suc n))"

text \<open>The forwarding goroutine: the loops it leaves running, or how it ends the program.\<close>

definition forwardListenerToSocket ::
  "nsbus_sys \<Rightarrow> (nat \<Rightarrow> err option) \<Rightarrow> (nat \<Rightarrow> err option) \<Rightarrow> abort option list" where
  "forwardListenerToSocket nb into out_of = (case nb_accept nb of
      Some e \<Rightarrow> [Some (Exited 1)]
    | None \<Rightarrow> [copyForever into 0, copyForever out_of 0])"

definition child_state :: "nsbus_sys \<Rightarrow> nat \<Rightarrow> string" where
  "child_state nb status = (if nb_killed nb then ''signal: killed'' else ''exit status '' @ show_nat status)"

definition close_quietly :: "nat \<Rightarrow> unit io" where
  "close_quietly fd = seq (attempt (unix_Close fd)) (\<lambda>_. ret ())"

text \<open>Up to the listener: the deferred call closes the socket when the function fails here.\<close>

definition connect_socket :: "nsbus_sys \<Rightarrow> string \<Rightarrow> nat \<Rightarrow> unit io" where
  "connect_socket nb forwardSockPath sock =
     on_err
       (seq (wrap ''fork'' (lift_res (forkAndRunChild nb (sockaddr_Path busPath) (sockaddrLen busPath)))) (\<lambda>status.
        seq (wrap ''wait for bus connector'' (answer (nb_wait nb))) (\<lambda>_.
        seq (if nb_killed nb \<or> status \<noteq> 0 then fail (Msg (''bus connector: '' @ child_state nb status)) else ret ()) (\<lambda>_.
        on_err (answer (nb_listen nb forwardSockPath))
          (\<lambda>e. seq (close_quietly sock) (\<lambda>_. fail (Wrapped ''forward listener'' e)))))))
       (\<lambda>e. seq (close_quietly sock) (\<lambda>_. fail e))"

text \<open>From the socket on, while the namespace's descriptor is open.\<close>

definition dial_forwarded :: "nsbus_sys \<Rightarrow> string \<Rightarrow> unit io" where
  "dial_forwarded nb forwardSockPath =
     seq (wrap ''create socket'' (new_descriptor (nb_socket nb))) (\<lambda>sock.
     seq (connect_socket nb forwardSockPath sock) (\<lambda>_.
     on_err (answer (nb_dial nb (''unix:path='' @ forwardSockPath)))
       (\<lambda>e. seq (close_quietly sock) (\<lambda>_. fail (Wrapped ''dialing forwarded bus socket'' e)))))"

definition DialBusInsideNamespace :: "nsbus_sys \<Rightarrow> nat \<Rightarrow> unit io" where
  "DialBusInsideNamespace nb nspid =
     seq (wrap ''craete nsbus socket dir'' (lift_res (of_sum (nb_tempdir nb)))) (\<lambda>forwardSockDir.
     let forwardSockPath = path_join [forwardSockDir, ''bus''] in
     seq (wrap ''open mnt ns fd'' (new_descriptor (nb_open_ns nb (''/proc/'' @ show_nat nspid @ ''/ns/mnt'')))) (\<lambda>nsfd.
     defer_do (close_quietly nsfd) (dial_forwarded nb forwardSockPath)))"

section \<open>What connecting does\<close>

text \<open>The address is read back as it was meant, and fits.\<close>

lemma kernel_path_busPath: "length busPath < 108 \<and> kernel_path (sockaddr_Path busPath) (sockaddrLen busPath) = busPath"
  by code_simp

text \<open>
  The child's status tells success apart from failure unless the connection fails with
  error 128, whose status wraps round to zero.
\<close>

lemma child_status:
  assumes "\<And>n. nb_setns nb = Some n \<Longrightarrow> 0 < n \<and> n < 256"
    and "\<And>n. nb_connect nb busPath = Some n \<Longrightarrow> 0 < n \<and> n < 256 \<and> n \<noteq> 128"
  shows "forkAndRunChild nb (sockaddr_Path busPath) (sockaddrLen busPath) = Ok 0 \<longleftrightarrow>
    nb_clone nb = None \<and> nb_setns nb = None \<and> nb_connect nb busPath = None"
proof -
  have "(128 + n) mod 256 \<noteq> 0" if "0 < n" "n < 256" "n \<noteq> 128" for n :: nat using that by presburger
  then show ?thesis
    using assms kernel_path_busPath by (auto simp: forkAndRunChild_def split: option.splits)
qed

lemma child_status_wraps:
  "nb_clone nb = None \<Longrightarrow> nb_setns nb = None \<Longrightarrow> nb_connect nb busPath = Some 128 \<Longrightarrow>
     forkAndRunChild nb (sockaddr_Path busPath) (sockaddrLen busPath) = Ok 0"
  using kernel_path_busPath by (simp add: forkAndRunChild_def)

text \<open>\<^verbatim>\<open>io.Copy\<close> returns without an error at the end of its input: the loop then never ends.\<close>

lemma copyForever_ends:
  assumes "copyForever copied k = Some a"
  shows "\<exists>n\<ge>k. copied n \<noteq> None"
  using assms
proof (rule copyForever.raw_induct[rotated, where P = "\<lambda>copied k a. \<exists>n\<ge>k. copied n \<noteq> None"])
  fix f :: "(nat \<Rightarrow> err option) \<Rightarrow> nat \<Rightarrow> abort option" and copied k a
  assume IH: "\<And>copied k a. f copied k = Some a \<Longrightarrow> \<exists>n\<ge>k. copied n \<noteq> None"
    and run: "(case copied k of None \<Rightarrow> f copied (Suc k) | Some e \<Rightarrow> Some (Exited 1)) = Some a"
  show "\<exists>n\<ge>k. copied n \<noteq> None"
  proof (cases "copied k")
    case None
    then obtain n where "Suc k \<le> n" "copied n \<noteq> None" using IH run by fastforce
    then show ?thesis by (intro exI[of _ n]) simp
  qed auto
qed

lemma copyForever_spins: "\<forall>n. copied n = None \<Longrightarrow> copyForever copied k = None"
  using copyForever_ends[of copied k] by (cases "copyForever copied k") auto

lemma close_quietly_run:
  "\<exists>w'. close_quietly fd w = (Ok (), w') \<and> fds w' = (fds w)(fd := None) \<and> disk w' = disk w \<and>
     next_fd w' = next_fd w \<and> next_ino w' = next_ino w"
proof (cases "fds w fd")
  case None
  then have "(fds w)(fd := None) = fds w" by (simp add: fun_upd_idem)
  then show ?thesis using None by (simp add: close_quietly_def unix_Close_def run_simps ret_def)
next
  case (Some n)
  show ?thesis
    using Some by (rule unix_Close_run) (auto simp: close_quietly_def run_simps ret_def same_disk_def)
qed

lemma connect_socket_run:
  assumes "connect_socket nb path sock w = (r, w')"
  shows "(r = Ok () \<and> w' = w \<and> nb_listen nb path = None \<and>
      forkAndRunChild nb (sockaddr_Path busPath) (sockaddrLen busPath) = Ok 0) \<or>
    (\<exists>e. r = Err e \<and> fds w' = (fds w)(sock := None) \<and> disk w' = disk w)"
proof -
  obtain w1 where c: "close_quietly sock w = (Ok (), w1)" "fds w1 = (fds w)(sock := None)" "disk w1 = disk w"
    using close_quietly_run by blast
  obtain w2 where c2: "close_quietly sock w1 = (Ok (), w2)" "fds w2 = (fds w)(sock := None)" "disk w2 = disk w"
    using close_quietly_run[of sock w1] c by auto
  have fork: "forkAndRunChild nb x y \<noteq> Abort a" for x y a by (simp add: forkAndRunChild_def split: option.splits)
  show ?thesis
  proof (cases "forkAndRunChild nb (sockaddr_Path busPath) (sockaddrLen busPath)")
    case (Ok status)
    then show ?thesis
      using assms c c2
      by (cases "nb_wait nb"; cases "nb_killed nb \<or> status \<noteq> 0"; cases "nb_listen nb path")
        (auto simp: connect_socket_def run_simps lift_res_def answer_def fail_def ret_def)
  next
    case (Err e)
    then show ?thesis using assms c by (auto simp: connect_socket_def run_simps lift_res_def fail_def)
  qed (use fork in blast)
qed

lemma dial_forwarded_run:
  assumes "fds w (next_fd w) = None" and run: "dial_forwarded nb path w = (r, w')"
  shows "disk w' = disk w \<and> ((\<exists>e. r = Err e \<and> fds w' = fds w) \<or>
    r = Ok () \<and> fds w' = (fds w)(next_fd w := Some (next_ino w)) \<and> nb_listen nb path = None \<and>
      nb_dial nb (''unix:path='' @ path) = None \<and> forkAndRunChild nb (sockaddr_Path busPath) (sockaddrLen busPath) = Ok 0)"
proof (cases "nb_socket nb")
  case (Some e)
  then show ?thesis using run by (auto simp: dial_forwarded_def run_simps new_descriptor_def)
next
  case None
  let ?fd = "next_fd w"
  define w1 where "w1 = w\<lparr>fds := (fds w)(?fd := Some (next_ino w)), next_fd := Suc ?fd, next_ino := Suc (next_ino w)\<rparr>"
  obtain rc wc where c: "connect_socket nb path ?fd w1 = (rc, wc)" by fastforce
  obtain wd where d: "close_quietly ?fd w1 = (Ok (), wd)" "fds wd = (fds w1)(?fd := None)" "disk wd = disk w1"
    using close_quietly_run by blast
  have free: "(fds w1)(?fd := None) = fds w" using assms(1) by (auto simp: w1_def)
  have "dial_forwarded nb path w = seq (connect_socket nb path ?fd) (\<lambda>_. on_err (answer (nb_dial nb (''unix:path='' @ path)))
        (\<lambda>e. seq (close_quietly ?fd) (\<lambda>_. fail (Wrapped ''dialing forwarded bus socket'' e)))) w1"
    using None by (simp add: dial_forwarded_def seq_def[of "wrap _ _"] wrap_run new_descriptor_def w1_def)
  then show ?thesis
    using connect_socket_run[OF c] run c d free
    by (cases "nb_dial nb (''unix:path='' @ path)") (auto simp: run_simps answer_def fail_def ret_def w1_def)
qed


end
