(* ===== verification/Session.thy ===== *)
theory Session
  imports Pty_Service Selinux Nsbus
begin

text \<open>
  \<^verbatim>\<open>internal/session\<close>: entering a running container, on the host side
  (\<^verbatim>\<open>enter.go\<close>, \<^verbatim>\<open>enter_nsenter.go\<close>, \<^verbatim>\<open>enter_systemd.go\<close>) and on the container side
  (\<^verbatim>\<open>setup.go\<close>). The answers of the kernel, of machined, of systemd and of SELinux
  are the record \<open>session_sys\<close>.
\<close>

section \<open>The entry specification\<close>

definition stdinPtyFlag :: int where "stdinPtyFlag = 1"

definition stdoutPtyFlag :: int where "stdoutPtyFlag = 2"

definition stderrPtyFlag :: int where "stderrPtyFlag = 4"

record containerEntrySpec =
  ptyPath :: string
  ptyIo :: int
  spec_env :: "(string \<times> string) list"
  spec_verbose :: bool
  spec_uid :: int
  spec_cwd :: string
  spec_noReplay :: bool
  spec_command :: "string list"

text \<open>The map \<^verbatim>\<open>stdioFlags\<close>, in some order.\<close>

definition stdioFlags :: "(string \<times> int) list" where
  "stdioFlags = [(''stdin'', stdinPtyFlag), (''stdout'', stdoutPtyFlag), (''stderr'', stderrPtyFlag)]"

definition flag_set :: "int \<Rightarrow> int \<Rightarrow> bool" where
  "flag_set ptyio ptyFlag \<longleftrightarrow> and ptyio ptyFlag \<noteq> 0"

text \<open>\<open>order\<close> is the order in which Go happens to range over \<^verbatim>\<open>stdioFlags\<close>.\<close>

definition buildNsboxHostCommand :: "(string \<times> int) list \<Rightarrow> containerEntrySpec \<Rightarrow> string list" where
  "buildNsboxHostCommand order spec =
     [''/run/host/nsbox/bin/nsbox-host'', ''enter''] @
     (if spec_verbose spec then [''-v''] else []) @
     (if spec_noReplay spec then [''-no-replay''] else []) @
     [''-uid='' @ show_int (spec_uid spec), ''-cwd='' @ spec_cwd spec] @
     map (\<lambda>(arg, ptyFlag). ''-'' @ arg @ ''='' @ ptyPath spec)
       (filter (\<lambda>(arg, ptyFlag). flag_set (ptyIo spec) ptyFlag) order) @
     [''env''] @
     map (\<lambda>(name, value). name @ ''='' @ value) (spec_env spec) @
     spec_command spec"

section \<open>How a session ends\<close>

datatype processExitType = processExitNormal | processExitSignaled

record processExitStatus =
  exitType :: processExitType
  exitResult :: int

text \<open>\<^verbatim>\<open>unix.WaitStatus\<close>\<close>

type_synonym wait_status = "32 word"

definition ws_Signaled :: "wait_status \<Rightarrow> bool" where
  "ws_Signaled w \<longleftrightarrow> and w 0x7F \<noteq> 0x7F \<and> and w 0x7F \<noteq> 0"

definition ws_Exited :: "wait_status \<Rightarrow> bool" where
  "ws_Exited w \<longleftrightarrow> and w 0x7F = 0"

definition ws_Signal :: "wait_status \<Rightarrow> int" where
  "ws_Signal w = uint (and w 0x7F)"

definition ws_ExitStatus :: "wait_status \<Rightarrow> int" where
  "ws_ExitStatus w = uint (and (drop_bit 8 w) 0xFF)"

definition convertStateToProcessExit :: "wait_status \<Rightarrow> err + processExitStatus" where
  "convertStateToProcessExit waitStatus =
     (if ws_Signaled waitStatus
      then Inr \<lparr>exitType = processExitSignaled, exitResult = ws_Signal waitStatus\<rparr>
      else if ws_Exited waitStatus
      then Inr \<lparr>exitType = processExitNormal, exitResult = ws_ExitStatus waitStatus\<rparr>
      else Inl (Msg (''Unexpected wait status '' @ show_int (uint waitStatus))))"

text \<open>
  What the environment answers. A service property is an \<^verbatim>\<open>int32\<close> or of another
  type (\<open>None\<close>).
\<close>

record session_sys =
  ss_IsTerminal :: "nat \<Rightarrow> bool"
  ss_OpenPty :: "Container \<Rightarrow> (int \<times> string) res"
  ss_Getuid :: int
  ss_machined :: machined
  ss_selinux :: selinux_sys
  ss_LookPath :: "string \<Rightarrow> err + string"
  ss_Exec :: "string \<Rightarrow> err option"
  ss_Start :: "string list \<Rightarrow> err option"
  ss_Wait :: "err + wait_status"
  ss_nsbus :: nsbus_sys
  ss_NewConnection :: "unit io \<Rightarrow> unit io"
  ss_Auth :: "string \<Rightarrow> err option"
  ss_Hello :: "err option"
  ss_uuid :: string
  ss_ServiceProperty :: "string \<Rightarrow> string \<Rightarrow> err + int option"

datatype sessionHandle =
    NsenterSession
  | SystemdSession string

definition cldExited :: int where "cldExited = 1"

definition getServicePropertyInt :: "session_sys \<Rightarrow> string \<Rightarrow> string \<Rightarrow> err + int" where
  "getServicePropertyInt se service name = (case ss_ServiceProperty se service name of
      Inl e \<Rightarrow> Inl (Wrapped (''get '' @ service @ '' property '' @ name) e)
    | Inr (Some ival) \<Rightarrow> Inr ival
    | Inr None \<Rightarrow> Inl (Msg (service @ '':'' @ name @ '' is of another type'')))"

definition nsenter_Wait :: "session_sys \<Rightarrow> err + processExitStatus" where
  "nsenter_Wait se = (case ss_Wait se of
      Inl e \<Rightarrow> Inl (Wrapped ''waiting for nsenter'' e)
    | Inr state \<Rightarrow> convertStateToProcessExit state)"

definition systemd_Wait :: "session_sys \<Rightarrow> string \<Rightarrow> err + processExitStatus" where
  "systemd_Wait se serviceName = (case ss_Wait se of
      Inl e \<Rightarrow> Inl (Wrapped ''waiting for systemd-run'' e)
    | Inr _ \<Rightarrow> (case getServicePropertyInt se serviceName ''ExecMainCode'' of
        Inl e \<Rightarrow> Inl (Wrapped (''get ExecMainCode of '' @ serviceName) e)
      | Inr exitCode \<Rightarrow> (case getServicePropertyInt se serviceName ''ExecMainStatus'' of
          Inl e \<Rightarrow> Inl (Wrapped (''get ExecMainStatus of '' @ serviceName) e)
        | Inr exitStatus \<Rightarrow>
            Inr \<lparr>exitType = (if exitCode = cldExited then processExitNormal else processExitSignaled),
                 exitResult = exitStatus\<rparr>)))"

definition handle_Wait :: "session_sys \<Rightarrow> sessionHandle \<Rightarrow> err + processExitStatus" where
  "handle_Wait se h = (case h of
      NsenterSession \<Rightarrow> nsenter_Wait se
    | SystemdSession serviceName \<Rightarrow> systemd_Wait se serviceName)"

section \<open>The two doors\<close>

text \<open>\<^verbatim>\<open>os.Setenv\<close>: the entry is replaced where it stands, or added at the end.\<close>

fun setenv :: "string \<Rightarrow> string \<Rightarrow> string list \<Rightarrow> string list" where
  "setenv name value [] = [name @ ''='' @ value]"
| "setenv name value (e # es) =
     (if has_prefix e (name @ ''='') then (name @ ''='' @ value) # es else e # setenv name value es)"

definition os_Setenv :: "string \<Rightarrow> string \<Rightarrow> unit io" where
  "os_Setenv name value w = (Ok (), w\<lparr>environ := setenv name value (environ w)\<rparr>)"

text \<open>\<^verbatim>\<open>unix.Exec\<close>: on success it does not come back.\<close>

definition unix_Exec :: "(string \<Rightarrow> err option) \<Rightarrow> string \<Rightarrow> string list \<Rightarrow> unit io" where
  "unix_Exec failing path argv w = (case failing path of
      Some e \<Rightarrow> (Err e, w)
    | None \<Rightarrow> (Abort (Execed path argv (environ w)), w))"

text \<open>
  The exec label that \<^verbatim>\<open>SetExecProcessContextContainer\<close> sets before the program
  starts is kernel state outside this model, and its error is only logged.
\<close>

definition nsenter_Enter :: "session_sys \<Rightarrow> (string \<times> int) list \<Rightarrow> Container \<Rightarrow> containerEntrySpec \<Rightarrow>
    Userdata \<Rightarrow> sessionHandle io" where
  "nsenter_Enter se order ct spec usrdata =
     seq (wrap ''getting leader process'' (lift_res (Leader (ss_machined se) ct usrdata))) (\<lambda>leader.
     seq (wrap ''set NSBOX_INTERNAL'' (os_Setenv ''NSBOX_INTERNAL'' ''1'')) (\<lambda>_.
     let nsenterCmd = [''nsenter'', ''-at'', show_int (uint leader)] @ buildNsboxHostCommand order spec in
     if ptyPath spec = '''' then
       seq (wrap ''failed to find nsenter'' (lift_res (of_sum (ss_LookPath se ''nsenter'')))) (\<lambda>nsenter.
       seq (wrap ''failed to exec into namespace'' (unix_Exec (ss_Exec se) nsenter nsenterCmd)) (\<lambda>_.
       panic ''should not reach here''))
     else (case ss_Start se nsenterCmd of
         Some e \<Rightarrow> fail e
       | None \<Rightarrow> ret NsenterSession)))"

text \<open>
  The dialling function handed to \<^verbatim>\<open>go-systemd\<close>, whose \<^verbatim>\<open>NewConnection\<close> is a parameter: it
  calls the function, possibly more than once.
\<close>

definition dial_container_bus :: "session_sys \<Rightarrow> 32 word \<Rightarrow> unit io" where
  "dial_container_bus se leader =
     seq (wrap ''dialing bus in ns'' (DialBusInsideNamespace (ss_nsbus se) (unat leader))) (\<lambda>_.
     seq (wrap ''auth bus'' (answer (ss_Auth se (show_int (ss_Getuid se))))) (\<lambda>_.
     wrap ''hello bus'' (answer (ss_Hello se))))"

definition systemd_Enter :: "session_sys \<Rightarrow> (string \<times> int) list \<Rightarrow> Container \<Rightarrow> containerEntrySpec \<Rightarrow>
    Userdata \<Rightarrow> sessionHandle io" where
  "systemd_Enter se order ct spec usrdata =
     seq (wrap ''get container leader'' (lift_res (Leader (ss_machined se) ct usrdata))) (\<lambda>leader.
     seq (wrap ''connect to container bus'' (ss_NewConnection se (dial_container_bus se leader))) (\<lambda>_.
     let serviceName = ''nsbox-entry-'' @ ss_uuid se @ ''.service'' in
     seq (if Enabled (ss_selinux se) then
            seq (wrap ''find current selinux label'' (lift_res (of_sum (GetCurrentLabel (ss_selinux se))))) (\<lambda>currentLabel.
            seq (wrap ''find new selinux label'' (lift_res (of_sum (GetExecLabel currentLabel)))) (\<lambda>newLabel.
            ret [(''SELinuxContext'', newLabel)]))
          else ret []) (\<lambda>properties.
     let systemdRun = [''systemd-run'', ''--quiet'', ''--pipe'', ''--machine='' @ MachineName ct usrdata,
             ''--unit='' @ serviceName] @
           map (\<lambda>(name, value). ''--property='' @ name @ ''='' @ value) properties @
           [''--setenv=NSBOX_INTERNAL=1'', ''--''] @ buildNsboxHostCommand order spec in
     case ss_Start se systemdRun of
       Some e \<Rightarrow> fail (Wrapped ''starting systemd-run'' e)
     | None \<Rightarrow> ret (SystemdSession serviceName))))"

section \<open>Entering\<close>

text \<open>
  The result lists the forwardings that were started, as (from, to) pairs where
  \<open>None\<close> is the container's pty, beside the exit code.
\<close>

record entered =
  e_code :: int
  e_forwards :: "(nat option \<times> nat option) list"

definition pty_flags :: "(nat \<Rightarrow> bool) \<Rightarrow> int" where
  "pty_flags terminal =
     fold (\<lambda>(fd, ptyFlag) acc. if terminal fd then or acc ptyFlag else acc)
       [(0, stdinPtyFlag), (1, stdoutPtyFlag), (2, stderrPtyFlag)] 0"

definition pty_forwards :: "int \<Rightarrow> (nat option \<times> nat option) list" where
  "pty_forwards ptyio =
     (if flag_set ptyio stdinPtyFlag then [(Some 0, None)] else []) @
     (if flag_set ptyio (or stdoutPtyFlag stderrPtyFlag)
      then [(None, Some (if flag_set ptyio stdoutPtyFlag then 1 else 2))] else [])"

text \<open>
  The exit code. \<^verbatim>\<open>EnterContainer\<close> does not look at the error of \<^verbatim>\<open>Wait\<close>: it
  dereferences the nil status.
\<close>

definition exit_code :: "err + processExitStatus \<Rightarrow> int res" where
  "exit_code waited = (case waited of
      Inl _ \<Rightarrow> Abort (Panic ''nil pointer dereference'')
    | Inr status \<Rightarrow>
        Ok (if exitType status = processExitSignaled then 128 + exitResult status else exitResult status))"

definition EnterContainer :: "session_sys \<Rightarrow> (string \<times> int) list \<Rightarrow> bool \<Rightarrow> Container \<Rightarrow> string list \<Rightarrow>
    Userdata \<Rightarrow> bool \<Rightarrow> string \<Rightarrow> entered io" where
  "EnterContainer se order verbose ct command0 usrdata noReplay workdir =
     seq (if command0 = [] then seq (Shell_of ct usrdata) (\<lambda>sh. ret [sh, ''-l'']) else ret command0) (\<lambda>command.
     let ptyio = pty_flags (ss_IsTerminal se) in
     seq (if ptyio \<noteq> 0 then seq (lift_res (ss_OpenPty se ct)) (\<lambda>(fd, name). ret name) else ret '''') (\<lambda>ptypath.
     let spec = \<lparr>ptyPath = ptypath, ptyIo = ptyio, spec_env = Environ usrdata,
           spec_verbose = verbose, spec_uid = ss_Getuid se, spec_cwd = workdir,
           spec_noReplay = noReplay, spec_command = command\<rparr>;
         forwards = (if ptyio \<noteq> 0 then pty_forwards ptyio else []) in
     seq (if Boot (Cfg ct) then systemd_Enter se order ct spec usrdata
          else nsenter_Enter se order ct spec usrdata) (\<lambda>handle.
     seq (lift_res (exit_code (handle_Wait se handle))) (\<lambda>code.
     ret \<lparr>e_code = code, e_forwards = forwards\<rparr>))))"

section \<open>Inside the container\<close>

definition unix_Dup2 :: "nat \<Rightarrow> nat \<Rightarrow> unit io" where
  "unix_Dup2 old new = sys (\<lambda>w.
     case fds w old of
       None \<Rightarrow> (Err (Errno EBADF), w)
     | Some n \<Rightarrow> (Ok (), w\<lparr>fds := (fds w)(new := Some n),
         flocks := (\<lambda>m. if flocks w m = Some (Mine new) \<and> old \<noteq> new then None else flocks w m)\<rparr>))"

definition connect_pty :: "err option \<Rightarrow> nat \<times> string \<Rightarrow> unit io" where
  "connect_pty setsid = (\<lambda>(fd, pty).
     if pty = '''' then ret ()
     else
       seq (if fd = 0 then
              (case setsid of
                 Some e \<Rightarrow> if e = Errno EPERM then ret () else fail (Wrapped ''failed to setsid'' e)
               | None \<Rightarrow> ret ())
            else ret ()) (\<lambda>_.
       seq (wrap (''failed to open pty '' @ pty @ '' for '' @ show_nat fd) (unix_Open pty False)) (\<lambda>ptyFd.
       wrap (''failed to dup '' @ pty @ '' onto '' @ show_nat fd) (unix_Dup2 ptyFd fd))))"

definition ConnectPtys :: "err option \<Rightarrow> string \<Rightarrow> string \<Rightarrow> string \<Rightarrow> unit io" where
  "ConnectPtys setsid stdinPty stdoutPty stderrPty =
     each (connect_pty setsid) [(0, stdinPty), (1, stdoutPty), (2, stderrPty)]"

definition SetupContainerSession :: "(string \<Rightarrow> err option) \<Rightarrow> int \<Rightarrow> string \<Rightarrow> bool \<Rightarrow> string list \<Rightarrow> unit io" where
  "SetupContainerSession failing uid dir noReplay execCommand =
     seq (if noReplay then wrap ''set NSBOX_NO_REPLAY'' (os_Setenv ''NSBOX_NO_REPLAY'' ''1'') else ret ()) (\<lambda>_.
     let script = ''/run/host/nsbox/scripts/nsbox-enter-setup.sh'';
         execCmdline = [script, dir] @ execCommand in
     seq (wrap ''failed to exec command'' (unix_Exec failing script execCmdline)) (\<lambda>_.
     panic ''should not reach here''))"

section \<open>What entering does\<close>

lemma pty_flags_iff:
  "flag_set (pty_flags t) stdinPtyFlag = t 0" "flag_set (pty_flags t) stdoutPtyFlag = t 1"
  "flag_set (pty_flags t) stderrPtyFlag = t 2" "pty_flags t = 0 \<longleftrightarrow> \<not> t 0 \<and> \<not> t 1 \<and> \<not> t 2"
  "flag_set (pty_flags t) (or stdoutPtyFlag stderrPtyFlag) = (t 1 \<or> t 2)"
  by (cases "t 0"; cases "t 1"; cases "t 2";
      simp add: pty_flags_def flag_set_def stdinPtyFlag_def stdoutPtyFlag_def stderrPtyFlag_def)+

lemma EnterContainer_OkD:
  assumes "EnterContainer se order verbose ct command usrdata noReplay workdir w = (Ok r, w')"
  obtains handle where "exit_code (handle_Wait se handle) = Ok (e_code r)"
    "e_forwards r = (if pty_flags (ss_IsTerminal se) \<noteq> 0 then pty_forwards (pty_flags (ss_IsTerminal se)) else [])"
  using assms unfolding EnterContainer_def
  by (auto simp: Let_def ret_def lift_res_def elim!: seq_OkD)


text \<open>When waiting fails, the nil status is dereferenced.\<close>

lemma EnterContainer_wait_error:
  assumes "handle_Wait se h = Inl e"
  shows "exit_code (handle_Wait se h) = Abort (Panic ''nil pointer dereference'')"
  by (simp add: assms exit_code_def)

lemma convertState_total:
  "convertStateToProcessExit ws = Inr st \<Longrightarrow> exitType st = processExitSignaled \<longleftrightarrow> ws_Signaled ws"
  by (auto simp: convertStateToProcessExit_def split: if_splits)

end
