(* ===== verification/Nsbox_Host.thy ===== *)
theory Nsbox_Host
  imports Session "HOL-Library.Multiset"
begin

text \<open>
  \<^verbatim>\<open>cmd/nsbox-host\<close>: the program that runs inside the container. Its \<^verbatim>\<open>enter\<close>
  command is the other end of \<open>buildNsboxHostCommand\<close>.
\<close>

section \<open>enter\<close>

record enterCommand =
  en_stdin :: string
  en_stdout :: string
  en_stderr :: string
  en_uid :: int
  en_cwd :: string
  en_noReplay :: bool
  en_verbose :: bool

text \<open>The state after \<^verbatim>\<open>SetFlags\<close>: the defaults.\<close>

definition enter_fresh :: enterCommand where
  "enter_fresh = \<lparr>en_stdin = '''', en_stdout = '''', en_stderr = '''', en_uid = -1, en_cwd = '''',
     en_noReplay = False, en_verbose = False\<rparr>"

text \<open>\<^verbatim>\<open>SetFlags\<close>, with the global \<^verbatim>\<open>-v\<close> that every command's flag set has.\<close>

definition enter_SetFlags :: "string \<Rightarrow> enterCommand flag option" where
  "enter_SetFlags name =
     (if name = ''v'' then Some (field_flag True en_verbose en_verbose_update set_bool)
      else if name = ''stdin'' then Some (field_flag False en_stdin en_stdin_update set_string)
      else if name = ''stdout'' then Some (field_flag False en_stdout en_stdout_update set_string)
      else if name = ''stderr'' then Some (field_flag False en_stderr en_stderr_update set_string)
      else if name = ''uid'' then Some (field_flag False en_uid en_uid_update set_int)
      else if name = ''cwd'' then Some (field_flag False en_cwd en_cwd_update set_string)
      else if name = ''no-replay'' then Some (field_flag True en_noReplay en_noReplay_update set_bool)
      else None)"

definition enter_ParsePositional :: "enterCommand \<Rightarrow> string list \<Rightarrow> err option" where
  "enter_ParsePositional cmd args =
     (if args = [] then Some (Msg ''expected a command'')
      else if en_cwd cmd = '''' \<or> en_uid cmd = -1 then Some (Msg ''missing arguments'')
      else None)"

definition enter_Execute :: "err option \<Rightarrow> (string \<Rightarrow> err option) \<Rightarrow> enterCommand \<Rightarrow> string list \<Rightarrow> exit_status io" where
  "enter_Execute setsid failing cmd args =
     (if args = [] then ret ExitUsageError
      else handled (seq (ConnectPtys setsid (en_stdin cmd) (en_stdout cmd) (en_stderr cmd)) (\<lambda>_.
             SetupContainerSession failing (en_uid cmd) (en_cwd cmd) (en_noReplay cmd) args)))"

text \<open>The command as the \<^verbatim>\<open>subcommands\<close> package runs it: flags, positional arguments, execution.\<close>

definition enter_run :: "err option \<Rightarrow> (string \<Rightarrow> err option) \<Rightarrow> string list \<Rightarrow> exit_status io" where
  "enter_run setsid failing argv =
     (case flag_parse enter_SetFlags argv enter_fresh of
        (Ok (_, args), cmd) \<Rightarrow>
          (case enter_ParsePositional cmd args of
             Some _ \<Rightarrow> ret ExitUsageError
           | None \<Rightarrow> enter_Execute setsid failing cmd args)
      | _ \<Rightarrow> ret ExitUsageError)"

section \<open>The other commands\<close>

text \<open>
  \<open>dial\<close> connects to the host's varlink socket, \<open>call\<close> makes the named call on the
  connection; they are the varlink package's.
\<close>

definition varlink_address :: string where
  "varlink_address = ''unix:///run/host/nsbox/'' @ HostServiceSocketName"

definition varlinkConnect :: "(string \<Rightarrow> err option) \<Rightarrow> unit io" where
  "varlinkConnect dial = (case dial varlink_address of
      Some e \<Rightarrow> fail (Wrapped ''failed to connect to host socket'' e)
    | None \<Rightarrow> ret ())"

definition reloadExports :: "(string \<Rightarrow> err option) \<Rightarrow> (string \<Rightarrow> unit io) \<Rightarrow> unit io" where
  "reloadExports dial call_method =
     seq (varlinkConnect dial) (\<lambda>_.
     wrap ''failed to send reload exports message'' (call_method ''NotifyReloadExports''))"

definition startPtyServiceAndNotifyHost ::
  "(string \<Rightarrow> unit io) \<Rightarrow> (string \<Rightarrow> err option) \<Rightarrow> (string \<Rightarrow> unit io) \<Rightarrow> unit io \<Rightarrow> unit io" where
  "startPtyServiceAndNotifyHost listen dial call_method SdNotify =
     seq (wrap ''failed to start pty service'' (StartPtyService listen)) (\<lambda>_.
     seq (varlinkConnect dial) (\<lambda>_.
     seq (wrap ''failed to notify of start'' (call_method ''NotifyStart'')) (\<lambda>_.
     seq (get_state (\<lambda>w. getenv (environ w) ''NOTIFY_SOCKET'')) (\<lambda>socket.
     seq (if socket \<noteq> '''' then SdNotify else ret ()) (\<lambda>_.
     abort Blocked)))))"

text \<open>The commands that \<^verbatim>\<open>main\<close> registers: the internal ones only for nsbox itself.\<close>

definition internalEnv :: string where "internalEnv = ''NSBOX_INTERNAL''"

definition host_commands :: "string list \<Rightarrow> string list" where
  "host_commands env =
     [''help'', ''flags'', ''commands'', ''reload-exports''] @
     (if getenv env internalEnv \<noteq> '''' then [''service'', ''enter''] else [])"

section \<open>The two ends agree\<close>

lemma stdio_orders:
  assumes "mset order = mset stdioFlags"
  shows "order \<in> set [[(''stdin'', stdinPtyFlag), (''stdout'', stdoutPtyFlag), (''stderr'', stderrPtyFlag)],
      [(''stdin'', stdinPtyFlag), (''stderr'', stderrPtyFlag), (''stdout'', stdoutPtyFlag)],
      [(''stdout'', stdoutPtyFlag), (''stdin'', stdinPtyFlag), (''stderr'', stderrPtyFlag)],
      [(''stdout'', stdoutPtyFlag), (''stderr'', stderrPtyFlag), (''stdin'', stdinPtyFlag)],
      [(''stderr'', stderrPtyFlag), (''stdin'', stdinPtyFlag), (''stdout'', stdoutPtyFlag)],
      [(''stderr'', stderrPtyFlag), (''stdout'', stdoutPtyFlag), (''stdin'', stdinPtyFlag)]]"
proof -
  have len: "length order = 3"
    using mset_eq_length[OF assms] by (simp add: stdioFlags_def)
  then obtain x y z where order: "order = [x, y, z]"
    by (auto simp: numeral_3_eq_3 length_Suc_conv)
  have "x \<in> set stdioFlags" "y \<in> set stdioFlags" "z \<in> set stdioFlags"
    using mset_eq_setD[OF assms] unfolding order by auto
  moreover have "distinct stdioFlags" by (simp add: stdioFlags_def)
  then have "distinct order" using mset_eq_imp_distinct_iff[OF assms] by simp
  then have "x \<noteq> y" "y \<noteq> z" "x \<noteq> z" unfolding order by auto
  ultimately show ?thesis unfolding order stdioFlags_def by auto
qed

lemma flag_words [simp]:
  "flag_word ''v''" "flag_word ''no-replay''" "flag_word ''uid''" "flag_word ''cwd''"
  "flag_word ''stdin''" "flag_word ''stdout''" "flag_word ''stderr''"
  by (simp_all add: flag_word_def)

text \<open>One flag at a time: what is left to parse, and the state it is parsed in.\<close>

definition parses :: "string list \<Rightarrow> enterCommand \<Rightarrow> string list \<Rightarrow> enterCommand \<Rightarrow> bool" where
  "parses args st pos st' \<longleftrightarrow> (\<exists>names. flag_parse enter_SetFlags args st = (Ok (names, pos), st'))"

lemma parses_step:
  assumes "flag_parse enter_SetFlags (arg # args) =
      seq m (\<lambda>_. seq (flag_parse enter_SetFlags args) (\<lambda>(names, pos). ret (name # names, pos)))"
    and "m st = (Ok (), st1)" and "parses args st1 pos st'"
  shows "parses (arg # args) st pos st'"
  using assms(2,3) unfolding parses_def assms(1) by (auto simp: seq_def ret_def)

lemma parses_switch:
  assumes "flag_word name" and "enter_SetFlags name = Some (field_flag True rd upd set_bool)"
    and "parses args (upd (\<lambda>_. True) st) pos st'"
  shows "parses ((CHR ''-'' # name) # args) st pos st'"
  by (rule parses_step[OF flag_parse_switch[where lookup = enter_SetFlags, OF assms(1) assms(2)[unfolded field_flag_def]] on_field_run(3) assms(3)])

lemma parses_string:
  assumes "flag_word name" and "enter_SetFlags name = Some (field_flag False rd upd set_string)"
    and "parses args (upd (\<lambda>_. v) st) pos st'"
  shows "parses ((CHR ''-'' # name @ CHR ''='' # v) # args) st pos st'"
  by (rule parses_step[OF flag_parse_assign[where lookup = enter_SetFlags, OF assms(1) assms(2)[unfolded field_flag_def]] on_field_run(1) assms(3)])

lemma parses_int:
  assumes "flag_word name" and "enter_SetFlags name = Some (field_flag False rd upd set_int)"
    and "- (2 ^ 63) \<le> i \<and> i < 2 ^ 63" and "parses args (upd (\<lambda>_. i) st) pos st'"
  shows "parses ((CHR ''-'' # name @ CHR ''='' # show_int i) # args) st pos st'"
  by (rule parses_step[OF flag_parse_assign[where lookup = enter_SetFlags, OF assms(1) assms(2)[unfolded field_flag_def]]
        on_field_run(4)[OF assms(3)] assms(4)])

lemma parses_env: "parses (''env'' # args) st (''env'' # args) st"
  by (simp add: parses_def flag_parse_positional is_flag_arg_def ret_def)

definition stdio_args :: "(string \<times> int) list \<Rightarrow> containerEntrySpec \<Rightarrow> string list" where
  "stdio_args order spec = map (\<lambda>(arg, ptyFlag). ''-'' @ arg @ ''='' @ ptyPath spec)
     (filter (\<lambda>(arg, ptyFlag). flag_set (ptyIo spec) ptyFlag) order)"

definition set_stdio :: "containerEntrySpec \<Rightarrow> enterCommand \<Rightarrow> enterCommand" where
  "set_stdio spec st = st\<lparr>
     en_stdin := (if flag_set (ptyIo spec) stdinPtyFlag then ptyPath spec else en_stdin st),
     en_stdout := (if flag_set (ptyIo spec) stdoutPtyFlag then ptyPath spec else en_stdout st),
     en_stderr := (if flag_set (ptyIo spec) stderrPtyFlag then ptyPath spec else en_stderr st)\<rparr>"

lemma parses_stdio_flag:
  "parses args (en_stdin_update (\<lambda>_. v) st) pos st' \<Longrightarrow> parses ((''-stdin='' @ v) # args) st pos st'"
  "parses args (en_stdout_update (\<lambda>_. v) st) pos st' \<Longrightarrow> parses ((''-stdout='' @ v) # args) st pos st'"
  "parses args (en_stderr_update (\<lambda>_. v) st) pos st' \<Longrightarrow> parses ((''-stderr='' @ v) # args) st pos st'"
  using parses_string[of "''stdin''" en_stdin en_stdin_update args v st pos st']
    parses_string[of "''stdout''" en_stdout en_stdout_update args v st pos st']
    parses_string[of "''stderr''" en_stderr en_stderr_update args v st pos st']
  by (simp_all add: enter_SetFlags_def)

lemma parses_stdio:
  assumes "mset order = mset stdioFlags" and "parses args (set_stdio spec st) pos st'"
  shows "parses (stdio_args order spec @ args) st pos st'"
proof -
  show ?thesis
    using stdio_orders[OF assms(1)] assms(2)
    by (cases st) (auto simp: stdio_args_def set_stdio_def split: if_splits
        intro!: parses_stdio_flag[simplified])
qed

text \<open>
  What the host sends, the container reads: whatever order Go ranges over the
  map of standard streams in, \<^verbatim>\<open>nsbox-host enter\<close> parses the command line that
  \<^verbatim>\<open>buildNsboxHostCommand\<close> builds into exactly the specification's fields: the pty
  on those streams that are terminals and no others, the uid, the directory, the
  two switches, and after them, untouched, \<^verbatim>\<open>env\<close> with the environment and the command.
\<close>

theorem enter_reads_what_host_sends:
  assumes "mset order = mset stdioFlags" and "- (2 ^ 63) \<le> spec_uid spec" and "spec_uid spec < 2 ^ 63"
  shows "\<exists>names. flag_parse enter_SetFlags (drop 2 (buildNsboxHostCommand order spec)) enter_fresh =
    (Ok (names, ''env'' # map (\<lambda>(name, value). name @ ''='' @ value) (spec_env spec) @ spec_command spec),
     \<lparr>en_stdin = (if flag_set (ptyIo spec) stdinPtyFlag then ptyPath spec else ''''),
      en_stdout = (if flag_set (ptyIo spec) stdoutPtyFlag then ptyPath spec else ''''),
      en_stderr = (if flag_set (ptyIo spec) stderrPtyFlag then ptyPath spec else ''''),
      en_uid = spec_uid spec, en_cwd = spec_cwd spec,
      en_noReplay = spec_noReplay spec, en_verbose = spec_verbose spec\<rparr>)"
proof -
  let ?tail = "map (\<lambda>(name, value). name @ ''='' @ value) (spec_env spec) @ spec_command spec"
  let ?s0 = "enter_fresh\<lparr>en_verbose := spec_verbose spec\<rparr>"
  let ?s1 = "?s0\<lparr>en_noReplay := spec_noReplay spec\<rparr>"
  let ?s2 = "?s1\<lparr>en_uid := spec_uid spec\<rparr>" let ?s3 = "?s2\<lparr>en_cwd := spec_cwd spec\<rparr>"
  let ?a3 = "stdio_args order spec @ ''env'' # ?tail"
  let ?a2 = "(''-cwd='' @ spec_cwd spec) # ?a3" let ?a1 = "(''-uid='' @ show_int (spec_uid spec)) # ?a2"
  let ?a0 = "(if spec_noReplay spec then [''-no-replay''] else []) @ ?a1"
  have "parses ?a3 ?s3 (''env'' # ?tail) (set_stdio spec ?s3)"
    using assms(1) parses_env by (rule parses_stdio)
  then have "parses ?a2 ?s2 (''env'' # ?tail) (set_stdio spec ?s3)"
    using parses_string[of "''cwd''" en_cwd en_cwd_update ?a3 "spec_cwd spec" ?s2]
    by (simp add: enter_SetFlags_def)
  then have "parses ?a1 ?s1 (''env'' # ?tail) (set_stdio spec ?s3)"
    using parses_int[of "''uid''" en_uid en_uid_update "spec_uid spec" ?a2 ?s1] assms(2,3)
    by (simp add: enter_SetFlags_def)
  then have "parses ?a0 ?s0 (''env'' # ?tail) (set_stdio spec ?s3)"
    using parses_switch[of "''no-replay''" en_noReplay en_noReplay_update ?a1 ?s0]
    by (cases "spec_noReplay spec") (simp_all add: enter_SetFlags_def enter_fresh_def)
  then have "parses ((if spec_verbose spec then [''-v''] else []) @ ?a0) enter_fresh (''env'' # ?tail) (set_stdio spec ?s3)"
    using parses_switch[of "''v''" en_verbose en_verbose_update ?a0 enter_fresh]
    by (cases "spec_verbose spec") (simp_all add: enter_SetFlags_def enter_fresh_def)
  moreover have "drop 2 (buildNsboxHostCommand order spec) =
      (if spec_verbose spec then [''-v''] else []) @ ?a0"
    by (simp add: buildNsboxHostCommand_def stdio_args_def)
  moreover have "set_stdio spec ?s3 =
     \<lparr>en_stdin = (if flag_set (ptyIo spec) stdinPtyFlag then ptyPath spec else ''''),
      en_stdout = (if flag_set (ptyIo spec) stdoutPtyFlag then ptyPath spec else ''''),
      en_stderr = (if flag_set (ptyIo spec) stderrPtyFlag then ptyPath spec else ''''),
      en_uid = spec_uid spec, en_cwd = spec_cwd spec,
      en_noReplay = spec_noReplay spec, en_verbose = spec_verbose spec\<rparr>"
    by (simp add: set_stdio_def enter_fresh_def)
  ultimately show ?thesis by (simp only: parses_def)
qed

end
