(* ===== verification/Go_Glob.thy ===== *)
theory Go_Glob
  imports Userdata
begin

text \<open>
  \<^verbatim>\<open>filepath.Match\<close>, on code points: a star matches any run of characters but the
  separator, a question mark any one of them, a bracket a class of ranges (negated
  by a caret), a backslash the next character. A malformed pattern is reported
  whatever the name is.
\<close>

datatype glob_token =
    Star
  | AnyChar
  | OneOf bool "(nat \<times> nat) list"

definition cp :: "char \<Rightarrow> nat" where
  "cp c = of_char c"

text \<open>One character of a class, perhaps escaped.\<close>

definition class_char :: "nat list \<Rightarrow> (nat \<times> nat list) option" where
  "class_char s = (case s of
      [] \<Rightarrow> None
    | c # cs \<Rightarrow>
        if c = cp CHR ''-'' \<or> c = cp CHR '']'' then None
        else if c = 0x5C then (case cs of [] \<Rightarrow> None | d # ds \<Rightarrow> if ds = [] then None else Some (d, ds))
        else if cs = [] then None else Some (c, cs))"

text \<open>The ranges up to the closing bracket: at least one; \<open>n\<close> bounds their number.\<close>

fun class_ranges :: "nat \<Rightarrow> bool \<Rightarrow> nat list \<Rightarrow> ((nat \<times> nat) list \<times> nat list) option" where
  "class_ranges 0 some s = None"
| "class_ranges (Suc n) some s =
     (case s of
        c # cs \<Rightarrow>
          if c = cp CHR '']'' \<and> some then Some ([], cs)
          else (case class_char s of
              None \<Rightarrow> None
            | Some (lo, rest) \<Rightarrow>
                (case (if rest \<noteq> [] \<and> hd rest = cp CHR ''-'' then class_char (tl rest) else Some (lo, rest)) of
                   None \<Rightarrow> None
                 | Some (hi, rest) \<Rightarrow>
                     (case class_ranges n True rest of
                        None \<Rightarrow> None
                      | Some (rs, rest) \<Rightarrow> Some ((lo, hi) # rs, rest))))
      | [] \<Rightarrow> None)"

text \<open>The tokens of a pattern; \<open>None\<close> is \<^verbatim>\<open>ErrBadPattern\<close>.\<close>

fun glob_tokens :: "nat \<Rightarrow> nat list \<Rightarrow> glob_token list option" where
  "glob_tokens n [] = Some []"
| "glob_tokens 0 (c # cs) = None"
| "glob_tokens (Suc n) (c # cs) =
     (if c = cp CHR ''*'' then map_option ((#) Star) (glob_tokens n cs)
      else if c = cp CHR ''?'' then map_option ((#) AnyChar) (glob_tokens n cs)
      else if c = cp CHR ''['' then
        (let neg = (cs \<noteq> [] \<and> hd cs = cp CHR ''^'') in
         case class_ranges (Suc (length cs)) False (if neg then tl cs else cs) of
           None \<Rightarrow> None
         | Some (rs, rest) \<Rightarrow> map_option ((#) (OneOf (\<not> neg) rs)) (glob_tokens n rest))
      else if c = 0x5C then
        (case cs of
           [] \<Rightarrow> None
         | d # ds \<Rightarrow> map_option ((#) (OneOf True [(d, d)])) (glob_tokens n ds))
      else map_option ((#) (OneOf True [(c, c)])) (glob_tokens n cs))"

definition in_ranges :: "(nat \<times> nat) list \<Rightarrow> nat \<Rightarrow> bool" where
  "in_ranges rs c \<longleftrightarrow> list_ex (\<lambda>(lo, hi). lo \<le> c \<and> c \<le> hi) rs"

fun glob_match :: "glob_token list \<Rightarrow> nat list \<Rightarrow> bool" where
  "glob_match [] s = (s = [])"
| "glob_match (Star # ts) [] = glob_match ts []"
| "glob_match (Star # ts) (c # s) = (glob_match ts (c # s) \<or> (c \<noteq> cp CHR ''/'' \<and> glob_match (Star # ts) s))"
| "glob_match (AnyChar # ts) [] = False"
| "glob_match (AnyChar # ts) (c # s) = (c \<noteq> cp CHR ''/'' \<and> glob_match ts s)"
| "glob_match (OneOf pos rs # ts) [] = False"
| "glob_match (OneOf pos rs # ts) (c # s) = (in_ranges rs c = pos \<and> glob_match ts s)"

definition code_points :: "string \<Rightarrow> nat list" where
  "code_points s = runes (map of_char s)"

definition Match :: "string \<Rightarrow> string \<Rightarrow> err + bool" where
  "Match pattern name =
     (case glob_tokens (length pattern) (code_points pattern) of
        None \<Rightarrow> Inl (Msg ''syntax error in pattern'')
      | Some ts \<Rightarrow> Inr (glob_match ts (code_points name)))"

text \<open>A pattern of plain characters matches itself only.\<close>

lemma in_ranges_one [simp]: "in_ranges [(c, c)] d \<longleftrightarrow> d = c"
  by (auto simp: in_ranges_def)

lemma glob_match_literal:
  "glob_match (map (\<lambda>c. OneOf True [(c, c)]) p) s \<longleftrightarrow> s = p"
proof (induction p arbitrary: s)
  case (Cons c p)
  show ?case
  proof (cases s)
    case (Cons d t)
    then show ?thesis using Cons.IH[of t] by simp
  qed simp
qed simp

lemma glob_match_star: "glob_match [Star] s \<longleftrightarrow> cp CHR ''/'' \<notin> set s"
proof (induction s)
  case (Cons c s)
  then show ?case by auto
qed simp

end
