(* ===== verification/Inventory.thy ===== *)
theory Inventory
  imports Container_Ops
begin

text \<open>
  \<^verbatim>\<open>internal/inventory\<close>: listing a user's containers and the link that names the
  default one.
\<close>

section \<open>Listing\<close>

definition list_item :: "build \<Rightarrow> Userdata \<Rightarrow> Container list \<Rightarrow> string \<Rightarrow> Container list io" where
  "list_item b usrdata containers item =
     (if has_suffix item StageSuffix then ret containers
      else
        seq (wrap (''failed to stat '' @ item) (os_Stat (path_join [ContainerInventory b usrdata, item]))) (\<lambda>stat.
        if is_dir stat then
          seq (attempt (Open b usrdata item)) (\<lambda>r. case r of
            Inl _ \<Rightarrow> ret containers
          | Inr ct \<Rightarrow> ret (containers @ [ct]))
        else ret containers))"

definition List_containers :: "build \<Rightarrow> Userdata \<Rightarrow> Container list io" where
  "List_containers b usrdata =
     seq (attempt (os_ReadDir (ContainerInventory b usrdata))) (\<lambda>r. case r of
       Inl e \<Rightarrow> if is_not_exist e then ret []
                else fail (Wrapped ''failed to read container inventory'' e)
     | Inr items \<Rightarrow> each_acc (list_item b usrdata) [] items)"

section \<open>The default container\<close>

definition DefaultContainer :: "build \<Rightarrow> Userdata \<Rightarrow> Container option io" where
  "DefaultContainer b usrdata =
     (let path = ContainerDefault b usrdata in
      seq (attempt (os_Stat path)) (\<lambda>st.
      if (case st of Inl e \<Rightarrow> is_not_exist e | Inr _ \<Rightarrow> False) then ret None
      else
        seq (os_Readlink path) (\<lambda>target.
        seq (OpenPath path (path_base target)) (\<lambda>ct. ret (Some ct)))))"

definition SetDefaultContainer :: "build \<Rightarrow> Userdata \<Rightarrow> string \<Rightarrow> unit io" where
  "SetDefaultContainer b usrdata name =
     (if name \<noteq> '''' \<and> name \<noteq> ''-'' then
        seq (Open b usrdata name) (\<lambda>ct.
        let defaultPath = ContainerDefault b usrdata;
            defaultTmp = defaultPath @ ''.tmp'' in
        seq (wrap ''failed to unlink old temporary default link'' (unless_missing (os_Remove defaultTmp))) (\<lambda>_.
        seq (wrap ''failed to symlink new temporary default container'' (os_Symlink (Path ct) defaultTmp)) (\<lambda>_.
        wrap ''failed to rename temporary link'' (os_Rename defaultTmp defaultPath))))
      else
        wrap ''failed to unlink old default container''
          (unless_missing (os_Remove (ContainerDefault b usrdata))))"

section \<open>What listing returns\<close>

lemma keeps_List: "keeps same_os (List_containers b u)"
  unfolding List_containers_def list_item_def
  by (auto intro!: same_os.keeps_all keeps_look keeps_Open split: sum.splits)

definition listed_ok :: "build \<Rightarrow> Userdata \<Rightarrow> Container \<Rightarrow> bool" where
  "listed_ok b u ct \<longleftrightarrow> validateName (Name ct) = None \<and> Path ct = ContainerData b u (Name ct)"

lemma list_item_cases:
  assumes "list_item b u cts item w = (Ok cts', w')"
  shows "cts' = cts \<or> (\<exists>ct. cts' = cts @ [ct] \<and> Name ct = item \<and> listed_ok b u ct)"
  using assms Open_OkD unfolding list_item_def listed_ok_def
  by (fastforce simp: attempt_def ret_def split: if_splits sum.splits prod.splits res.splits
      elim!: seq_OkD)

lemma each_list_item:
  assumes "each_acc (list_item b u) cts items w = (Ok cts', w')"
  shows "\<exists>new. cts' = cts @ new \<and> subseq (map Name new) items \<and> list_all (listed_ok b u) new"
  using assms
proof (induction items arbitrary: cts w)
  case (Cons item items)
  from Cons.prems obtain acc w1 where step: "list_item b u cts item w = (Ok acc, w1)"
    and rest: "each_acc (list_item b u) acc items w1 = (Ok cts', w')"
    by (auto elim!: seq_OkD)
  from Cons.IH[OF rest] obtain new where new: "cts' = acc @ new" "subseq (map Name new) items"
    "list_all (listed_ok b u) new" by blast
  from list_item_cases[OF step] show ?case
  proof (elim disjE exE conjE)
    assume "acc = cts"
    then show ?thesis using new by (auto intro: list_emb_Cons)
  next
    fix ct assume "acc = cts @ [ct]" "Name ct = item" "listed_ok b u ct"
    then show ?thesis using new by (intro exI[of _ "ct # new"]) auto
  qed
qed (auto simp: ret_def)

lemma subseq_sorted_distinct:
  "subseq xs ys \<Longrightarrow> sorted ys \<Longrightarrow> distinct ys \<Longrightarrow> sorted xs \<and> distinct xs"
  for xs :: "'a :: linorder list"
proof (induction rule: list_emb.induct)
  case (list_emb_Cons2 x y xs ys)
  then have "set xs \<subseteq> set ys" by (auto dest: list_emb_set)
  then show ?case using list_emb_Cons2 by auto
qed auto

lemma ReadDir_sorted:
  "os_ReadDir p w = (Ok items, w') \<Longrightarrow> sorted items \<and> distinct items"
  by (auto simp: os_ReadDir_def sys_def at_path_def Let_def disk.sorted_names disk.distinct_names
      split: option.splits sum.splits if_splits)


section \<open>What setting the default does\<close>

text \<open>The locations involved, all below the user's directory.\<close>

lemma default_paths:
  assumes "layout_ok b u"
  shows "ContainerDefault b u = path_of (user_loc b u @ [''default''])"
    "path_of (user_loc b u @ [''default'']) @ ''.tmp'' = path_of (user_loc b u @ [''default.tmp''])"
  using assms by (simp_all add: ContainerDefault_eq path_of_snoc_append)

lemma unless_missing_Remove_cases:
  assumes "resolve False w p = Inr q" and "q \<noteq> []"
  obtains (err) e w' where "unless_missing (os_Remove p) w = (Err e, w')" "same_os w w'"
  | (ok) w' where "unless_missing (os_Remove p) w = (Ok (), w')" "same_locks w w'" "cwd w' = cwd w"
      "\<forall>r. r \<noteq> q \<longrightarrow> fs_get (disk w') r = fs_get (disk w) r"
      "fault w (tick w) = None \<longrightarrow> fs_get (disk w') q = None"
  using assms
proof (cases rule: os_Remove_cases)
  case (err e w')
  show thesis
  proof (cases "is_not_exist e")
    case True
    then show ?thesis
      using that(2)[of w'] err same_osD[OF err(2)] same_os_imp(3)[OF err(2)]
      by (auto simp: unless_missing_run is_not_exist_def)
  qed (use that(1)[of e w'] err in \<open>simp add: unless_missing_run\<close>)
next
  case (ok i w')
  then show thesis using that(2)[of w'] by (simp add: unless_missing_run)
qed

text \<open>
  The last two steps: the new link is made under the temporary name and renamed
  over the old one.
\<close>

lemma symlink_rename_effect:
  assumes "solid (disk w) cs" and "list_all plain cs" and "plain a" and "plain b" and "a \<noteq> b"
    and run: "seq (wrap m1 (os_Symlink tgt (path_of (cs @ [a])))) (\<lambda>_.
        wrap m2 (os_Rename (path_of (cs @ [a])) (path_of (cs @ [b])))) w = (r, w')"
  shows "(\<forall>q. \<not> prefix (cs @ [a]) q \<longrightarrow> \<not> prefix (cs @ [b]) q \<longrightarrow> fs_get (disk w') q = fs_get (disk w) q) \<and>
    (case r of
       Ok _ \<Rightarrow> (\<exists>i. fs_get (disk w') (cs @ [b]) = Some i \<and> i_kind i = Symlink tgt)
     | Err _ \<Rightarrow> fs_get (disk w') (cs @ [b]) = fs_get (disk w) (cs @ [b])
     | Abort _ \<Rightarrow> False) \<and> same_locks w w'"
proof -
  have ab: "\<not> prefix (cs @ [a]) (cs @ [b])" "\<not> prefix (cs @ [b]) (cs @ [a])" using assms(5) by simp_all
  have "resolve False w (path_of (cs @ [a])) = Inr (cs @ [a])" "cs @ [a] \<noteq> []"
    using assms(1-3) by simp_all
  then show ?thesis
  proof (cases rule: os_Symlink_cases[where tgt = tgt])
    case (err e w1)
    then show ?thesis
      using run same_osD(1)[OF err(2)] same_os_imp(3)[OF err(2)] by (auto simp: run_simps)
  next
    case (ok i w1)
    have "solid (disk w1) cs" using assms(1) ok(4) by simp
    then have "resolve False w1 (path_of (cs @ [a])) = Inr (cs @ [a])"
      "resolve False w1 (path_of (cs @ [b])) = Inr (cs @ [b])" "cs @ [a] \<noteq> []" "cs @ [b] \<noteq> []"
      using assms(2-4) by simp_all
    then show ?thesis
      using ab(1)
    proof (cases rule: os_Rename_cases)
      case e2: (err e w2)
      then have "r = Err (Wrapped m2 e)" "w' = w2" using run ok(1) by (simp_all add: run_simps)
      then show ?thesis
        using ok assms(5) same_osD(1)[OF e2(2)] same_locks.frame_trans[OF ok(2) same_os_imp(3)[OF e2(2)]]
        by simp
    next
      case o2: (ok j w2)
      then have rw: "r = Ok ()" "w' = w2" using run ok(1) by (simp_all add: run_simps)
      have "fs_get (disk w2) (cs @ [b]) = Some i"
        using o2(4) ok(4) disk.get_move_dest[OF ab, of "disk w1" "[]"] by simp
      moreover have "fs_get (disk w2) q = fs_get (disk w) q"
        if "\<not> prefix (cs @ [a]) q" "\<not> prefix (cs @ [b]) q" for q
      proof -
        have "q \<noteq> cs @ [a]" using that(1) by auto
        then show ?thesis using o2(4) ok(4) disk.get_move_elsewhere[OF ab that] by simp
      qed
      ultimately show ?thesis
        using rw ok(5) same_locks.frame_trans[OF ok(2) o2(2)] by auto
    qed
  qed
qed

lemma SetDefault_effect:
  assumes "layout_ok b u" and "solid (disk w) (user_loc b u)" and "name \<noteq> ''''" and "name \<noteq> ''-''"
    and "SetDefaultContainer b u name w = (r, w')"
  shows "(\<forall>q. \<not> prefix (user_loc b u @ [''default'']) q \<longrightarrow> \<not> prefix (user_loc b u @ [''default.tmp'']) q \<longrightarrow>
      fs_get (disk w') q = fs_get (disk w) q) \<and>
    (case r of
       Ok _ \<Rightarrow> validateName name = None \<and> (\<exists>i. fs_get (disk w') (user_loc b u @ [''default'']) = Some i \<and>
         i_kind i = Symlink (path_of (user_loc b u @ [''inventory'', name])))
     | Err _ \<Rightarrow> fs_get (disk w') (user_loc b u @ [''default'']) = fs_get (disk w) (user_loc b u @ [''default''])
     | Abort _ \<Rightarrow> False)"
proof -
  let ?d = "user_loc b u @ [''default'']" and ?t = "user_loc b u @ [''default.tmp'']"
  have pl: "list_all plain (user_loc b u)" using assms(1) by simp
  obtain ro w1 where op: "Open b u name w = (ro, w1)" by fastforce
  have so: "disk w1 = disk w" using same_osD(1)[OF keepsD[OF keeps_Open op]] .
  have rest: "SetDefaultContainer b u name w =
      seq (Open b u name) (\<lambda>ct.
        seq (wrap ''failed to unlink old temporary default link'' (unless_missing (os_Remove (path_of ?t)))) (\<lambda>_.
        seq (wrap ''failed to symlink new temporary default container'' (os_Symlink (Path ct) (path_of ?t))) (\<lambda>_.
        wrap ''failed to rename temporary link'' (os_Rename (path_of ?t) (path_of ?d))))) w"
    using assms(3,4) by (simp add: SetDefaultContainer_def Let_def default_paths[OF assms(1)])
  show ?thesis
  proof (cases ro)
    case (Err e)
    then have "r = Err e" "w' = w1" using assms(5) op unfolding rest by (simp_all add: run_simps)
    then show ?thesis using so by simp
  next
    case (Abort a)
    then show ?thesis using op Open_no_abort by blast
  next
    case (Ok ct)
    note valid = Open_OkD[OF op[unfolded Ok]]
    have target: "Path ct = path_of (user_loc b u @ [''inventory'', name])"
      using valid(1,3) assms(1) ContainerData_eq validateName_plain by simp
    have s1: "solid (disk w1) (user_loc b u)" using assms(2) so by simp
    have "resolve False w1 (path_of ?t) = Inr ?t" "?t \<noteq> []" using s1 pl by simp_all
    then show ?thesis
    proof (cases rule: unless_missing_Remove_cases)
      case (err e w2)
      then have "r = Err (Wrapped ''failed to unlink old temporary default link'' e)" "w' = w2"
        using assms(5) op Ok unfolding rest by (simp_all add: run_simps)
      then show ?thesis using so same_osD(1)[OF err(2)] by simp
    next
      case (ok w2)
      have s2: "solid (disk w2) (user_loc b u)"
      proof (rule solid_cong[OF s1])
        fix q assume "prefix q (user_loc b u)"
        then have "q \<noteq> ?t" by (auto dest: prefix_length_le)
        then show "fs_get (disk w2) q = fs_get (disk w1) q" using ok(4) by simp
      qed
      have run: "seq (wrap ''failed to symlink new temporary default container'' (os_Symlink (Path ct) (path_of ?t))) (\<lambda>_.
        wrap ''failed to rename temporary link'' (os_Rename (path_of ?t) (path_of ?d))) w2 = (r, w')"
        using assms(5) op Ok ok(1) unfolding rest by (simp add: run_simps)
      have nt: "q \<noteq> ?t" if "\<not> prefix ?t q" for q using that by auto
      show ?thesis
        using symlink_rename_effect[OF s2 pl _ _ _ run] so ok(4) nt valid(1) target
        by (auto split: res.splits)
    qed
  qed
qed

text \<open>
  C9: changing the default container is atomic: whichever call fails, the link
  \<^verbatim>\<open>default\<close> afterwards either is exactly what it was, or is a link to the directory
  of the container asked for; it is the new link exactly when the call reports
  success, and nothing but it and \<^verbatim>\<open>default.tmp\<close> (and what lies below them) is touched.
\<close>

theorem SetDefaultContainer_atomic:
  assumes "layout_ok b u" and "solid (disk w) (user_loc b u)" and "name \<noteq> ''''" and "name \<noteq> ''-''"
    and "SetDefaultContainer b u name w = (r, w')"
  shows "(\<forall>q. \<not> prefix (user_loc b u @ [''default'']) q \<longrightarrow> \<not> prefix (user_loc b u @ [''default.tmp'']) q \<longrightarrow>
      fs_get (disk w') q = fs_get (disk w) q) \<and>
    (case r of
       Ok _ \<Rightarrow> validateName name = None \<and> (\<exists>i. fs_get (disk w') (user_loc b u @ [''default'']) = Some i \<and>
         i_kind i = Symlink (path_of (user_loc b u @ [''inventory'', name])))
     | Err _ \<Rightarrow> fs_get (disk w') (user_loc b u @ [''default'']) = fs_get (disk w) (user_loc b u @ [''default''])
     | Abort _ \<Rightarrow> False)"
  using assms by (rule SetDefault_effect)

section \<open>Reading the default back\<close>

lemma keeps_DefaultContainer: "keeps same_os (DefaultContainer b u)"
  unfolding DefaultContainer_def Let_def
  by (intro same_os.keeps_all keeps_look keeps_OpenPath)

lemma path_base_snoc: "list_all plain (cs @ [n]) \<Longrightarrow> path_base (path_of (cs @ [n])) = n"
  by simp

lemma DefaultContainer_linked:
  assumes lay: "layout_ok b u" and calm: "calm w" and valid: "validateName name = None"
    and dir: "solid (disk w) (user_loc b u @ [''inventory'', name])"
    and conf: "fs_get (disk w) (user_loc b u @ [''inventory'', name, ''config.json'']) = Some i"
      "i_kind i = Regular (Doc (encode_config c))"
    and link: "fs_get (disk w) (user_loc b u @ [''default'']) = Some l"
      "i_kind l = Symlink (path_of (user_loc b u @ [''inventory'', name]))"
  shows "fst (DefaultContainer b u w) =
    Ok (Some \<lparr>Name = name, Path = ContainerDefault b u, Cfg = legacy_image c\<rparr>)"
proof -
  let ?ds = "user_loc b u @ [''inventory'', name]" and ?d = "path_of (user_loc b u @ [''default''])"
  have pl: "list_all plain (user_loc b u)" "plain name" "list_all plain ?ds"
    using lay validateName_plain[OF valid] by simp_all
  have su: "solid (disk w) (user_loc b u)" using dir by (rule solid_append)
  have res: "resolve True w' ?d = Inr ?ds" if "disk w' = disk w" for w'
    using resolve_link[of w' "user_loc b u" "''default''" l ?ds "[]"] that su dir pl link
    by (simp add: walk.simps(1))
  have resc: "resolve True w' (path_of (user_loc b u @ [''default'', ''config.json''])) =
      Inr (?ds @ [''config.json''])" if "disk w' = disk w" for w'
    using resolve_link[of w' "user_loc b u" "''default''" l ?ds "[''config.json'']"] that su dir pl link conf
    by (simp add: walk_last)
  have stat: "\<exists>j. os_Stat ?d w = (Ok j, w\<lparr>tick := Suc (tick w)\<rparr>)"
  proof -
    have "dir_at (disk w) ?ds"
      using dir solid_snoc[of "disk w" "user_loc b u @ [''inventory'']" name] by simp
    then show ?thesis
      using calm res[of "w\<lparr>tick := Suc (tick w)\<rparr>"]
      by (auto simp: os_Stat_def stat_with_def calm_sys at_path_def dir_at_def split: option.splits)
  qed
  let ?w1 = "w\<lparr>tick := Suc (tick w)\<rparr>" let ?w2 = "?w1\<lparr>tick := Suc (tick ?w1)\<rparr>"
  have readlink: "os_Readlink ?d ?w1 = (Ok (path_of ?ds), ?w2)"
    using calm su pl link by (simp add: os_Readlink_def calm_sys at_path_def)
  have "calm ?w2" using calm by simp
  moreover have "resolve True ?w2 (path_join [?d, configJson]) = Inr (?ds @ [''config.json''])"
    using resc[of ?w2] pl by (simp add: configJson_def)
  moreover have "fs_get (disk ?w2) (?ds @ [''config.json'']) = Some i" using conf(1) by simp
  ultimately obtain w3 where "OpenPath ?d name ?w2 =
      (Ok \<lparr>Name = name, Path = ?d, Cfg = legacy_image c\<rparr>, w3)"
    using OpenPath_reads[OF _ _ _ _ conf(2)] by (metis snoc_eq_iff_butlast)
  moreover have "path_base (path_of ?ds) = name"
    using path_base_snoc[of "user_loc b u @ [''inventory'']" name] pl by simp
  ultimately show ?thesis
    using stat readlink default_paths(1)[OF lay]
    by (auto simp: DefaultContainer_def Let_def run_simps)
qed

text \<open>
  C10: round trip: once \<^verbatim>\<open>SetDefaultContainer\<close> has succeeded, \<^verbatim>\<open>DefaultContainer\<close>
  reads through the link and returns the container of that name with the
  configuration stored in it, opened through the link's own path.
\<close>

theorem SetDefault_DefaultContainer:
  assumes "layout_ok b u" and "calm w'" and "name \<noteq> ''''" and "name \<noteq> ''-''"
    and "solid (disk w) (user_loc b u @ [''inventory'', name])"
    and "fs_get (disk w) (user_loc b u @ [''inventory'', name, ''config.json'']) = Some i"
    and "i_kind i = Regular (Doc (encode_config c))"
    and "SetDefaultContainer b u name w = (Ok (), w')"
  shows "fst (DefaultContainer b u w') =
    Ok (Some \<lparr>Name = name, Path = ContainerDefault b u, Cfg = legacy_image c\<rparr>)"
proof -
  have su: "solid (disk w) (user_loc b u)" using assms(5) by (rule solid_append)
  note eff = SetDefault_effect[OF assms(1) su assms(3,4,8)]
  have same: "fs_get (disk w') q = fs_get (disk w) q"
    if "prefix q (user_loc b u) \<or> prefix (user_loc b u @ [''inventory'']) q" for q
  proof -
    have "\<not> prefix (user_loc b u @ [n]) q" if "n \<noteq> ''inventory''" for n
      using \<open>prefix q (user_loc b u) \<or> prefix (user_loc b u @ [''inventory'']) q\<close> that
      by (auto simp: prefix_def append_eq_append_conv2 append_eq_Cons_conv)
    then show ?thesis using eff by simp
  qed
  have "solid (disk w') (user_loc b u @ [''inventory'', name])"
  proof (rule solid_cong[OF assms(5)])
    fix q assume "prefix q (user_loc b u @ [''inventory'', name])"
    then have "prefix q (user_loc b u) \<or> prefix (user_loc b u @ [''inventory'']) q"
      by (auto simp: prefix_append prefix_Cons)
    then show "fs_get (disk w') q = fs_get (disk w) q" by (rule same)
  qed
  moreover have "fs_get (disk w') (user_loc b u @ [''inventory'', name, ''config.json'']) = Some i"
    using same[of "user_loc b u @ [''inventory'', name, ''config.json'']"] assms(6) by (simp add: prefix_def)
  ultimately show ?thesis
    using DefaultContainer_linked[OF assms(1,2)] eff assms(7) by auto
qed

end
