(* ===== verification/Integration.thy ===== *)
theory Integration
  imports Go_Glob Images Inventory Container_Locks
begin

text \<open>
  \<^verbatim>\<open>internal/integration/xdgdesktop.go\<close> and the lookup loop of
  \<^verbatim>\<open>internal/gtkicons\<close>: copying a container's desktop files, and links to its icons,
  into one of two export directories, then switching the link \<^verbatim>\<open>exports\<close> over.
  GTK's icon theme is a parameter. A problem the source only logs leaves no trace.
\<close>

section \<open>Icons\<close>

record Icon =
  icon_Root :: string
  icon_Path :: string
  icon_Size :: int

text \<open>
  GTK: whether the library loads; for a search path and an icon name the sizes there
  are, and the file of one size (0: the unthemed one).
\<close>

record gtk =
  gtk_open :: "string list \<Rightarrow> err option"
  gtk_symbol :: "string \<Rightarrow> err option"
  gtk_sizes :: "string \<Rightarrow> string \<Rightarrow> int list"
  gtk_lookup :: "string \<Rightarrow> string \<Rightarrow> int \<Rightarrow> string option"

definition lookupIconBySize :: "gtk \<Rightarrow> string \<Rightarrow> string \<Rightarrow> int \<Rightarrow> err + Icon" where
  "lookupIconBySize g ctx icon sz = (case gtk_lookup g ctx icon sz of
      None \<Rightarrow> Inl (Msg (''Could not find '' @ icon @ ''@'' @ show_int sz))
    | Some path \<Rightarrow> Inr \<lparr>icon_Root = ctx, icon_Path = path, icon_Size = sz\<rparr>)"

definition FindIcon :: "gtk \<Rightarrow> string \<Rightarrow> string \<Rightarrow> Icon list" where
  "FindIcon g ctx icon =
     (let sizes = gtk_sizes g ctx icon;
          found = (\<lambda>sz. case lookupIconBySize g ctx icon sz of Inl _ \<Rightarrow> [] | Inr i \<Rightarrow> [i]) in
      (if sizes = [] then found 0 else []) @ concat (map found sizes))"

section \<open>One desktop file\<close>

record exportContext =
  x_ct :: Container
  x_iconCtxs :: "string list"
  x_icons :: "Icon list"
  x_targetApplicationsDir :: string
  x_targetIconsDir :: string

text \<open>The icon contexts in turn; an icon outside a theme is named by its full path.\<close>

fun resolve_icon :: "gtk \<Rightarrow> string \<Rightarrow> string list \<Rightarrow> string \<Rightarrow> Icon list \<Rightarrow> string \<times> Icon list" where
  "resolve_icon g icon [] line icons = (line, icons)"
| "resolve_icon g icon (ctx # ctxs) line icons =
     (let found = FindIcon g ctx icon in
      if length found = 1 \<and> icon_Size (hd found) = 0 then (''Icon='' @ icon_Path (hd found), icons)
      else resolve_icon g icon ctxs line (icons @ found))"

definition translate_line :: "build \<Rightarrow> gtk \<Rightarrow> Container \<Rightarrow> string list \<Rightarrow> string \<Rightarrow> Icon list \<Rightarrow> string \<times> Icon list" where
  "translate_line b g ct iconCtxs raw icons =
     (let line = trim_space raw in
      if \<not> has_prefix line ''['' \<and> \<not> has_prefix line ''#'' \<and> line \<noteq> '''' then
        (case split_n2 CHR ''='' line of
           [key, value] \<Rightarrow>
             if key = ''Exec'' then
               (''Exec='' @ ProductName b @ '' run -no-replay -- '' @ Name ct @ '' '' @ value, icons)
             else if key = ''Icon'' then resolve_icon g value iconCtxs line icons
             else (line, icons)
         | _ \<Rightarrow> (line, icons))
      else (line, icons))"

text \<open>\<^verbatim>\<open>bufio.Scanner\<close>: the lines before the first that does not fit its buffer.\<close>

definition max_token :: nat where
  "max_token = 65536"

definition drop_cr :: "string \<Rightarrow> string" where
  "drop_cr s = (if s \<noteq> '''' \<and> last s = CHR 0x0D then butlast s else s)"

definition scan_lines :: "string \<Rightarrow> string list \<times> bool" where
  "scan_lines s =
     (let parts = split_on CHR 0x0A s;
          rows = (if last parts = '''' then butlast parts else parts);
          fits = takeWhile (\<lambda>l. length l < max_token) rows in
      (map drop_cr fits, length fits < length rows))"

fun export_lines :: "build \<Rightarrow> gtk \<Rightarrow> Container \<Rightarrow> string list \<Rightarrow> loc \<Rightarrow> string list \<Rightarrow> Icon list \<Rightarrow> Icon list io" where
  "export_lines b g ct iconCtxs target [] icons = ret icons"
| "export_lines b g ct iconCtxs target (raw # rows) icons =
     (case translate_line b g ct iconCtxs raw icons of (line, icons') \<Rightarrow>
      seq (attempt (file_append target (line @ [CHR 0x0A]))) (\<lambda>_.
      export_lines b g ct iconCtxs target rows icons'))"

text \<open>
  A desktop file is its path and what was opened there. The icons found so far stay in
  the context whatever the outcome, so the error is part of the result.
\<close>

definition exportDesktopFile ::
    "build \<Rightarrow> gtk \<Rightarrow> string \<Rightarrow> exportContext \<Rightarrow> string \<times> loc \<Rightarrow> (exportContext \<times> err option) io" where
  "exportDesktopFile b g desktopFilesDir ctx desktopFile =
     (let path = fst desktopFile in
      case path_rel desktopFilesDir path of
        None \<Rightarrow> ret (ctx, Some (Wrapped ''making path relative'' (Msg ''Rel'')))
      | Some relative \<Rightarrow>
          let newName = replace_all CHR ''/'' ''-'' relative in
          seq (attempt (os_Create (path_join [x_targetApplicationsDir ctx, newName]))) (\<lambda>r. case r of
            Inl e \<Rightarrow> ret (ctx, Some (Wrapped (''failed to create exported desktop file of '' @ path) e))
          | Inr target \<Rightarrow>
              seq (attempt (file_read (snd desktopFile))) (\<lambda>r. case r of
                Inl e \<Rightarrow> ret (ctx, Some (Wrapped (''failed to read '' @ path) e))
              | Inr c \<Rightarrow>
                  (case scan_lines (text_of c) of (rows, too_long) \<Rightarrow>
                   seq (export_lines b g (x_ct ctx) (x_iconCtxs ctx) target rows (x_icons ctx)) (\<lambda>icons.
                   ret (ctx\<lparr>x_icons := icons\<rparr>,
                     if too_long then Some (Wrapped (''failed to read '' @ path) (Msg ''bufio.Scanner: token too long''))
                     else None))))))"

section \<open>Finding the desktop files\<close>

definition desktopSuffix :: string where
  "desktopSuffix = ''.desktop''"

text \<open>The patterns in turn: a malformed one is skipped, as is a file that cannot be opened.\<close>

fun match_and_open :: "string list \<Rightarrow> string \<Rightarrow> string \<Rightarrow> (string \<times> loc) list \<Rightarrow> (string \<times> loc) list io" where
  "match_and_open [] name path acc = ret acc"
| "match_and_open (pat # pats) name path acc =
     (case Match pat name of
        Inl _ \<Rightarrow> match_and_open pats name path acc
      | Inr ok \<Rightarrow>
          if ok then
            seq (attempt (os_Open path)) (\<lambda>r. case r of
              Inl _ \<Rightarrow> match_and_open pats name path acc
            | Inr q \<Rightarrow> ret (acc @ [(path, q)]))
          else match_and_open pats name path acc)"

definition visit_desktop :: "string list \<Rightarrow> string \<Rightarrow> (string \<times> loc) list \<Rightarrow> (string \<times> loc) list io" where
  "visit_desktop pats path acc =
     (let base = path_base path in
      if \<not> has_suffix base desktopSuffix then ret acc
      else match_and_open pats (take (length base - length desktopSuffix) base) path acc)"

text \<open>
  \<^verbatim>\<open>filepath.Walk\<close> with a callback that hands errors back: real directories are
  entered, links are not followed. \<open>n\<close> bounds the depth.
\<close>

primrec walk_tree :: "nat \<Rightarrow> (string \<Rightarrow> 'b \<Rightarrow> 'b io) \<Rightarrow> 'b \<Rightarrow> string \<Rightarrow> inode \<Rightarrow> 'b io" where
  "walk_tree 0 f acc path info = panic ''stack overflow''"
| "walk_tree (Suc n) f acc path info =
     (if \<not> is_dir info then f path acc
      else
        seq (os_ReadDir path) (\<lambda>names.
        seq (f path acc) (\<lambda>acc.
        each_acc (\<lambda>acc name.
          let child = path_join [path, name] in
          seq (os_Lstat child) (\<lambda>info. walk_tree n f acc child info)) acc names)))"

definition tree_depth :: "disk \<Rightarrow> nat" where
  "tree_depth t = foldr max (map (length \<circ> fst) t) 0"

definition filepath_Walk :: "(string \<Rightarrow> 'b \<Rightarrow> 'b io) \<Rightarrow> 'b \<Rightarrow> string \<Rightarrow> 'b io" where
  "filepath_Walk f acc root w =
     seq (os_Lstat root) (\<lambda>info. walk_tree (Suc (tree_depth (disk w))) f acc root info) w"

definition gatherDesktopFiles :: "Container \<Rightarrow> string \<Rightarrow> (string \<times> loc) list io" where
  "gatherDesktopFiles ct desktopFilesDir =
     seq (attempt (filepath_Walk (visit_desktop (XdgDesktopExports (Cfg ct))) [] desktopFilesDir)) (\<lambda>r. case r of
       Inl e \<Rightarrow> if is_not_exist e then ret [] else fail (Wrapped ''walking desktop files'' e)
     | Inr desktopFiles \<Rightarrow> ret desktopFiles)"

definition exportDesktopFiles ::
    "build \<Rightarrow> gtk \<Rightarrow> exportContext \<Rightarrow> string \<Rightarrow> (exportContext \<times> err option) io" where
  "exportDesktopFiles b g ctx desktopFilesDir =
     seq (attempt (gatherDesktopFiles (x_ct ctx) desktopFilesDir)) (\<lambda>r. case r of
       Inl e \<Rightarrow> ret (ctx, Some (Wrapped ''gathering files'' e))
     | Inr desktopFiles \<Rightarrow>
         seq (each_acc (\<lambda>ctx desktopFile.
           seq (exportDesktopFile b g desktopFilesDir ctx desktopFile) (\<lambda>r. ret (fst r))) ctx desktopFiles) (\<lambda>ctx.
         ret (ctx, None)))"

section \<open>Exporting the icons\<close>

text \<open>One icon; an error ends the work on this icon only.\<close>

definition export_icon :: "exportContext \<Rightarrow> Icon \<Rightarrow> unit io" where
  "export_icon ctx icon =
     seq (path_Rel (icon_Root icon) (path_dir (icon_Path icon))) (\<lambda>subdir.
     let themeName = hd (split_on CHR ''/'' subdir);
         targetThemeDir = path_join [x_targetIconsDir ctx, themeName];
         sourceIndex = path_join [icon_Root icon, themeName, ''index.theme''];
         targetIndex = path_join [targetThemeDir, ''index.theme''];
         targetIconDir = path_join [x_targetIconsDir ctx, subdir];
         targetIcon = path_join [targetIconDir, path_base (icon_Path icon)] in
     seq (os_MkdirAll targetThemeDir 493) (\<lambda>_.
     seq (on_err (os_Symlink sourceIndex targetIndex) (\<lambda>e. if is_exist e then ret () else fail e)) (\<lambda>_.
     seq (os_MkdirAll targetIconDir 493) (\<lambda>_.
     os_Symlink (icon_Path icon) targetIcon))))"

definition exportIcons :: "exportContext \<Rightarrow> unit io" where
  "exportIcons ctx = each (\<lambda>icon. seq (attempt (export_icon ctx icon)) (\<lambda>_. ret ())) (x_icons ctx)"

section \<open>Updating\<close>

definition xdgDataDirs :: "string list" where
  "xdgDataDirs = [''/usr/share'', ''/usr/local/share'']"

text \<open>\<open>None\<close> is the source's -1.\<close>

definition readExportsId :: "string \<Rightarrow> nat option io" where
  "readExportsId path =
     seq (attempt (os_Readlink path)) (\<lambda>r. case r of
       Inl e \<Rightarrow> if is_not_exist e then ret None else fail e
     | Inr target \<Rightarrow>
         if has_suffix target ''.0'' then ret (Some 0)
         else if has_suffix target ''.1'' then ret (Some 1)
         else fail (Msg (path @ '' does not have a valid export ID'')))"

text \<open>
  Loading GTK: Go's map of symbols is gone over in some order, here that of the source.
  The handle is kept once it is loaded; as the library's answers do not change, loading
  again gives the same.
\<close>

definition gtk_symbols :: "string list" where
  "gtk_symbols = [''gtk_icon_theme_new'', ''g_object_unref'', ''gtk_icon_theme_set_search_path'',
     ''gtk_icon_theme_get_icon_sizes'', ''gtk_icon_theme_lookup_icon'', ''gtk_icon_info_get_filename'']"

definition loadGtk :: "gtk \<Rightarrow> err option" where
  "loadGtk g = (case gtk_open g [''libgtk-3.so'', ''libgtk-3.so.0''] of
      Some e \<Rightarrow> Some (Wrapped ''failed to open gtk3'' e)
    | None \<Rightarrow> (case filter (\<lambda>name. gtk_symbol g name \<noteq> None) gtk_symbols of
        [] \<Rightarrow> None
      | name # _ \<Rightarrow> gtk_symbol g name))"

text \<open>A context is its search path.\<close>

definition CreateContext :: "gtk \<Rightarrow> string \<Rightarrow> string io" where
  "CreateContext g path = (case loadGtk g of
      Some e \<Rightarrow> fail (Wrapped ''failed to load gtk3'' e)
    | None \<Rightarrow> ret path)"

definition addIconLoaderContext :: "gtk \<Rightarrow> exportContext \<Rightarrow> string \<Rightarrow> exportContext io" where
  "addIconLoaderContext g ctx iconDir =
     seq (wrap ''failed to create icon context'' (CreateContext g iconDir)) (\<lambda>iconCtx.
     ret (ctx\<lparr>x_iconCtxs := x_iconCtxs ctx @ [iconCtx]\<rparr>))"

definition new_instance :: "nat option \<Rightarrow> nat" where
  "new_instance old = (if old = Some 0 then 1 else 0)"

text \<open>Filling the new instance.\<close>

definition populate_exports :: "build \<Rightarrow> gtk \<Rightarrow> Container \<Rightarrow> string \<Rightarrow> unit io" where
  "populate_exports b g ct newExportsInstanceDir =
     (let targetRoot = path_join [newExportsInstanceDir, ''share''];
          ctx = \<lparr>x_ct = ct, x_iconCtxs = [], x_icons = [],
                 x_targetApplicationsDir = path_join [targetRoot, ''applications''],
                 x_targetIconsDir = path_join [targetRoot, ''icons'']\<rparr>;
          pixmaps = StorageChild ct [''usr/share/pixmaps''] in
      seq (each_acc (\<lambda>ctx dir.
        addIconLoaderContext g ctx (StorageChild ct [path_join [dir, ''icons'']])) ctx xdgDataDirs) (\<lambda>ctx.
      seq (attempt (os_Stat pixmaps)) (\<lambda>r.
      seq (case r of Inl _ \<Rightarrow> ret ctx | Inr _ \<Rightarrow> addIconLoaderContext g ctx pixmaps) (\<lambda>ctx.
      seq (each (\<lambda>dir. wrap (''failed to create '' @ dir) (os_MkdirAll dir 493))
             [x_targetApplicationsDir ctx, x_targetIconsDir ctx]) (\<lambda>_.
      seq (each_acc (\<lambda>ctx dir.
             seq (exportDesktopFiles b g ctx (StorageChild ct [dir])) (\<lambda>r. ret (fst r))) ctx
             (map (\<lambda>dir. path_join [dir, ''applications'']) xdgDataDirs @ XdgDesktopExtra (Cfg ct))) (\<lambda>ctx.
      exportIcons ctx))))))"

text \<open>Switching over, and dropping the old instance.\<close>

definition switch_exports :: "Container \<Rightarrow> string \<Rightarrow> nat option \<Rightarrow> unit io" where
  "switch_exports ct newExportsInstanceDir oldExportsInstanceId =
     seq (wrap ''failed to symlink new instance dir'' (os_Symlink newExportsInstanceDir (ExportsLink ct True))) (\<lambda>_.
     seq (wrap ''failed to rename onto new instance dir'' (os_Rename (ExportsLink ct True) (ExportsLink ct False))) (\<lambda>_.
     (case oldExportsInstanceId of
        None \<Rightarrow> ret ()
      | Some n \<Rightarrow> wrap ''failed to delete old instance dir'' (os_RemoveAll (ExportsInstance ct n)))))"

definition UpdateDesktopFiles :: "build \<Rightarrow> gtk \<Rightarrow> Container \<Rightarrow> unit io" where
  "UpdateDesktopFiles b g ct =
     seq (wrap ''acquire exports lock'' (Lock ct ExportsLock NoWaitForLock)) (\<lambda>lock.
     defer_do (Release lock)
       (seq (readExportsId (ExportsLink ct False)) (\<lambda>oldExportsInstanceId.
        let newExportsInstanceId = new_instance oldExportsInstanceId;
            newExportsInstanceDir = ExportsInstance ct newExportsInstanceId in
        seq (wrap (''failed to reset new exports instance dir '' @ show_nat newExportsInstanceId)
               (unless_missing (os_RemoveAll newExportsInstanceDir))) (\<lambda>_.
        seq (populate_exports b g ct newExportsInstanceDir) (\<lambda>_.
        switch_exports ct newExportsInstanceDir oldExportsInstanceId)))))"

end
