(* ===== verification/Witnesses.thy ===== *)
theory Witnesses
  imports Container_Life Daemon_Facts Nsbox_Host Pty_Service Integration
begin

text \<open>
  One small machine on which the properties are applied: user \<^verbatim>\<open>u\<close> with home
  \<^verbatim>\<open>/h/u\<close>, the state directory \<^verbatim>\<open>/v\<close>, and one container \<^verbatim>\<open>c\<close> of the image
  \<^verbatim>\<open>i\<close>. Each \<open>..._witness\<close> instantiates a property whose statement has hypotheses.
\<close>

section \<open>The machine\<close>

definition sample_build :: build where
  "sample_build = \<lparr>BinDir = ''bin'', ConfigDir = ''/e'', LibexecDir = ''libexec'', ShareDir = ''share'',
     StateDir = ''/v'', ProductName = ''nsbox'', EnableSudo = True, EnableCvtsudoers = True,
     SudoGroup = ''wheel''\<rparr>"

definition sample_user :: Userdata where
  "sample_user = \<lparr>User = \<lparr>Username = ''u'', Uid = ''1000'', Gid = ''1000'', HomeDir = ''/h/u''\<rparr>,
     Shell = ''/bin/bash'', Groups = [], Environ = []\<rparr>"

definition sample_config :: Config where
  "sample_config = zero_config\<lparr>Image := ''i'', PrivateDirs := [''p/q'']\<rparr>"

definition sample_ct :: Container where
  "sample_ct = \<lparr>Name = ''c'', Path = ''/v/nsbox/u/inventory/c'', Cfg = sample_config\<rparr>"

definition sample_loc :: loc where
  "sample_loc = [''v'', ''nsbox'', ''u'', ''inventory'', ''c'']"

definition dir_node :: "nat \<Rightarrow> inode" where
  "dir_node n = \<lparr>i_ino = n, i_kind = Directory, i_mode = 493, i_uid = 0, i_gid = 0\<rparr>"

definition file_node :: "nat \<Rightarrow> content \<Rightarrow> inode" where
  "file_node n c = \<lparr>i_ino = n, i_kind = Regular c, i_mode = 420, i_uid = 0, i_gid = 0\<rparr>"

definition sample_disk :: disk where
  "sample_disk =
     [([''v''], dir_node 1), ([''v'', ''nsbox''], dir_node 2), ([''v'', ''nsbox'', ''u''], dir_node 3),
      ([''v'', ''nsbox'', ''u'', ''inventory''], dir_node 4), (sample_loc, dir_node 5),
      (sample_loc @ [''config.json''], file_node 6 (Doc (encode_config sample_config))),
      (sample_loc @ [''run.lock''], file_node 7 (Raw '''')),
      (sample_loc @ [''storage''], dir_node 8), (sample_loc @ [''storage'', ''etc''], dir_node 9),
      (sample_loc @ [''storage'', ''etc'', ''sudoers.d''], dir_node 10)]"

definition world_with :: "(nat \<Rightarrow> holder option) \<Rightarrow> world" where
  "world_with locks = \<lparr>disk = sample_disk, flocks = locks, fds = (\<lambda>_. None), next_fd = 3, next_ino = 20,
     proc_uid = 0, proc_gid = 0, environ = [], cwd = [], stdout = [], tick = 0, fault = (\<lambda>_. None),
     calls = []\<rparr>"

definition sample_world :: world where
  "sample_world = world_with (\<lambda>_. None)"

text \<open>The machine while another process runs the container.\<close>

definition locked_world :: world where
  "locked_world = world_with (\<lambda>n. if n = 7 then Some (Theirs 1) else None)"

lemmas sample_defs = sample_build_def sample_user_def sample_config_def sample_ct_def sample_loc_def
  dir_node_def file_node_def sample_disk_def world_with_def sample_world_def locked_world_def

lemma sample_layout: "layout_ok sample_build sample_user"
  by code_simp

lemma sample_user_loc: "user_loc sample_build sample_user = [''v'', ''nsbox'', ''u'']"
  by code_simp

lemma sample_solid: "solid sample_disk sample_loc"
  by code_simp

lemma sample_lockable: "lockable sample_ct sample_loc (world_with locks)"
  by (simp add: world_with_def lockable_def located_def) code_simp

lemma sample_fds_ok: "fds_ok sample_world" "fds_ok locked_world"
  by (auto simp: fds_ok_def sample_world_def locked_world_def world_with_def)

section \<open>Locks\<close>

theorem LockAndDelete_locked_witness:
  "case LockAndDelete sample_ct NoWaitForLock locked_world of
      (Err e, w') \<Rightarrow> same_but_locks sample_loc locked_world w' \<and> flocks w' = flocks locked_world
    | (Abort a, w') \<Rightarrow> a = Blocked \<and> NoWaitForLock = WaitForLock \<and> same_but_locks sample_loc locked_world w'
    | (Ok _, w') \<Rightarrow> False"
proof (rule LockAndDelete_locked[where level = RunLock and p = 1])
  show "lockable sample_ct sample_loc locked_world" unfolding locked_world_def by (rule sample_lockable)
  show "fds_ok locked_world" by (rule sample_fds_ok)
  show "fs_get (disk locked_world) (lock_loc sample_loc RunLock) = Some (file_node 7 (Raw ''''))"
    by (simp add: locked_world_def world_with_def) code_simp
  show "flocks locked_world (i_ino (file_node 7 (Raw ''''))) = Some (Theirs 1)"
    by (simp add: locked_world_def world_with_def file_node_def)
qed

theorem LockAndDelete_effect_witness:
  "case LockAndDelete sample_ct NoWaitForLock sample_world of
      (Ok _, w') \<Rightarrow> flocks w' = flocks sample_world \<and>
         (\<forall>q. fs_get (disk w') q = (if prefix sample_loc q then None else fs_get (disk sample_world) q))
    | (Err e, w') \<Rightarrow> flocks w' = flocks sample_world \<and>
         (\<forall>q. prefix sample_loc q \<or> fs_get (disk w') q = fs_get (disk sample_world) q)
    | (Abort a, w') \<Rightarrow> a = Blocked \<and> NoWaitForLock = WaitForLock"
  by (rule LockAndDelete_effect) (simp_all add: sample_lockable sample_world_def sample_fds_ok[unfolded sample_world_def])

section \<open>The inventory\<close>

lemma sample_list: "fst (List_containers sample_build sample_user sample_world) = Ok [sample_ct]"
  by code_simp


theorem SetDefaultContainer_atomic_witness:
  "\<exists>w'. SetDefaultContainer sample_build sample_user ''c'' sample_world = (Ok (), w') \<and>
    (\<exists>i. fs_get (disk w') [''v'', ''nsbox'', ''u'', ''default''] = Some i \<and>
       i_kind i = Symlink ''/v/nsbox/u/inventory/c'')"
proof -
  have "fst (SetDefaultContainer sample_build sample_user ''c'' sample_world) = Ok ()" by code_simp
  then obtain w' where w': "SetDefaultContainer sample_build sample_user ''c'' sample_world = (Ok (), w')"
    by (metis prod.collapse)
  have "solid (disk sample_world) (user_loc sample_build sample_user)"
    unfolding sample_user_loc by code_simp
  from SetDefaultContainer_atomic[OF sample_layout this _ _ w'] w' show ?thesis
    unfolding sample_user_loc by (auto simp: path_of_def)
qed


lemma calm_I: "(\<And>n. fault w n = None) \<Longrightarrow> calm w"
  by (simp add: calm_def)

lemma run_from_fst: "fst (m w) = r \<Longrightarrow> \<exists>w'. m w = (r, w') \<and> w' = snd (m w)"
  by (metis prod.collapse)

theorem SetDefault_DefaultContainer_witness:
  "\<exists>w'. SetDefaultContainer sample_build sample_user ''c'' sample_world = (Ok (), w') \<and>
    fst (DefaultContainer sample_build sample_user w') =
      Ok (Some \<lparr>Name = ''c'', Path = ContainerDefault sample_build sample_user, Cfg = legacy_image sample_config\<rparr>)"
proof -
  let ?run = "SetDefaultContainer sample_build sample_user ''c'' sample_world"
  have "fst ?run = Ok ()" by code_simp
  then obtain w' where w': "?run = (Ok (), w')" "w' = snd ?run" using run_from_fst by metis
  have calm: "calm w'" unfolding w'(2) by (rule calm_I) code_simp
  have "solid (disk sample_world) (user_loc sample_build sample_user @ [''inventory'', ''c''])"
    unfolding sample_user_loc by code_simp
  moreover have "fs_get (disk sample_world)
      (user_loc sample_build sample_user @ [''inventory'', ''c'', ''config.json'']) =
      Some (file_node 6 (Doc (encode_config sample_config)))"
    unfolding sample_user_loc by code_simp
  moreover have "i_kind (file_node 6 (Doc (encode_config sample_config))) =
      Regular (Doc (encode_config sample_config))" by (simp add: file_node_def)
  ultimately show ?thesis
    using SetDefault_DefaultContainer[OF sample_layout calm, of "''c''"] w'(1) by auto
qed

section \<open>A container's life\<close>

lemma sample_inventory: "solid (disk sample_world) (inventory_loc sample_build sample_user)"
  unfolding inventory_loc_def sample_user_loc by code_simp

theorem CreateStaged_isolated_witness:
  "\<exists>ct w'. CreateStaged sample_build sample_user ''d'' sample_config sample_world = (Ok ct, w') \<and>
    Staged ct \<and> dir_at (disk w') (stage_loc sample_build sample_user ''d'' @ [''storage''])"
proof -
  let ?run = "CreateStaged sample_build sample_user ''d'' sample_config sample_world"
  have "fst ?run = Ok (staged sample_build sample_user ''d'' sample_config)" by code_simp
  then obtain w' where w': "?run = (Ok (staged sample_build sample_user ''d'' sample_config), w')"
    by (metis prod.collapse)
  from CreateStaged_isolated[OF sample_layout sample_inventory w'] w' show ?thesis by auto
qed

theorem Unstage_atomic_witness:
  "\<exists>w1 w2. CreateStaged sample_build sample_user ''d'' sample_config sample_world =
      (Ok (staged sample_build sample_user ''d'' sample_config), w1) \<and>
    Unstage (staged sample_build sample_user ''d'' sample_config) w1 = (Ok (), w2) \<and>
    (\<forall>rest. fs_get (disk w2) (container_loc sample_build sample_user ''d'' @ rest) =
      fs_get (disk w1) (stage_loc sample_build sample_user ''d'' @ rest))"
proof -
  let ?run = "CreateStaged sample_build sample_user ''d'' sample_config sample_world"
  let ?ct = "staged sample_build sample_user ''d'' sample_config"
  have "fst ?run = Ok ?ct" by code_simp
  then obtain w1 where w1: "?run = (Ok ?ct, w1)" "w1 = snd ?run" using run_from_fst by metis
  have "fst (Unstage ?ct w1) = Ok ()" unfolding w1(2) by code_simp
  then obtain w2 where w2: "Unstage ?ct w1 = (Ok (), w2)" by (metis prod.collapse)
  have "solid (disk w1) (inventory_loc sample_build sample_user)"
    unfolding w1(2) inventory_loc_def sample_user_loc by code_simp
  moreover have "validateName ''d'' = None" by code_simp
  ultimately show ?thesis
    using Unstage_atomic[OF sample_layout _ _ w2] w1(1) w2 by auto
qed

theorem create_Open_round_trip_witness:
  "\<exists>ct w1 w2. CreateStaged sample_build sample_user ''d'' sample_config sample_world = (Ok ct, w1) \<and>
    Unstage ct w1 = (Ok (), w2) \<and> fst (Open sample_build sample_user ''d'' w2) =
      Ok \<lparr>Name = ''d'', Path = ContainerData sample_build sample_user ''d'', Cfg = legacy_image sample_config\<rparr>"
proof -
  let ?run = "CreateStaged sample_build sample_user ''d'' sample_config sample_world"
  let ?ct = "staged sample_build sample_user ''d'' sample_config"
  have "fst ?run = Ok ?ct" by code_simp
  then obtain w1 where w1: "?run = (Ok ?ct, w1)" "w1 = snd ?run" using run_from_fst by metis
  let ?run2 = "Unstage ?ct w1"
  have "fst ?run2 = Ok ()" unfolding w1(2) by code_simp
  then obtain w2 where w2: "?run2 = (Ok (), w2)" "w2 = snd ?run2" using run_from_fst by metis
  have "calm w2" unfolding w2(2) w1(2) by (rule calm_I) code_simp
  then show ?thesis
    using create_Open_round_trip[OF sample_layout sample_inventory w1(1) w2(1)] w1(1) w2(1) by blast
qed


section \<open>Images\<close>

text \<open>Two images in the configuration directory: \<^verbatim>\<open>i\<close>, which takes the tag \<^verbatim>\<open>1\<close>, is built on \<^verbatim>\<open>base\<close>.\<close>

definition image_world :: world where
  "image_world = sample_world\<lparr>disk := sample_disk @
     [([''e''], dir_node 30), ([''e'', ''nsbox''], dir_node 31), ([''e'', ''nsbox'', ''images''], dir_node 32),
      ([''e'', ''nsbox'', ''images'', ''i''], dir_node 33),
      ([''e'', ''nsbox'', ''images'', ''i'', ''metadata.json''],
         file_node 34 (Doc (JObj [(''parent'', JStr ''base''), (''valid_tags'', JArr [JStr ''1''])]))),
      ([''e'', ''nsbox'', ''images'', ''i'', ''playbook.yaml''], file_node 35 (Raw ''x'')),
      ([''e'', ''nsbox'', ''images'', ''base''], dir_node 36),
      ([''e'', ''nsbox'', ''images'', ''base'', ''metadata.json''], file_node 37 (Doc (JObj []))),
      ([''e'', ''nsbox'', ''images'', ''base'', ''playbook.yaml''], file_node 38 (Raw ''x'')),
      ([''x''], dir_node 40), ([''x'', ''share''], dir_node 41), ([''x'', ''share'', ''nsbox''], dir_node 42),
      ([''x'', ''share'', ''nsbox'', ''release''], dir_node 43),
      ([''x'', ''share'', ''nsbox'', ''release'', ''BRANCH''], file_node 44 (Raw ''edge'')),
      ([''x'', ''share'', ''nsbox'', ''release'', ''VERSION''], file_node 45 (Raw ''7''))]\<rparr>"

definition sample_exe :: "err + string" where
  "sample_exe = Inr ''/x/bin/nsbox''"

definition image_i :: Image_info where
  "image_i = (image_at ''/e/nsbox/images/i'')\<lparr>img_Parent := ''base'', img_ValidTags := [''1'']\<rparr>"

theorem image_Open_valid_tag_witness:
  "\<exists>w'. image_Open sample_build sample_exe True ''i:1'' True image_world = (Ok image_i, w') \<and>
    snd (split_tag ''i:1'') \<in> set (img_ValidTags image_i)"
proof -
  have "fst (image_Open sample_build sample_exe True ''i:1'' True image_world) = Ok image_i" by code_simp
  then obtain w' where w': "image_Open sample_build sample_exe True ''i:1'' True image_world = (Ok image_i, w')"
    by (metis prod.collapse)
  from image_Open_valid_tag[OF w'] w' show ?thesis by (auto simp: image_i_def)
qed

theorem ResolveChain_sound_witness:
  "\<exists>w'. ResolveChain sample_build sample_exe True 3 image_i False image_world =
      Some (Ok [image_at ''/e/nsbox/images/base'', image_i], w') \<and>
    chain_ok (parent_of sample_build sample_exe True False image_world) [image_at ''/e/nsbox/images/base'', image_i]"
proof -
  let ?run = "ResolveChain sample_build sample_exe True 3 image_i False image_world"
  have "map_option fst ?run = Some (Ok [image_at ''/e/nsbox/images/base'', image_i])" by code_simp
  then obtain w' where w': "?run = Some (Ok [image_at ''/e/nsbox/images/base'', image_i], w')" by auto
  from ResolveChain_sound[OF w'] w' show ?thesis by blast
qed

lemma sample_parents:
  "well_founded_parents sample_build sample_exe True False image_world [''base''] (\<lambda>_. 0)"
  unfolding well_founded_parents_def
proof (intro ballI allI impI)
  fix n w1 w2 img
  assume n: "n \<in> set [''base'']" and s: "same_os image_world w1"
    and o: "image_Open sample_build sample_exe True n False w1 = (Ok img, w2)"
  have w1: "w1 = image_world\<lparr>tick := tick w1\<rparr>" using s by (cases w1) (simp add: same_os_def)
  have "fst (image_Open sample_build sample_exe True ''base'' False (image_world\<lparr>tick := t\<rparr>)) =
      Ok (image_at ''/e/nsbox/images/base'')" for t
    by code_simp
  from this[of "tick w1"] have "img = image_at ''/e/nsbox/images/base''" using o n w1 by simp
  then show "img_Parent img = '''' \<or> img_Parent img \<in> set [''base''] \<and> (0::nat) < 0"
    by (simp add: image_at_def)
qed

theorem ResolveChain_returns_witness:
  "ResolveChain sample_build sample_exe True 2 image_i False image_world \<noteq> None"
proof -
  have "img_Parent image_i = [] \<or> img_Parent image_i \<in> set [''base'']" by (simp add: image_i_def)
  from ResolveChain_returns[OF sample_parents this] show ?thesis unfolding add_0 by simp
qed

section \<open>Command lines and channels\<close>

definition sample_builder :: Builder where
  "sample_builder = \<lparr>nspawn = ''/n'', Quiet = True, AsPid2 = False, nb_Boot = False,
     KeepUnit = True, PipeConsole = False, NetworkVeth = False, NetworkZone = '''',
     MachineDirectory = ''/m'', LinkJournal = '''', nb_MachineName = '''', Hostname = '''',
     Capabilities = [''all''], SystemCallFilter = '''',
     Binds = [\<lparr>b_Host = ''/a'', b_Dest = ''/b'', b_Recursive = True\<rparr>], Command = [''c'']\<rparr>"

theorem Build_shape_witness:
  "\<exists>opts. Build sample_builder = Ok (''/n'' # opts @ [''c'']) \<and>
    filter (\<lambda>x. has_prefix x ''--bind='') opts = [''--bind='' @ bind_spec (hd (Binds sample_builder))]"
proof -
  have "MachineDirectory sample_builder \<noteq> ''''" by (simp add: sample_builder_def)
  from Build_shape[OF this] show ?thesis by (auto simp: sample_builder_def)
qed

theorem GenerateUniqueLinkName_ok_witness:
  "length ''vz-'' \<le> 12 \<and>
    (case GenerateUniqueLinkName (Inr [''nx-c'']) (\<lambda>n. n) ''c'' ''vz-'' of
       Ok name \<Rightarrow> length (''vz-'' @ name) < IFNAMSIZ \<and> has_prefix name nsboxPrefix \<and> name \<notin> set [''nx-c''] \<and>
         (length ''c'' + length ''vz-'' \<le> 12 \<longrightarrow> nsboxPrefix @ ''c'' \<notin> set [''nx-c''] \<longrightarrow> name = nsboxPrefix @ ''c'')
     | Err _ \<Rightarrow> length ''c'' + length ''vz-'' \<le> 12 \<and> ''c'' \<noteq> '''' \<longrightarrow> nsboxPrefix @ ''c'' \<in> set [''nx-c'']
     | Abort _ \<Rightarrow> False)"
proof -
  have h: "length ''vz-'' \<le> 12" by simp
  from h GenerateUniqueLinkName_ok[OF h, where links = "[''nx-c'']" and rand = "\<lambda>n. n" and base = "''c''"] show ?thesis by (rule conjI)
qed

definition plain_receiver :: receiver where
  "plain_receiver = \<lparr>rx_fault = (\<lambda>_. None),
     rx_ParseControl = (\<lambda>_ c. case c of None \<Rightarrow> Inl (Msg ''short'') | Some rights \<Rightarrow> Inr [rights]),
     rx_max_alloc = 1000\<rparr>"

theorem Recv_Send_witness:
  "\<exists>sent. Send (\<lambda>m. Inr [m]) (\<lambda>_. None) \<lparr>Message = 7, m_fds = [UnixFd 4]\<rparr> [] = (Ok (), [] @ sent) \<and>
    Recv (\<lambda>bs. Inr (hd bs)) plain_receiver (NewMessageSlot 0) (sent @ [([], [])]) =
      (Ok \<lparr>Message = 7, m_fds = [UnixFd 4]\<rparr>, [([], [])])"
proof -
  let ?slot = "\<lparr>Message = 7 :: byte, m_fds = [UnixFd 4]\<rparr>"
  obtain sent where s: "Send (\<lambda>m. Inr [m]) (\<lambda>_. None) ?slot [] = (Ok (), [] @ sent)"
    by (simp add: Send_def Let_def)
  have "Recv (\<lambda>bs. Inr (hd bs)) plain_receiver (NewMessageSlot 0) (sent @ [([], [])]) =
      (Ok \<lparr>Message = Message ?slot, m_fds = m_fds ?slot\<rparr>, [([], [])])"
    by (rule Recv_Send[OF s]) (auto simp: plain_receiver_def CmsgSpace_def)
  then show ?thesis using s by auto
qed

theorem GetExecLabel_fields_witness:
  "GetExecLabel ''u:r:t:s0'' = Inr ''u:system_r:spc_t:s0'' \<and>
    split_on CHR '':'' ''u:system_r:spc_t:s0'' = (split_on CHR '':'' ''u:r:t:s0'')[1 := systemRole, 2 := spcType]"
proof -
  have l: "GetExecLabel ''u:r:t:s0'' = Inr ''u:system_r:spc_t:s0''" by code_simp
  from l GetExecLabel_fields[OF l] show ?thesis by blast
qed

theorem pty_hand_over_witness:
  "OpenPtyInContainer (\<lambda>_. Inr (handlePtyRequest (Inr (5, ''/dev/pts/3'')) None (\<lambda>_. None))) None
     plain_receiver sample_ct = Ok (5, ''/dev/pts/3'')"
  using pty_hand_over[of "\<lambda>_. Inr (handlePtyRequest (Inr (5, ''/dev/pts/3'')) None (\<lambda>_. None))" sample_ct 5
      "''/dev/pts/3''" plain_receiver "Msg ''short''"]
  by (simp add: plain_receiver_def)


section \<open>Sessions and the daemon\<close>

text \<open>An environment in which every request succeeds; standard input and output are terminals.\<close>

definition sample_nsbus :: nsbus_sys where
  "sample_nsbus = \<lparr>nb_tempdir = Inr ''/tmp/nsbox-socket1'', nb_open_ns = (\<lambda>_. None), nb_socket = None,
     nb_clone = None, nb_setns = None, nb_connect = (\<lambda>_. None), nb_killed = False, nb_wait = None,
     nb_listen = (\<lambda>_. None), nb_dial = (\<lambda>_. None), nb_accept = None\<rparr>"

definition sample_session :: session_sys where
  "sample_session = \<lparr>ss_IsTerminal = (\<lambda>fd. fd < 2), ss_OpenPty = (\<lambda>_. Ok (5, ''/dev/pts/3'')),
     ss_Getuid = 1000, ss_machined = \<lparr>m_New = None, m_Describe = (\<lambda>_. Inr \<lparr>p_Leader = 42\<rparr>)\<rparr>,
     ss_selinux = \<lparr>EnforceMode = Disabled_mode, ExecLabel = Inr '''',
       CurrentLabel = Inr '''', SetExecLabel = (\<lambda>_. None)\<rparr>,
     ss_LookPath = Inr, ss_Exec = (\<lambda>_. None), ss_Start = (\<lambda>_. None), ss_Wait = Inr 0x0300,
     ss_nsbus = sample_nsbus, ss_NewConnection = (\<lambda>dial. dial), ss_Auth = (\<lambda>_. None), ss_Hello = None, ss_uuid = ''x'', ss_ServiceProperty = (\<lambda>_ _. Inr (Some 1))\<rparr>"

lemma sample_exit: "exit_code (handle_Wait sample_session NsenterSession) = Ok 3"
  by (simp add: exit_code_def handle_Wait_def nsenter_Wait_def sample_session_def convertStateToProcessExit_def
      ws_Signaled_def ws_Exited_def ws_Signal_def ws_ExitStatus_def Let_def)

lemma sample_pty_flags: "pty_flags (ss_IsTerminal sample_session) = 3"
  by (simp add: pty_flags_def sample_session_def stdinPtyFlag_def stdoutPtyFlag_def stderrPtyFlag_def)


definition sample_spec :: containerEntrySpec where
  "sample_spec = \<lparr>ptyPath = ''/dev/pts/3'', ptyIo = 1, spec_env = [(''A'', ''b'')],
     spec_verbose = True, spec_uid = 1000, spec_cwd = ''/w'', spec_noReplay = False,
     spec_command = [''ls'', ''-l'']\<rparr>"

theorem enter_reads_what_host_sends_witness:
  "\<exists>names cmd. flag_parse enter_SetFlags (drop 2 (buildNsboxHostCommand stdioFlags sample_spec)) enter_fresh =
      (Ok (names, [''env'', ''A=b'', ''ls'', ''-l'']), cmd) \<and> en_uid cmd = 1000 \<and> en_cwd cmd = ''/w'' \<and> en_verbose cmd"
proof -
  have "mset stdioFlags = mset stdioFlags" "- (2 ^ 63) \<le> spec_uid sample_spec" "spec_uid sample_spec < 2 ^ 63"
    by (simp_all add: sample_spec_def)
  from enter_reads_what_host_sends[OF this] show ?thesis by (auto simp: sample_spec_def)
qed

lemma sample_checked: "check_config (Cfg sample_ct) = None"
  by code_simp


definition sample_launch :: launch where
  "sample_launch = \<lparr>l_usr = sample_user, l_bld = sample_builder\<rparr>"

theorem bindPrivate_never_panics_witness:
  "\<forall>a w'. bindPrivate sample_ct sample_launch sample_world \<noteq> (Abort a, w')"
proof -
  have "NumericIds (l_usr sample_launch) = Ok (1000, 1000)" by code_simp
  from bindPrivate_never_panics[OF sample_checked this] show ?thesis by blast
qed

text \<open>The daemon's environment; the container's network is virtual and \<^verbatim>\<open>firewalld\<close> answers.\<close>

definition sample_bus :: firewalld_bus where
  "sample_bus = \<lparr>fw_SystemBus = None, fw_Version = None, fw_Call = (\<lambda>_ _ _. None),
     fw_Close = None\<rparr>"

definition sample_daemon :: daemon_sys where
  "sample_daemon = \<lparr>d_exe = sample_exe, d_branch_first = True, d_nspawn = Inr ''/n'', d_links = Inr [],
     d_rand = (\<lambda>n. n), d_firewall = sample_bus, d_MachineID = Inr ''m'',
     d_userdb = \<lparr>exec_Output = (\<lambda>_. Inr ''u:x''), GroupIds = (\<lambda>_. Inr []), LookupGroupId = (\<lambda>_. Inl (Msg ''x'')),
       LookupId = (\<lambda>_. Inl (Msg ''x'')), CurrentUser = Inl (Msg ''x'')\<rparr>,
     d_sudo_tools = \<lparr>cvtsudoers_LookPath = Inl (Msg ''x''), cvtsudoers_Output = Inl (Msg ''x''),
       cvtsudoers_Unmarshal = (\<lambda>_. Inl (Msg ''x''))\<rparr>,
     d_varlink = (\<lambda>_. None),
     d_selinux = ss_selinux sample_session, d_Run = (\<lambda>_. None)\<rparr>"

theorem Run_exclusive_witness:
  "(\<exists>e w'. RunContainerDirectNspawn sample_daemon sample_build 3 sample_ct sample_user locked_world = (Err e, w') \<and>
      calls w' = calls locked_world \<and> flocks w' = flocks locked_world)"
proof -
  obtain r w' where run: "RunContainerDirectNspawn sample_daemon sample_build 3 sample_ct sample_user locked_world = (r, w')"
    by fastforce
  have l: "lockable sample_ct sample_loc locked_world" unfolding locked_world_def by (rule sample_lockable)
  have get: "fs_get (disk locked_world) (lock_loc sample_loc RunLock) = Some (file_node 7 (Raw ''''))"
    by (simp add: locked_world_def world_with_def) code_simp
  have held: "flocks locked_world (i_ino i) = Some (Theirs 1)"
    if "same_but_locks sample_loc locked_world w1" "fs_get (disk w1) (lock_loc sample_loc RunLock) = Some i" for w1 i
  proof -
    have "i_ino i = 7"
      using that get unfolding same_but_locks_def file_node_def by fastforce
    then show ?thesis by (simp add: locked_world_def world_with_def)
  qed
  from Run_exclusive[OF l sample_fds_ok(2) run] show ?thesis
  proof
    assume "\<exists>i fd w1. same_but_locks sample_loc locked_world w1 \<and> calls w1 = calls locked_world \<and>
       fs_get (disk w1) (lock_loc sample_loc RunLock) = Some i \<and> flocks locked_world (i_ino i) = None \<and>
       flocks w1 (i_ino i) = Some (Mine fd) \<and> flocks w' = flocks w1"
    then show ?thesis using held by fastforce
  qed (use run in blast)
qed


definition networked_ct :: Container where
  "networked_ct = sample_ct\<lparr>Cfg := sample_config\<lparr>VirtualNetwork := True\<rparr>\<rparr>"

theorem firewall_restored_witness:
  "\<exists>r w' during. with_firewall sample_daemon networked_ct (sample_builder\<lparr>NetworkZone := ''nx-c''\<rparr>)
      (prepare_and_run sample_daemon sample_build 3 networked_ct ''/r'' sample_launch) sample_world = (r, w') \<and>
    calls w' = [(firewalldZoneChangeInterfaceMethod, [trustedZone, ''vz-nx-c''])] @ during @
      [(firewalldZoneRemoveInterfaceMethod, [trustedZone, ''vz-nx-c'']), (''Close'', [])]"
proof -
  let ?b = "sample_builder\<lparr>NetworkZone := ''nx-c''\<rparr>"
  let ?run = "with_firewall sample_daemon networked_ct ?b
      (prepare_and_run sample_daemon sample_build 3 networked_ct ''/r'' sample_launch) sample_world"
  obtain r w' where run: "?run = (r, w')" by fastforce
  have "case fst ?run of Err e \<Rightarrow> True | _ \<Rightarrow> False" by code_simp
  then have "unwinds r" using run by (auto simp: unwinds_def split: res.splits)
  moreover have "VirtualNetwork (Cfg networked_ct)" by (simp add: networked_ct_def)
  moreover have "GetFirewall (d_firewall sample_daemon) = Some sample_bus"
    by (simp add: sample_daemon_def sample_bus_def GetFirewall_def)
  ultimately obtain during where "calls w' = calls sample_world @
      [(firewalldZoneChangeInterfaceMethod, [trustedZone, NetworkZonePrefix @ NetworkZone ?b])] @ during @
      [(firewalldZoneRemoveInterfaceMethod, [trustedZone, NetworkZonePrefix @ NetworkZone ?b]), (''Close'', [])]"
    using firewall_restored[OF _ _ _ run, of sample_bus] by (auto simp: sample_bus_def)
  moreover have "calls sample_world = []" "NetworkZonePrefix @ NetworkZone ?b = ''vz-nx-c''"
    by (simp_all add: sample_world_def world_with_def NetworkZonePrefix_def)
  ultimately show ?thesis using run by simp
qed

theorem setupSudo_effect_witness:
  "\<exists>usrdata' w'. setupSudo (Ok CanSudoNoPasswd) (image_at ''/i'') sample_ct sample_user sample_world = (Ok usrdata', w') \<and>
    (\<exists>i. fs_get (disk w') (sample_loc @ [''storage'', ''etc'', ''sudoers.d'', ''10-nsbox-passwd'']) = Some i \<and>
       i_kind i = Regular (Raw ''%wheel ALL=(ALL:ALL) NOPASSWD: ALL'')) \<and>
    env_of usrdata' ''NSBOX_CAN_SUDO'' = Some ''1''"
proof -
  let ?run = "setupSudo (Ok CanSudoNoPasswd) (image_at ''/i'') sample_ct sample_user sample_world"
  have "case fst ?run of Ok u \<Rightarrow> True | _ \<Rightarrow> False" by code_simp
  then obtain usrdata' w' where run: "?run = (Ok usrdata', w')"
    by (cases ?run) (auto split: res.splits)
  have l: "located sample_ct sample_loc sample_world"
    using sample_lockable[of "\<lambda>_. None"] by (simp add: sample_world_def lockable_def)
  have s: "solid (disk sample_world) (sample_loc @ [''storage'', ''etc'', ''sudoers.d''])"
    "no_link (disk sample_world) (sample_loc @ [''storage'', ''etc'', ''sudoers.d'', ''10-nsbox-passwd''])"
    by code_simp+
  have "honest sample_world" by (simp add: honest_def sample_world_def world_with_def)
  from setupSudo_effect[OF l s this run] run show ?thesis
    by (auto simp: image_at_def split: option.splits)
qed

end
