(* ===== verification/Create.thy ===== *)
theory Create
  imports Container_Life Inventory Images
begin

text \<open>
  \<^verbatim>\<open>internal/create/create.go\<close>: downloading or unpacking an image into a staged
  container, publishing it, and making it the default if there is none. Registries,
  tar files, temporary directories and the unpacking are parameters; the progress
  display is left out.
\<close>

section \<open>The operations\<close>

text \<open>References and loaded images are named by strings.\<close>

record create_sys =
  cr_TempDir :: "string io"
  cr_ParseReference :: "string \<Rightarrow> err + string"
  cr_Remote :: "string \<Rightarrow> err + string"
  cr_NewTag :: "string \<Rightarrow> err + string"
  cr_ImageFromPath :: "string \<Rightarrow> string \<Rightarrow> err + string"
  cr_Untar :: "string \<Rightarrow> string \<Rightarrow> unit io"

definition load_image :: "create_sys \<Rightarrow> Image_info \<Rightarrow> string \<Rightarrow> string res" where
  "load_image c img tarOverride =
     (if tarOverride = '''' then
        if img_Remote img = ''''
        then Err (Msg ''image has no remote reference (use -tar to use a local image)'')
        else
          bind_res (wrap_res ''failed to parse Remote reference'' (of_sum (cr_ParseReference c (img_Remote img)))) (\<lambda>ref.
          wrap_res ''failed to load image from remote'' (of_sum (cr_Remote c ref)))
      else
        bind_res (wrap_res ''failed to parse Remote as tag'' (of_sum (cr_NewTag c (img_Target img)))) (\<lambda>tag.
        wrap_res ''failed to load image from tar'' (of_sum (cr_ImageFromPath c tarOverride tag))))"

definition saveImageToContainer :: "create_sys \<Rightarrow> Image_info \<Rightarrow> Container \<Rightarrow> string \<Rightarrow> unit io" where
  "saveImageToContainer c img ct tarOverride =
     seq (cr_TempDir c) (\<lambda>tmp.
     defer_do (seq (attempt (os_RemoveAll tmp)) (\<lambda>_. ret ()))
       (seq (lift_res (load_image c img tarOverride)) (\<lambda>dockerImage.
        wrap ''failed to untar image'' (cr_Untar c dockerImage (Storage ct)))))"

text \<open>The warning about \<^verbatim>\<open>ShadowLine\<close> is left out: it changes nothing.\<close>

definition CreateContainer :: "create_sys \<Rightarrow> build \<Rightarrow> (err + string) \<Rightarrow> bool \<Rightarrow> Userdata \<Rightarrow>
    string \<Rightarrow> string \<Rightarrow> Config \<Rightarrow> unit io" where
  "CreateContainer c b exe branch_first usrdata name tar config =
     seq (wrap ''failed to open image'' (image_Open b exe branch_first (Image config) True)) (\<lambda>img.
     seq (CreateStaged b usrdata name config) (\<lambda>ct.
     seq (saveImageToContainer c img ct tar) (\<lambda>_.
     seq (Unstage ct) (\<lambda>_.
     seq (attempt (DefaultContainer b usrdata)) (\<lambda>def.
     if def = Inr None then
       wrap ''failed to set new default container'' (SetDefaultContainer b usrdata name)
     else ret ())))))"

section \<open>Where it writes\<close>

text \<open>Outside the trees at the locations \<open>ps\<close> nothing changed.\<close>

definition outside :: "loc list \<Rightarrow> world \<Rightarrow> world \<Rightarrow> bool" where
  "outside ps w w' \<longleftrightarrow>
     (\<forall>q. (\<forall>p\<in>set ps. \<not> prefix p q) \<longrightarrow> fs_get (disk w') q = fs_get (disk w) q)"

interpretation outside: frame "outside ps"
  by unfold_locales (auto simp: outside_def)

lemma outside_below: "only_below q w w' \<Longrightarrow> p \<in> set ps \<Longrightarrow> prefix p q \<Longrightarrow> outside ps w w'"
  unfolding only_below_def outside_def using prefix_order.trans by blast

lemma outside_same_os: "same_os w w' \<Longrightarrow> outside ps w w'"
  by (simp add: outside_def same_osD)

lemma outside_mono: "outside ps w w' \<Longrightarrow> set ps \<subseteq> set qs \<Longrightarrow> outside qs w w'"
  by (auto simp: outside_def)

lemma outside_solid:
  assumes "solid (disk w) cs" and "outside ps w w'" and "\<And>p. p \<in> set ps \<Longrightarrow> \<not> prefix p cs"
  shows "solid (disk w') cs"
proof (rule solid_cong[OF assms(1)])
  fix q assume "prefix q cs"
  then have "\<forall>p\<in>set ps. \<not> prefix p q" using assms(3) prefix_order.trans by blast
  then show "fs_get (disk w') q = fs_get (disk w) q" using assms(2) by (simp add: outside_def)
qed

text \<open>
  What is relied on: temporary directories are new entries of the directory \<open>tmp\<close>, and
  the unpacking writes below the directory it is given only.
\<close>

definition tempdirs_in :: "loc \<Rightarrow> create_sys \<Rightarrow> bool" where
  "tempdirs_in tmp c \<longleftrightarrow> list_all plain tmp \<and> (\<forall>w r w'. cr_TempDir c w = (r, w') \<longrightarrow>
     outside [tmp] w w' \<and> (\<forall>p. r = Ok p \<longrightarrow> (\<exists>n. p = path_of (tmp @ [n]) \<and> plain n \<and> solid (disk w') tmp)))"

definition untars_below :: "create_sys \<Rightarrow> bool" where
  "untars_below c \<longleftrightarrow> (\<forall>img cs w r w'. list_all plain cs \<longrightarrow> solid (disk w) cs \<longrightarrow>
     cr_Untar c img (path_of cs) w = (r, w') \<longrightarrow> outside [cs] w w')"

lemma saveImage_outside:
  assumes "tempdirs_in tmp c" and "untars_below c" and "list_all plain cs" and "Storage ct = path_of cs"
    and "solid (disk w) cs" and "\<not> prefix tmp cs" and "\<not> prefix cs tmp"
    and run: "saveImageToContainer c img ct tar w = (r, w')"
  shows "outside [tmp, cs] w w'"
proof -
  obtain rt w1 where t: "cr_TempDir c w = (rt, w1)" by fastforce
  then have o1: "outside [tmp, cs] w w1"
    using assms(1) outside_mono[of "[tmp]" w w1 "[tmp, cs]"] by (auto simp: tempdirs_in_def)
  show ?thesis
  proof (cases rt)
    case (Ok p)
    have "\<exists>n. p = path_of (tmp @ [n]) \<and> plain n \<and> solid (disk w1) tmp" and "list_all plain tmp"
      using assms(1) t Ok unfolding tempdirs_in_def by blast+
    then obtain n where n: "p = path_of (tmp @ [n])" "plain n" "solid (disk w1) tmp" "list_all plain tmp"
      by blast
    define body where "body = seq (lift_res (load_image c img tar)) (\<lambda>dockerImage.
        wrap ''failed to untar image'' (cr_Untar c dockerImage (Storage ct)))"
    obtain rb w2 where b: "body w1 = (rb, w2)" by fastforce
    have s1: "solid (disk w1) cs"
      using outside_solid[OF assms(5), of "[tmp]" w1] t assms(1,6) by (auto simp: tempdirs_in_def)
    have o2: "outside [cs] w1 w2"
    proof (cases "load_image c img tar")
      case (Ok i)
      obtain ru w3 where u: "cr_Untar c i (path_of cs) w1 = (ru, w3)" by fastforce
      then have "w2 = w3"
        using b Ok assms(4) by (cases ru) (auto simp: body_def run_simps)
      then show ?thesis using u assms(2,3) s1 by (auto simp: untars_below_def)
    qed (use b in \<open>auto simp: body_def run_simps outside.frame_refl\<close>)
    have s2: "solid (disk w2) tmp" using outside_solid[OF n(3) o2] assms(7) by simp
    have "resolve False w2 p = Inr (tmp @ [n])" using s2 n by simp
    then have "outside [tmp] w2 w4" if "os_RemoveAll p w2 = (rr, w4)" for rr w4
    proof (cases rule: os_RemoveAll_cases)
      case (err e w5)
      then show ?thesis using that by (auto simp: outside_def prefix_def)
    next
      case (ok w5)
      then show ?thesis using that by (auto simp: outside_def prefix_def)
    qed
    moreover obtain rr w4 where rm: "os_RemoveAll p w2 = (rr, w4)" by fastforce
    ultimately have o3: "outside [tmp] w2 w4" by blast
    have "w' = w2 \<or> w' = w4"
      using run t Ok b rm unfolding saveImageToContainer_def body_def[symmetric]
      by (cases rr) (auto simp: run_simps defer_do_def split: res.splits abort.splits)
    moreover have "outside [tmp, cs] w1 w2" "outside [tmp, cs] w2 w4"
      using outside_mono[OF o2, of "[tmp, cs]"] outside_mono[OF o3, of "[tmp, cs]"] by simp_all
    ultimately show ?thesis using o1 outside.frame_trans by blast
  qed (use run t o1 in \<open>auto simp: saveImageToContainer_def run_simps\<close>)
qed

section \<open>Creation as a whole\<close>

text \<open>The temporary directory lies apart from the user's directory and the staged storage.\<close>

definition apart_from_user :: "build \<Rightarrow> Userdata \<Rightarrow> string \<Rightarrow> loc \<Rightarrow> bool" where
  "apart_from_user b u name tmp \<longleftrightarrow> \<not> prefix (user_loc b u) tmp \<and> \<not> prefix tmp (user_loc b u)"

lemma apart_below:
  assumes "apart_from_user b u name tmp"
  shows "\<not> prefix tmp (user_loc b u @ rest)" "\<not> prefix (user_loc b u @ rest) tmp"
proof -
  show "\<not> prefix tmp (user_loc b u @ rest)"
    using assms by (auto simp: apart_from_user_def prefix_append)
  show "\<not> prefix (user_loc b u @ rest) tmp"
    using assms by (auto simp: apart_from_user_def prefix_def)
qed

lemmas below_user = stage_loc_def container_loc_def inventory_loc_def

definition fill_stage :: "create_sys \<Rightarrow> build \<Rightarrow> Userdata \<Rightarrow> string \<Rightarrow> string \<Rightarrow> Config \<Rightarrow> Image_info \<Rightarrow> Container io" where
  "fill_stage c b u name tar conf img =
     seq (CreateStaged b u name conf) (\<lambda>ct. seq (saveImageToContainer c img ct tar) (\<lambda>_. ret ct))"

lemma fill_stage_effect:
  assumes lay: "layout_ok b u" and sol: "solid (disk w) (inventory_loc b u)"
    and par: "tempdirs_in tmp c" "untars_below c" and apart: "apart_from_user b u name tmp"
    and run: "fill_stage c b u name tar conf img w = (r, w')"
  shows "outside [stage_loc b u name, tmp] w w'"
    "r = Ok ct \<Longrightarrow> validateName name = None \<and> Name ct = name \<and> Path ct = path_of (stage_loc b u name) \<and>
       solid (disk w') (inventory_loc b u) \<and> dir_at (disk w') (stage_loc b u name) \<and>
       (\<exists>i. fs_get (disk w') (stage_loc b u name @ [''config.json'']) = Some i \<and>
            i_kind i = Regular (Doc (encode_config conf)))"
proof -
  let ?s = "stage_loc b u name"
  obtain rc w1 where cs: "CreateStaged b u name conf w = (rc, w1)" by fastforce
  note ce = CreateStaged_effect[OF lay sol cs]
  have o1: "outside [?s, tmp] w w1" using outside_below[of ?s w w1 ?s "[?s, tmp]"] ce by simp
  have "outside [?s, tmp] w w' \<and> (r = Ok ct \<longrightarrow> validateName name = None \<and> Name ct = name \<and>
      Path ct = path_of ?s \<and> solid (disk w') (inventory_loc b u) \<and> dir_at (disk w') ?s \<and>
      (\<exists>i. fs_get (disk w') (?s @ [''config.json'']) = Some i \<and> i_kind i = Regular (Doc (encode_config conf))))"
  proof (cases rc)
    case (Ok ct1)
    then have ct: "validateName name = None" "Name ct1 = name" "Path ct1 = path_of ?s"
      and d1: "dir_at (disk w1) ?s" "dir_at (disk w1) (?s @ [''storage''])"
      using ce by auto
    have pls: "list_all plain ?s" using lay staged_name_plain[OF ct(1)] by (simp add: stage_loc_def)
    have sol1: "solid (disk w1) (inventory_loc b u)"
      using only_below_solid[OF sol, of "name @ StageSuffix"] ce by (simp add: stage_loc_def)
    have st: "solid (disk w1) (?s @ [''storage''])" using sol1 d1 by (simp add: stage_loc_def solid_snoc flip: append_assoc)
    obtain rs w2 where sv: "saveImageToContainer c img ct1 tar w1 = (rs, w2)" by fastforce
    have o2: "outside [tmp, ?s @ [''storage'']] w1 w2"
    proof (rule saveImage_outside[OF par _ _ st _ _ sv])
      show "list_all plain (?s @ [''storage''])" using pls by simp
      show "Storage ct1 = path_of (?s @ [''storage''])" using ct pls by (simp add: Storage_def)
      show "\<not> prefix tmp (?s @ [''storage''])" "\<not> prefix (?s @ [''storage'']) tmp"
        using apart_below[OF apart] by (simp_all add: below_user)
    qed
    have same: "fs_get (disk w2) q = fs_get (disk w1) q"
      if "prefix q (inventory_loc b u) \<or> q = ?s \<or> q = ?s @ [''config.json'']" for q
    proof -
      have "\<not> prefix tmp q"
      proof
        assume "prefix tmp q"
        moreover have "prefix q (?s @ [''config.json''])" using that by (auto simp: stage_loc_def)
        ultimately have "prefix tmp (?s @ [''config.json''])" by (rule prefix_order.trans)
        then show False using apart_below[OF apart] by (simp add: below_user)
      qed
      moreover have "\<not> prefix (?s @ [''storage'']) q"
        using that prefix_length_le[of "?s @ [''storage'']" q] prefix_length_le[of q "inventory_loc b u"]
        by (auto simp: stage_loc_def)
      ultimately show ?thesis using o2 by (simp add: outside_def)
    qed
    have rw: "w' = w2 \<and> (r = Ok ct \<longrightarrow> ct = ct1)"
      using run cs Ok sv by (cases rs) (auto simp: fill_stage_def run_simps)
    have "outside [?s, tmp] w1 w2" using o2 by (auto simp: outside_def prefix_def)
    moreover have "solid (disk w2) (inventory_loc b u)" using solid_cong[OF sol1] same by blast
    ultimately show ?thesis
      using o1 outside.frame_trans ct ce Ok same rw by (auto simp: dir_at_def)
  qed (use run cs o1 in \<open>auto simp: fill_stage_def run_simps\<close>)
  then show "outside [?s, tmp] w w'" "r = Ok ct \<Longrightarrow> validateName name = None \<and> Name ct = name \<and>
      Path ct = path_of ?s \<and> solid (disk w') (inventory_loc b u) \<and> dir_at (disk w') ?s \<and>
      (\<exists>i. fs_get (disk w') (?s @ [''config.json'']) = Some i \<and> i_kind i = Regular (Doc (encode_config conf)))"
    by simp_all
qed

text \<open>The last step touches the default link only.\<close>

lemma default_step_effect:
  assumes lay: "layout_ok b u" and sol: "solid (disk w) (user_loc b u)" and name: "name \<noteq> ''''" "name \<noteq> ''-''"
    and run: "seq (attempt (DefaultContainer b u)) (\<lambda>def. if def = Inr None then
       wrap msg (SetDefaultContainer b u name) else ret ()) w = (r, w')"
  shows "outside [user_loc b u @ [''default''], user_loc b u @ [''default.tmp'']] w w' \<and>
    (r = Ok () \<or> (\<exists>e. r = Err (Wrapped msg e)) \<or> (\<exists>a. r = Abort a))"
proof -
  obtain rd w1 where d: "DefaultContainer b u w = (rd, w1)" by fastforce
  have w1: "disk w1 = disk w" using keepsD[OF keeps_DefaultContainer d] by (simp add: same_osD)
  obtain rs w2 where s: "SetDefaultContainer b u name w1 = (rs, w2)" by fastforce
  have sol1: "solid (disk w1) (user_loc b u)" using sol w1 by simp
  note se = SetDefault_effect[OF lay sol1 name s]
  have o: "outside [user_loc b u @ [''default''], user_loc b u @ [''default.tmp'']] w1 w2"
    using se by (simp add: outside_def)
  have "outside [user_loc b u @ [''default''], user_loc b u @ [''default.tmp'']] w w2"
    using o w1 by (simp add: outside_def)
  moreover have "outside [user_loc b u @ [''default''], user_loc b u @ [''default.tmp'']] w w1"
    using w1 by (simp add: outside_def)
  ultimately show ?thesis
    using run d s by (cases rd; cases rs) (auto simp: run_simps split: if_splits)
qed

text \<open>Publishing: nothing changes, or the staging directory becomes the container's place.\<close>

lemma publish_effect:
  assumes lay: "layout_ok b u" and sol: "solid (disk w) (inventory_loc b u)" and dash: "name \<noteq> ''-''"
    and ct: "validateName name = None" "Name ct = name" "Path ct = path_of (stage_loc b u name)"
      "dir_at (disk w) (stage_loc b u name)"
    and run: "seq (Unstage ct) (\<lambda>_. seq (attempt (DefaultContainer b u)) (\<lambda>def. if def = Inr None then
       wrap msg (SetDefaultContainer b u name) else ret ())) w = (r, w')"
  shows "outside [stage_loc b u name, container_loc b u name, user_loc b u @ [''default''], user_loc b u @ [''default.tmp'']] w w' \<and>
    ((\<exists>e. r = Err e) \<and> disk w' = disk w \<or>
     (\<forall>rest. fs_get (disk w') (container_loc b u name @ rest) = fs_get (disk w) (stage_loc b u name @ rest)) \<and>
     fs_get (disk w') (stage_loc b u name) = None \<and>
     (r = Ok () \<or> (\<exists>e. r = Err (Wrapped msg e)) \<or> (\<exists>a. r = Abort a)))"
proof -
  let ?s = "stage_loc b u name" and ?c = "container_loc b u name" and ?u = "user_loc b u"
  obtain ru w1 where us: "Unstage ct w = (ru, w1)" by fastforce
  have ue: "cwd w1 = cwd w \<and> (case ru of
      Ok _ \<Rightarrow> (\<forall>rest. fs_get (disk w1) (?c @ rest) = fs_get (disk w) (?s @ rest)) \<and>
        (\<forall>q. \<not> prefix ?c q \<longrightarrow> fs_get (disk w1) q = (if prefix ?s q then None else fs_get (disk w) q))
    | Err _ \<Rightarrow> disk w1 = disk w | Abort _ \<Rightarrow> False)"
    using Unstage_effect[OF lay _ _ _ _ us, of name] ct sol by (auto split: res.splits)
  show ?thesis
  proof (cases ru)
    case u: (Ok v)
    have last: "seq (attempt (DefaultContainer b u)) (\<lambda>def. if def = Inr None then
       wrap msg (SetDefaultContainer b u name) else ret ()) w1 = (r, w')" using run us u by (simp add: run_simps)
    have q1: "fs_get (disk w1) q = fs_get (disk w) q" if "\<not> prefix ?c q" "\<not> prefix ?s q" for q
      using ue u that by simp
    have "solid (disk w1) (inventory_loc b u)"
    proof (rule solid_cong[OF sol])
      fix q assume "prefix q (inventory_loc b u)"
      then have "\<not> prefix ?c q" "\<not> prefix ?s q"
        by (auto simp: container_loc_def stage_loc_def dest!: prefix_length_le)
      then show "fs_get (disk w1) q = fs_get (disk w) q" by (rule q1)
    qed
    then have "solid (disk w1) ?u" by (simp add: inventory_loc_def solid_snoc)
    from default_step_effect[OF lay this _ dash last] have
      l: "outside [?u @ [''default''], ?u @ [''default.tmp'']] w1 w'"
      "r = Ok () \<or> (\<exists>e. r = Err (Wrapped msg e)) \<or> (\<exists>a. r = Abort a)"
      using ct validateName_chars(1) by auto
    have "fs_get (disk w') (?c @ rest) = fs_get (disk w) (?s @ rest)" for rest
      using l(1) ue u by (simp add: outside_def below_user)
    moreover have "fs_get (disk w') ?s = None"
      using l(1) ue u by (simp add: outside_def below_user StageSuffix_def)
    ultimately show ?thesis using q1 l ue by (auto simp: outside_def)
  next
    case (Err e)
    then have "r = Err e" "w' = w1" using run us by (simp_all add: run_simps)
    then show ?thesis using ue Err by (simp add: outside_def)
  qed (use ue in simp)
qed


end
