(* ===== verification/Kill.thy ===== *)
theory Kill
  imports Container_Locks Args
begin

text \<open>
  \<^verbatim>\<open>internal/kill/kill.go\<close>: the signals a container can be sent, as a flag value,
  and asking a container to stop. Signals go to other processes, so they are
  requests; what the function then waits for is the container's run lock.
\<close>

section \<open>Signals\<close>

datatype Signal = SigPoweroff | SigKill

definition sig_String :: "Signal \<Rightarrow> string" where
  "sig_String sig = (case sig of SigPoweroff \<Rightarrow> ''poweroff'' | SigKill \<Rightarrow> ''sigkill'')"

definition stringToSig :: "string \<Rightarrow> Signal option" where
  "stringToSig s =
     (if s = ''poweroff'' then Some SigPoweroff
      else if s = ''kill'' \<or> s = ''sigkill'' then Some SigKill
      else None)"

definition sig_Set :: "string \<Rightarrow> (Signal, unit) call" where
  "sig_Set val sig = (case stringToSig (to_lower val) of
      None \<Rightarrow> (Err (Msg ''does not exist''), sig)
    | Some newSig \<Rightarrow> (Ok (), newSig))"

interpretation sig: flag_value sig_String sig_Set SigPoweroff "\<lambda>_. True"
proof unfold_locales
  show "sig_Set (sig_String v) SigPoweroff = (Ok (), v)" for v
    by (cases v) (simp_all add: sig_Set_def sig_String_def stringToSig_def to_lower_def lower_char_def)
qed simp_all

section \<open>Killing\<close>

text \<open>
  What answers: \<^verbatim>\<open>systemd-machined\<close>, its \<^verbatim>\<open>KillMachine\<close>, and the signal sent to a process.
\<close>

record kill_sys =
  k_machined :: machined
  k_KillMachine :: "string \<Rightarrow> Signal \<Rightarrow> err option"
  k_Signal :: "32 word \<Rightarrow> Signal \<Rightarrow> err option"

definition send_signal :: "kill_sys \<Rightarrow> Userdata \<Rightarrow> Container \<Rightarrow> Signal \<Rightarrow> bool \<Rightarrow> unit io" where
  "send_signal k usrdata ct sig everyone =
     (let machineName = MachineName ct usrdata in
      if everyone then
        wrap ''failed to ask machined to kill container''
          (request ''KillMachine'' [machineName, ''all'', sig_String sig] (k_KillMachine k machineName sig))
      else
        seq (wrap ''failed to describe machine''
               (lift_res (of_sum (m_Describe (k_machined k) machineName)))) (\<lambda>props.
        wrap ''failed to signal leader process''
          (request ''kill'' [show_int (uint (p_Leader props)), sig_String sig] (k_Signal k (p_Leader props) sig))))"

definition KillContainer :: "kill_sys \<Rightarrow> Userdata \<Rightarrow> Container \<Rightarrow> Signal \<Rightarrow> bool \<Rightarrow> unit io" where
  "KillContainer k usrdata ct sig everyone =
     (if Boot (Cfg ct) \<and> everyone then fail (Msg ''-a/--all is not supported for booted containers'')
      else
        seq (check (m_New (k_machined k))) (\<lambda>_.
        seq (send_signal k usrdata ct sig everyone) (\<lambda>_.
        seq (Lock ct RunLock WaitForLock) Release)))"

section \<open>What it waits for\<close>

lemma send_signal_quiet:
  assumes "send_signal k usrdata ct sig everyone w = (r, w')"
  shows "(\<exists>sent. w' = w\<lparr>calls := calls w @ sent\<rparr> \<and> length sent \<le> 1 \<and> (r = Ok () \<longrightarrow> length sent = 1))
    \<and> (\<forall>a. r \<noteq> Abort a)"
proof (cases everyone)
  case True
  then show ?thesis
    using assms by (cases "k_KillMachine k (MachineName ct usrdata) sig")
      (auto simp: send_signal_def Let_def wrap_run request_def)
next
  case False
  show ?thesis
  proof (cases "m_Describe (k_machined k) (MachineName ct usrdata)")
    case (Inl e)
    then show ?thesis
      using assms False by (auto simp: send_signal_def Let_def run_simps intro!: exI[of _ "[]"])
  next
    case (Inr props)
    then show ?thesis
      using assms False by (cases "k_Signal k (p_Leader props) sig")
        (auto simp: send_signal_def Let_def run_simps request_def)
  qed
qed

lemma KillContainer_effect:
  assumes "lockable ct cs w" and "fds_ok w"
    and "KillContainer k usrdata ct sig everyone w = (r, w')"
  shows "same_but_locks cs w w' \<and> (case r of
      Ok _ \<Rightarrow> flocks w' = flocks w \<and> (\<exists>req. calls w' = calls w @ [req]) \<and>
        (\<forall>i. fs_get (disk w') (lock_loc cs RunLock) = Some i \<longrightarrow> flocks w (i_ino i) = None)
    | Err _ \<Rightarrow> flocks w' = flocks w
    | Abort a \<Rightarrow> a = Blocked \<and> (\<exists>i h. fs_get (disk w') (lock_loc cs RunLock) = Some i \<and> flocks w (i_ino i) = Some h))"
proof (cases "Boot (Cfg ct) \<and> everyone \<or> m_New (k_machined k) \<noteq> None")
  case True
  then have "w' = w \<and> (\<exists>e. r = Err e)"
    using assms(3) by (auto simp: KillContainer_def check_def run_simps split: if_splits option.splits)
  then show ?thesis by (auto simp: same_but_locks.frame_refl)
next
  case False
  obtain rs w1 where sent: "send_signal k usrdata ct sig everyone w = (rs, w1)" by fastforce
  obtain reqs where w1: "w1 = w\<lparr>calls := calls w @ reqs\<rparr>" "rs = Ok () \<longrightarrow> length reqs = 1"
    "\<forall>a. rs \<noteq> Abort a"
    using send_signal_quiet[OF sent] by blast
  have same: "same_but_locks cs w w1" "flocks w1 = flocks w"
    using w1(1) by (simp_all add: same_but_locks_def)
  have pre: "lockable ct cs w1" "fds_ok w1"
    using assms(1,2) w1(1) by (simp_all add: lockable_def located_def fds_ok_def)
  have run: "KillContainer k usrdata ct sig everyone w =
      (case rs of Ok _ \<Rightarrow> seq (Lock ct RunLock WaitForLock) Release w1 | Err e \<Rightarrow> (Err e, w1) | Abort a \<Rightarrow> (Abort a, w1))"
    using False sent by (auto simp: KillContainer_def check_def run_simps split: res.splits)
  show ?thesis
  proof (cases rs)
    case (Ok u)
    then obtain req where req: "reqs = [req]" using w1(2) by (cases reqs) auto
    have rest: "seq (lock_level ct RunLock WaitForLock) (\<lambda>fd. Release [fd]) w1 = (r, w')"
      using assms(3) run Ok by (simp add: Lock_def seq_assoc)
    show ?thesis
      using pre
    proof (cases rule: lock_level_cases[where level = RunLock and wait = WaitForLock])
      case (err e w2)
      then have "r = Err e" "w' = w2" using rest by (simp_all add: run_simps)
      then show ?thesis
        using same err same_but_locks_level[OF err(3)] same_but_locks.frame_trans
        by (auto simp: more_fds_def)
    next
      case (blocked w2 i h)
      then have "r = Abort Blocked" "w' = w2" using rest by (simp_all add: run_simps)
      then show ?thesis
        using same blocked same_but_locks_level[OF blocked(3)] same_but_locks.frame_trans by auto
    next
      case (ok i w2)
      have "fds_ok w2" using fds_ok_taken[OF pre(2) ok(5-7)] .
      moreover have "distinct [next_fd w1]" "list_all (\<lambda>fd. fds w2 fd \<noteq> None) [next_fd w1]"
        using ok(6) by simp_all
      ultimately obtain w3 where w3: "Release [next_fd w1] w2 = (Ok (), w3)" "same_disk w2 w3"
        "flocks w3 = without [next_fd w1] (flocks w2)"
        by (rule Release_effect)
      have end_: "r = Ok ()" "w' = w3" using rest ok(1) w3(1) by (simp_all add: run_simps)
      have "flocks w3 = flocks w"
        using w3(3) ok(5) without_fresh[OF pre(2) ok(4), of "[]"] same(2) by simp
      moreover have "calls w3 = calls w1"
        using keepsD[OF keeps_calls_Release w3(1)] keepsD[OF keeps_calls_lock_level ok(1)]
        by (simp add: same_calls_def)
      moreover have "fs_get (disk w3) (lock_loc cs RunLock) = Some i"
        using w3(2) ok(3) by (simp add: same_disk_def)
      moreover have "same_but_locks cs w w3"
        using same(1) same_but_locks_level[OF ok(2)] same_but_locks_disk[OF w3(2)]
          same_but_locks.frame_trans by blast
      ultimately show ?thesis using end_ ok(4) same(2) w1(1) req by simp
    qed
  qed (use assms(3) run w1 same in auto)
qed

text \<open>
  A kill that reports success has seen the container stop: exactly one request was
  sent, to the leader or to the whole machine, and after it the run lock was free; no
  lock is kept and nothing but the container's lock files was written. While somebody
  still holds the run lock the call does not come back.
\<close>

theorem KillContainer_waits:
  assumes "lockable ct cs w" and "fds_ok w"
    and "KillContainer k usrdata ct sig everyone w = (r, w')"
  shows "same_but_locks cs w w' \<and> (case r of
      Ok _ \<Rightarrow> flocks w' = flocks w \<and> (\<exists>req. calls w' = calls w @ [req]) \<and>
        (\<forall>i. fs_get (disk w') (lock_loc cs RunLock) = Some i \<longrightarrow> flocks w (i_ino i) = None)
    | Err _ \<Rightarrow> flocks w' = flocks w
    | Abort a \<Rightarrow> a = Blocked \<and> (\<exists>i h. fs_get (disk w') (lock_loc cs RunLock) = Some i \<and> flocks w (i_ino i) = Some h))"
  using assms by (rule KillContainer_effect)

end
