(* ===== verification/Transient.thy ===== *)
theory Transient
  imports Kill Daemon Nsbus
begin

text \<open>
  \<^verbatim>\<open>internal/daemon/transient.go\<close> and \<^verbatim>\<open>cmd/nsboxd\<close>: starting \<^verbatim>\<open>nsboxd\<close> as a
  transient systemd unit, and what that program makes of its arguments and
  environment. systemd, machined and the journal are parameters; what is asked of
  them is recorded as requests.
\<close>

section \<open>The unit\<close>

definition nsboxd_service :: "Container \<Rightarrow> Userdata \<Rightarrow> string" where
  "nsboxd_service ct usrdata = ''nsbox-'' @ MachineName ct usrdata @ ''.service''"

definition nsboxd_command :: "string \<Rightarrow> bool \<Rightarrow> Container \<Rightarrow> string list" where
  "nsboxd_command nsboxd verbose ct = [nsboxd, ''-v='' @ show_bool verbose, Name ct]"

definition nsboxd_environment :: "Userdata \<Rightarrow> string \<Rightarrow> string list" where
  "nsboxd_environment usrdata xdgRuntimeDir =
     [''PKEXEC_UID='' @ Uid (User usrdata), ''XDG_RUNTIME_DIR='' @ xdgRuntimeDir]"

text \<open>A unit property and its values.\<close>

definition nsboxd_properties :: "string \<Rightarrow> bool \<Rightarrow> Container \<Rightarrow> Userdata \<Rightarrow> string \<Rightarrow> (string \<times> string list) list" where
  "nsboxd_properties nsboxd verbose ct usrdata xdgRuntimeDir =
     [(''Type'', [''notify'']),
      (''Description'', [''nsbox container '' @ Name ct @ '' for '' @ Username (User usrdata)]),
      (''ExecStart'', nsboxd_command nsboxd verbose ct),
      (''TemporaryFileSystem'', [PrivateBusTmpdir]),
      (''Environment'', nsboxd_environment usrdata xdgRuntimeDir),
      (''NotifyAccess'', [''all''])] @
     (if VirtualNetwork (Cfg ct) then [(''Requires'', [''systemd-networkd.service''])] else [])"

text \<open>
  \<open>t_GetMachine n\<close> is the answer to the \<open>n\<close>-th question whether the machine is
  registered: a kill in between changes it.
\<close>

record transient_sys =
  t_exe :: "err + string"
  t_verbose :: bool
  t_systemd :: "err option"
  t_machined :: "err option"
  t_GetMachine :: "nat \<Rightarrow> string \<Rightarrow> err option"
  t_kill :: kill_sys
  t_journal :: "string \<Rightarrow> err option"
  t_StartTransientUnit :: "string \<Rightarrow> (string \<times> string list) list \<Rightarrow> err + string"

definition startNsboxd :: "transient_sys \<Rightarrow> string \<Rightarrow> Container \<Rightarrow> Userdata \<Rightarrow> unit io" where
  "startNsboxd t nsboxd ct usrdata =
     (let serviceName = nsboxd_service ct usrdata in
      seq (wrap ''opening journal reader'' (check (t_journal t serviceName))) (\<lambda>_.
      seq (request ''ResetFailedUnit'' [serviceName] None) (\<lambda>_.
      seq (lift_res (getXdgRuntimeDir usrdata)) (\<lambda>xdgRuntimeDir.
      let properties = nsboxd_properties nsboxd (t_verbose t) ct usrdata xdgRuntimeDir in
      seq (request ''StartTransientUnit''
             (serviceName # ''replace'' # concat (map (\<lambda>(name, vals). name # vals) properties)) None) (\<lambda>_.
      seq (wrap ''starting transient unit''
             (lift_res (of_sum (t_StartTransientUnit t serviceName properties)))) (\<lambda>jobResult.
      if jobResult \<noteq> ''done''
      then fail (Msg (''job failed (see '' @ [CHR 0x27] @ ''systemctl status '' @ serviceName @ [CHR 0x27] @ '' for more info)''))
      else ret ()))))))"

definition RunContainerViaTransientUnit :: "transient_sys \<Rightarrow> build \<Rightarrow> Container \<Rightarrow> bool \<Rightarrow> Userdata \<Rightarrow> Userdata io" where
  "RunContainerViaTransientUnit t b ct restart usrdata0 =
     (let usrdata = ApplyEnvironFilter ct usrdata0;
          machine = MachineName ct usrdata in
      seq (check (t_systemd t)) (\<lambda>_.
      seq (check (t_machined t)) (\<lambda>_.
      seq (if restart \<and> t_GetMachine t 0 machine = None then
             wrap ''killing previous instance''
               (if Boot (Cfg ct) then KillContainer (t_kill t) usrdata ct SigPoweroff False
                else KillContainer (t_kill t) usrdata ct SigKill True)
           else ret ()) (\<lambda>_.
      seq (if t_GetMachine t 1 machine \<noteq> None then
             seq (wrap ''cannot locate nsboxd'' (GetPrivateExecutable b (t_exe t) ''nsboxd'')) (\<lambda>nsboxd.
             wrap ''cannot start nsboxd'' (startNsboxd t nsboxd ct usrdata))
           else ret ()) (\<lambda>_.
      ret usrdata)))))"

section \<open>nsboxd\<close>

text \<open>\<^verbatim>\<open>log.Fatal\<close>\<close>

definition log_Fatal :: "'a io" where
  "log_Fatal = abort (Exited 1)"

definition or_fatal :: "'a io \<Rightarrow> 'a io" where
  "or_fatal m = on_err m (\<lambda>_. log_Fatal)"

text \<open>The flags: only \<^verbatim>\<open>-v\<close>; the parser exits with status 2 on an error.\<close>

definition nsboxd_flags :: "string \<Rightarrow> bool flag option" where
  "nsboxd_flags name = (if name = ''v'' then Some (True, set_bool) else None)"

definition nsboxd_arguments :: "string list \<Rightarrow> string res" where
  "nsboxd_arguments argv = (case flag_parse nsboxd_flags argv False of
      (Ok (_, [name]), _) \<Rightarrow> Ok name
    | (Ok _, _) \<Rightarrow> Abort (Exited 1)
    | _ \<Rightarrow> Abort (Exited 2))"

definition nsboxd_main :: "daemon_sys \<Rightarrow> build \<Rightarrow> nat \<Rightarrow> int \<Rightarrow> string list \<Rightarrow> unit io" where
  "nsboxd_main d b fuel uid argv =
     seq (lift_res (nsboxd_arguments argv)) (\<lambda>name.
     seq (get_state environ) (\<lambda>env.
     seq (or_fatal (lift_res (BeneathSudo (EnableSudo b) (d_userdb d) uid env))) (\<lambda>usrdata.
     seq (or_fatal (Open b usrdata name)) (\<lambda>ct.
     or_fatal (RunContainerDirectNspawn d b fuel ct (ApplyEnvironFilter ct usrdata))))))"

section \<open>What nsboxd reads\<close>

lemma nsboxd_reads_flag:
  "flag_parse nsboxd_flags ((''-v='' @ show_bool verbose) # args) False =
     (case flag_parse nsboxd_flags args verbose of
        (Ok (names, pos), v) \<Rightarrow> (Ok (''v'' # names, pos), v) | (Err e, v) \<Rightarrow> (Err e, v) | (Abort a, v) \<Rightarrow> (Abort a, v))"
proof -
  have "flag_word ''v''" by (simp add: flag_word_def)
  moreover have "nsboxd_flags ''v'' = Some (True, set_bool)" by (simp add: nsboxd_flags_def)
  ultimately have "flag_parse nsboxd_flags ((CHR ''-'' # ''v'' @ CHR ''='' # show_bool verbose) # args) False =
      seq (set_bool (show_bool verbose)) (\<lambda>_. seq (flag_parse nsboxd_flags args) (\<lambda>(names, pos). ret (''v'' # names, pos))) False"
    by (subst flag_parse_assign) simp_all
  then show ?thesis
    by (auto simp: run_simps set_bool_def show_bool_def parse_bool_def split: prod.splits res.splits)
qed

lemma getenv_unit:
  "getenv (nsboxd_environment usrdata dir @ env) ''PKEXEC_UID'' = Uid (User usrdata)"
  "getenv (nsboxd_environment usrdata dir @ env) ''XDG_RUNTIME_DIR'' = dir"
  using split_n2_append[of "CHR ''=''" "''PKEXEC_UID''" "Uid (User usrdata)"]
    split_n2_append[of "CHR ''=''" "''XDG_RUNTIME_DIR''" dir]
  by (simp_all add: nsboxd_environment_def)

text \<open>
  C33: the transient unit starts the container it was asked for, as the user who asked:
  \<^verbatim>\<open>nsboxd\<close> reads from the unit's command line the name of the container, for every
  name that does not begin with a dash, and from the unit's environment the user's
  identifier and runtime directory, whatever else systemd puts after them.
\<close>

theorem nsboxd_reads_unit:
  assumes "validateName (Name ct) = None" and "hd (Name ct) \<noteq> CHR ''-''" and "Uid (User usrdata) \<noteq> ''''"
  shows "nsboxd_arguments (tl (nsboxd_command nsboxd verbose ct)) = Ok (Name ct) \<and>
    calling_uid sudo (nsboxd_environment usrdata dir @ env) = Uid (User usrdata) \<and>
    getenv (nsboxd_environment usrdata dir @ env) ''XDG_RUNTIME_DIR'' = dir"
proof -
  have "\<not> is_flag_arg (Name ct)" using assms(2) by (simp add: is_flag_arg_def)
  then have "flag_parse nsboxd_flags [Name ct] v = (Ok ([], [Name ct]), v)" for v
    by (simp add: flag_parse_positional ret_def)
  then have "nsboxd_arguments (tl (nsboxd_command nsboxd verbose ct)) = Ok (Name ct)"
    unfolding nsboxd_arguments_def nsboxd_command_def list.sel nsboxd_reads_flag by simp
  then show ?thesis
    using assms(3) getenv_unit[of usrdata dir env] by (simp add: calling_uid_def Let_def)
qed

text \<open>
  A name that begins with a dash is a valid container name, but \<^verbatim>\<open>nsboxd\<close> takes it for
  a flag and exits: the container can be created and never started.
\<close>

lemma nsboxd_rejects_dash:
  "validateName ''-x'' = None \<and> nsboxd_arguments (tl (nsboxd_command nsboxd verbose (ct\<lparr>Name := ''-x''\<rparr>))) = Abort (Exited 2)"
proof
  show "validateName ''-x'' = None" by code_simp
  have "flag_parse nsboxd_flags [''-x''] v = (Err (Msg ''flag provided but not defined: -x''), v)" for v
    by (simp add: flag_parse.simps(2) is_flag_arg_def flag_name_value_def strip_dashes_def nsboxd_flags_def fail_def)
  then show "nsboxd_arguments (tl (nsboxd_command nsboxd verbose (ct\<lparr>Name := ''-x''\<rparr>))) = Abort (Exited 2)"
    unfolding nsboxd_arguments_def nsboxd_command_def list.sel nsboxd_reads_flag by simp
qed

section \<open>Restarting\<close>

lemma startNsboxd_requests:
  assumes "startNsboxd t nsboxd ct usrdata w = (r, w')"
  shows "\<exists>sent. w' = w\<lparr>calls := calls w @ sent\<rparr> \<and> (r = Ok () \<longrightarrow> sent \<noteq> []) \<and> (\<forall>a. r \<noteq> Abort a)"
proof -
  have id: "w = w\<lparr>calls := calls w\<rparr>" by simp
  show ?thesis
    using assms
    by (auto simp: startNsboxd_def check_def Let_def run_simps request_def getXdgRuntimeDir_def of_sum_def
        split: option.splits sum.splits if_splits intro: exI[of _ "[]"])
qed

lemma start_if_unknown_requests:
  assumes "seq (if c then seq (wrap m1 (GetPrivateExecutable b exe n))
      (\<lambda>nsboxd. wrap m2 (startNsboxd t nsboxd ct usrdata)) else ret ()) (\<lambda>_. ret x) w = (r, w')"
  shows "disk w' = disk w \<and> flocks w' = flocks w \<and>
    (\<exists>sent. calls w' = calls w @ sent \<and> (r = Ok x \<longrightarrow> sent = [] \<longleftrightarrow> \<not> c)) \<and> (\<forall>a. r \<noteq> Abort a)"
proof (cases c)
  case True
  obtain re w1 where exe: "GetPrivateExecutable b exe n w = (re, w1)" by fastforce
  have so: "same_os w w1"
  proof -
    have "keeps same_os (GetPrivateExecutable b exe n)"
      unfolding GetPrivateExecutable_def getPathRelativeToInstallRoot_def Let_def
      by (auto intro!: same_os.keeps_all keeps_look)
    from keepsD[OF this exe] show ?thesis .
  qed
  have na: "re \<noteq> Abort a" for a
  proof -
    have "returns (GetPrivateExecutable b exe n)"
      unfolding GetPrivateExecutable_def getPathRelativeToInstallRoot_def Let_def
      by (intro returns_all returns_os returns_lift_res) (auto simp: of_sum_def split: sum.splits)
    then show ?thesis using exe by (auto dest: returnsD)
  qed
  have "calls w1 = calls w" using so by (cases w; cases w1) (simp add: same_os_def)
  note same = same_osD[OF so] this
  show ?thesis
  proof (cases re)
    case (Ok nsboxd)
    obtain rs w2 where st: "startNsboxd t nsboxd ct usrdata w1 = (rs, w2)" by fastforce
    from startNsboxd_requests[OF st] obtain sent where
      s: "w2 = w1\<lparr>calls := calls w1 @ sent\<rparr>" "rs = Ok () \<longrightarrow> sent \<noteq> []" "\<forall>a. rs \<noteq> Abort a" by blast
    show ?thesis
      using assms True exe Ok st s same
      by (cases rs) (auto simp: run_simps)
  qed (use assms True exe same na in \<open>auto simp: run_simps\<close>)
qed (use assms in \<open>auto simp: run_simps\<close>)

text \<open>A restart of a machine that is known is a kill and then, if it is gone, a start.\<close>

lemma restart_run:
  assumes "t_GetMachine t 0 (MachineName ct (ApplyEnvironFilter ct usrdata)) = None" and "u = ApplyEnvironFilter ct usrdata"
    and "unknown \<longleftrightarrow> t_GetMachine t 1 (MachineName ct u) \<noteq> None"
    and "RunContainerViaTransientUnit t b ct True usrdata w = (r, w')"
  obtains e where "r = Err e" "w' = w"
  | sig everyone rk w1 where "KillContainer (t_kill t) u ct sig everyone w = (rk, w1)"
      "case rk of
         Ok _ \<Rightarrow> seq (if unknown then seq (wrap ''cannot locate nsboxd'' (GetPrivateExecutable b (t_exe t) ''nsboxd''))
             (\<lambda>nsboxd. wrap ''cannot start nsboxd'' (startNsboxd t nsboxd ct u)) else ret ()) (\<lambda>_. ret u) w1 = (r, w')
       | Err e \<Rightarrow> r = Err (Wrapped ''killing previous instance'' e) \<and> w' = w1
       | Abort a \<Rightarrow> r = Abort a \<and> w' = w1"
proof (cases "t_systemd t = None \<and> t_machined t = None")
  case False
  then show thesis
    using assms(4) that(1)
    by (auto simp: RunContainerViaTransientUnit_def Let_def check_def run_simps split: option.splits)
next
  case True
  define sig where "sig = (if Boot (Cfg ct) then SigPoweroff else SigKill)"
  obtain rk w1 where k: "KillContainer (t_kill t) u ct sig (\<not> Boot (Cfg ct)) w = (rk, w1)" by fastforce
  have kill: "(if Boot (Cfg ct) then KillContainer (t_kill t) u ct SigPoweroff False
      else KillContainer (t_kill t) u ct SigKill True) = KillContainer (t_kill t) u ct sig (\<not> Boot (Cfg ct))"
    by (simp add: sig_def)
  have "seq (wrap ''killing previous instance'' (KillContainer (t_kill t) u ct sig (\<not> Boot (Cfg ct)))) (\<lambda>_.
      seq (if unknown then
             seq (wrap ''cannot locate nsboxd'' (GetPrivateExecutable b (t_exe t) ''nsboxd'')) (\<lambda>nsboxd.
             wrap ''cannot start nsboxd'' (startNsboxd t nsboxd ct u))
           else ret ()) (\<lambda>_. ret u)) w = (r, w')"
    unfolding kill[symmetric] using assms(4) True assms(1)
    by (simp only: RunContainerViaTransientUnit_def Let_def check_def seq_ret option.case assms(2,3) simp_thms if_True)
  then show thesis
    using that(2)[OF k] k by (cases rk) (auto simp: seq_def[of "wrap ''killing previous instance'' _"] wrap_run)
qed


end
