(* ===== verification/Witnesses_Programs.thy ===== *)
theory Witnesses_Programs
  imports Witnesses Create Transient
begin

text \<open>
  The machine of \<^verbatim>\<open>Witnesses\<close>, used by the programs: killing, starting and creating
  a container.
\<close>

section \<open>Killing and starting\<close>

definition sample_kill :: kill_sys where
  "sample_kill = \<lparr>k_machined = \<lparr>m_New = None, m_Describe = (\<lambda>_. Inl (Msg ''unknown''))\<rparr>,
     k_KillMachine = (\<lambda>_ _. None), k_Signal = (\<lambda>_ _. None)\<rparr>"

theorem KillContainer_waits_witness:
  "case KillContainer sample_kill sample_user sample_ct SigKill True sample_world of
      (Ok _, w') \<Rightarrow> flocks w' = flocks sample_world \<and> (\<exists>req. calls w' = calls sample_world @ [req])
    | (Err _, w') \<Rightarrow> flocks w' = flocks sample_world
    | (Abort a, w') \<Rightarrow> a = Blocked"
proof -
  obtain r w' where w': "KillContainer sample_kill sample_user sample_ct SigKill True sample_world = (r, w')"
    by fastforce
  have l: "lockable sample_ct sample_loc sample_world" by (simp add: sample_lockable sample_world_def)
  show ?thesis using KillContainer_waits[OF l sample_fds_ok(1) w'] w' by (auto split: res.splits)
qed

definition sample_transient :: transient_sys where
  "sample_transient = \<lparr>t_exe = sample_exe, t_verbose = False, t_systemd = None, t_machined = None,
     t_GetMachine = (\<lambda>_ _. None), t_kill = sample_kill, t_journal = (\<lambda>_. None),
     t_StartTransientUnit = (\<lambda>_ _. Inr ''done'')\<rparr>"

theorem nsboxd_reads_unit_witness:
  "nsboxd_arguments (tl (nsboxd_command ''/x/libexec/nsboxd'' True sample_ct)) = Ok ''c'' \<and>
   calling_uid True (nsboxd_environment sample_user ''/run/user/1000'' @ [''LANG=C'']) = ''1000''"
proof -
  have "validateName (Name sample_ct) = None" by code_simp
  from nsboxd_reads_unit[OF this, of sample_user _ _ True "''/run/user/1000''" "[''LANG=C'']"]
  show ?thesis by (simp add: sample_ct_def sample_user_def)
qed


section \<open>Creating\<close>

text \<open>Temporary directories are made in \<^verbatim>\<open>/t\<close>; the unpacking of a tar file is refused.\<close>

definition sample_create :: create_sys where
  "sample_create = \<lparr>cr_TempDir = fail (Msg ''no space''), cr_ParseReference = Inr, cr_Remote = Inr, cr_NewTag = Inr,
     cr_ImageFromPath = (\<lambda>_ t. Inr t), cr_Untar = (\<lambda>_ _. ret ())\<rparr>"

definition tmp_dir :: "string io" where
  "tmp_dir w = (if dir_at (disk w) [''t''] then
      (Ok (path_of [''t'', ''n'']), w\<lparr>disk := fs_put [''t'', ''n''] (dir_node 90) (disk w)\<rparr>)
      else (Err (Msg ''no directory''), w))"

definition tmp_create :: create_sys where
  "tmp_create = sample_create\<lparr>cr_TempDir := tmp_dir\<rparr>"

definition tmp_world :: world where
  "tmp_world = sample_world\<lparr>disk :=
     [([''t''], dir_node 80), ([''v''], dir_node 1), ([''v'', ''nsbox''], dir_node 2), ([''v'', ''nsbox'', ''u''], dir_node 3),
      ([''v'', ''nsbox'', ''u'', ''inventory''], dir_node 4),
      ([''e''], dir_node 30), ([''e'', ''nsbox''], dir_node 31), ([''e'', ''nsbox'', ''images''], dir_node 32),
      ([''e'', ''nsbox'', ''images'', ''i''], dir_node 33),
      ([''e'', ''nsbox'', ''images'', ''i'', ''metadata.json''], file_node 34 (Doc (JObj []))),
      ([''e'', ''nsbox'', ''images'', ''i'', ''playbook.yaml''], file_node 35 (Raw ''x'')),
      ([''x''], dir_node 40), ([''x'', ''share''], dir_node 41), ([''x'', ''share'', ''nsbox''], dir_node 42),
      ([''x'', ''share'', ''nsbox'', ''release''], dir_node 43),
      ([''x'', ''share'', ''nsbox'', ''release'', ''BRANCH''], file_node 44 (Raw ''edge'')),
      ([''x'', ''share'', ''nsbox'', ''release'', ''VERSION''], file_node 45 (Raw ''7''))]\<rparr>"

lemma tmp_create_laws: "tempdirs_in [''t''] tmp_create" "untars_below tmp_create"
  by (auto simp: tempdirs_in_def untars_below_def tmp_create_def tmp_dir_def sample_create_def outside_def plain_def ret_def
      dir_at_def prefix_def dir_node_def is_dir_def solid_iff split: if_splits)

text \<open>The run is evaluated call by call.\<close>

lemma seq_step: "fst (m w) = Ok x \<Longrightarrow> seq m f w = f x (snd (m w))"
  by (cases "m w") (simp add: run_simps)

definition create_open :: "Image_info io" where
  "create_open = wrap ''failed to open image'' (image_Open sample_build sample_exe True (Image sample_config) True)"

definition create_stage :: "Container io" where
  "create_stage = CreateStaged sample_build sample_user ''d'' sample_config"

definition staged_ct :: Container where
  "staged_ct = staged sample_build sample_user ''d'' sample_config"

definition create_fill :: "unit io" where
  "create_fill = saveImageToContainer tmp_create (image_at ''/e/nsbox/images/i'') staged_ct ''/x.tar''"

definition create_default :: "unit io" where
  "create_default = seq (attempt (DefaultContainer sample_build sample_user)) (\<lambda>def.
     if def = Inr None then
       wrap ''failed to set new default container'' (SetDefaultContainer sample_build sample_user ''d'')
     else ret ())"

definition created_1 :: world where
  "created_1 = snd (create_open tmp_world)"

definition created_2 :: world where
  "created_2 = snd (create_stage created_1)"

definition created_3 :: world where
  "created_3 = snd (create_fill created_2)"

definition created_4 :: world where
  "created_4 = snd (Unstage staged_ct created_3)"

lemmas created_defs = created_1_def created_2_def created_3_def created_4_def

lemma created_open: "fst (create_open tmp_world) = Ok (image_at ''/e/nsbox/images/i'')"
  by code_simp

lemma created_stage: "fst (create_stage created_1) = Ok staged_ct"
  by code_simp

lemma created_fill: "fst (create_fill created_2) = Ok ()"
  by code_simp

lemma created_unstage: "fst (Unstage staged_ct created_3) = Ok ()"
  by code_simp

lemma created_default: "fst (create_default created_4) = Ok ()"
  by code_simp

lemmas created_steps = created_open created_stage created_fill created_unstage created_default


end
