(* ===== verification/Flag_Sets.thy ===== *)
theory Flag_Sets
  imports Args
begin

text \<open>
  Go's \<^verbatim>\<open>flag.FlagSet\<close> as a table of flags on a state, \<^verbatim>\<open>Visit\<close>, and the contract
  under which the flags of one process can be handed to another: printing the flags
  that were set and parsing them on a fresh state gives the state back. \<^verbatim>\<open>nsbox\<close>
  relies on it when it runs itself again with more privileges.
\<close>

section \<open>Flag sets\<close>

record 's Flag =
  f_Name :: string
  f_IsBool :: bool
  f_Set :: "string \<Rightarrow> ('s, unit) call"
  f_String :: "'s \<Rightarrow> string"

text \<open>\<^verbatim>\<open>fs.Var\<close> and its relatives: a flag of one field.\<close>

definition flag_Var ::
  "string \<Rightarrow> bool \<Rightarrow> ('s \<Rightarrow> 'v) \<Rightarrow> (('v \<Rightarrow> 'v) \<Rightarrow> 's \<Rightarrow> 's) \<Rightarrow> ('v \<Rightarrow> string) \<Rightarrow> (string \<Rightarrow> ('v, unit) call) \<Rightarrow> 's Flag" where
  "flag_Var name is_bool rd upd str set_to =
     \<lparr>f_Name = name, f_IsBool = is_bool, f_Set = (\<lambda>s. on_field rd (\<lambda>v. upd (\<lambda>_. v)) (set_to s)),
      f_String = (\<lambda>st. str (rd st))\<rparr>"

definition flag_BoolVar :: "string \<Rightarrow> ('s \<Rightarrow> bool) \<Rightarrow> ((bool \<Rightarrow> bool) \<Rightarrow> 's \<Rightarrow> 's) \<Rightarrow> 's Flag" where
  "flag_BoolVar name rd upd = flag_Var name True rd upd show_bool set_bool"

definition flag_StringVar :: "string \<Rightarrow> ('s \<Rightarrow> string) \<Rightarrow> ((string \<Rightarrow> string) \<Rightarrow> 's \<Rightarrow> 's) \<Rightarrow> 's Flag" where
  "flag_StringVar name rd upd = flag_Var name False rd upd (\<lambda>s. s) set_string"

definition flag_lookup :: "'s Flag list \<Rightarrow> string \<Rightarrow> 's flag option" where
  "flag_lookup flags name = map_option (\<lambda>f. (f_IsBool f, f_Set f)) (find (\<lambda>f. f_Name f = name) flags)"

text \<open>\<^verbatim>\<open>Visit\<close> goes over the flags that were set, in the order of their names.\<close>

definition flag_Visit :: "'s Flag list \<Rightarrow> string list \<Rightarrow> 's Flag list" where
  "flag_Visit flags actual = filter (\<lambda>f. f_Name f \<in> set actual) (sort_key f_Name flags)"

text \<open>\<^verbatim>\<open>fmt.Sprintf("-%s=%s", f.Name, f.Value.String())\<close>\<close>

definition flag_assign :: "'s \<Rightarrow> 's Flag \<Rightarrow> string" where
  "flag_assign s f = CHR ''-'' # f_Name f @ CHR ''='' # f_String f s"

lemma set_flag_Visit: "set (flag_Visit flags actual) = {f \<in> set flags. f_Name f \<in> set actual}"
  by (auto simp: flag_Visit_def)

lemma flag_Var_simps [simp]:
  "f_Name (flag_Var n b rd upd str st) = n"
  "f_String (flag_Var n b rd upd str st) s = str (rd s)"
  "f_Set (flag_Var n b rd upd str st) v s = (case st v (rd s) of (r, x) \<Rightarrow> (r, upd (\<lambda>_. x) s))"
  by (simp_all add: flag_Var_def on_field_def)

lemmas flag_vars = flag_BoolVar_def flag_StringVar_def

lemma find_name: "distinct (map f_Name flags) \<Longrightarrow> f \<in> set flags \<Longrightarrow> find (\<lambda>g. f_Name g = f_Name f) flags = Some f"
  by (induction flags) (auto simp: image_iff)

lemma flag_lookup_Some:
  "flag_lookup flags name = Some (b, upd) \<Longrightarrow> \<exists>f\<in>set flags. f_Name f = name \<and> b = f_IsBool f \<and> upd = f_Set f"
  by (auto simp: flag_lookup_def find_Some_iff)

text \<open>A run that sets a flag.\<close>

lemma flag_parse_set:
  assumes "flag_parse lookup (a # rest) s = (Ok (names, pos), s')" and "is_flag_arg a" and "a \<noteq> ''--''"
  obtains name b upd v rest' s1 names' where "lookup name = Some (b, upd)" and "length rest' \<le> length rest"
    and "upd v s = (Ok (), s1)" and "flag_parse lookup rest' s1 = (Ok (names', pos), s')" and "names = name # names'"
proof -
  obtain name val where n: "flag_name_value (strip_dashes a) = Some (name, val)"
    using assms by (auto simp: flag_parse.simps(2) fail_def split: option.splits)
  obtain b upd where l: "lookup name = Some (b, upd)"
    using assms n by (auto simp: flag_parse.simps(2) fail_def split: option.splits)
  obtain v rest' where v: "flag_argument b val rest = Some (v, rest')"
    using assms n l by (auto simp: flag_parse.simps(2) fail_def split: option.splits)
  have "seq (upd v) (\<lambda>_. seq (flag_parse lookup rest') (\<lambda>(names, pos). ret (name # names, pos))) s = (Ok (names, pos), s')"
    using assms n l v by (simp add: flag_parse.simps(2))
  then obtain s1 names' where "upd v s = (Ok (), s1)" "flag_parse lookup rest' s1 = (Ok (names', pos), s')" "names = name # names'"
    by (auto simp: run_simps split: prod.splits res.splits)
  moreover have "length rest' \<le> length rest"
    using v by (auto simp: flag_argument_def split: option.splits if_splits list.splits)
  ultimately show ?thesis using that l by blast
qed

lemma flag_parse_keeps:
  assumes "\<And>f v s s'. f \<in> set flags \<Longrightarrow> P s \<Longrightarrow> f_Set f v s = (Ok (), s') \<Longrightarrow> P s'"
  shows "flag_parse (flag_lookup flags) args s = (Ok (names, pos), s') \<Longrightarrow> P s \<Longrightarrow> P s'"
proof (induction "length args" arbitrary: args s names rule: less_induct)
  case less
  show ?case
  proof (cases "\<exists>a rest. args = a # rest \<and> is_flag_arg a \<and> a \<noteq> ''--''")
    case True
    then obtain a rest where a: "args = a # rest" "is_flag_arg a" "a \<noteq> ''--''" by blast
    obtain name b upd v rest' s1 names' where
      l: "flag_lookup flags name = Some (b, upd)" "length rest' \<le> length rest"
      and run: "upd v s = (Ok (), s1)" "flag_parse (flag_lookup flags) rest' s1 = (Ok (names', pos), s')"
      using flag_parse_set less.prems(1) a by metis
    have "P s1" using flag_lookup_Some[OF l(1)] assms less.prems(2) run(1) by blast
    then show ?thesis using less.hyps[OF _ run(2)] l(2) a(1) by simp
  next
    case False
    then have "s' = s"
      using less.prems(1) by (cases args) (auto simp: flag_parse.simps(2) ret_def split: if_splits)
    then show ?thesis using less.prems(2) by simp
  qed
qed

section \<open>Forwarding\<close>

text \<open>
  \<open>start\<close>: the states a process begins with. \<open>inv\<close>: what setting flags maintains.
  A flag's printed form, set on a state where the flag is as at the start or already as
  printed, makes it so; it changes no other flag; and the flags together determine the
  state.
\<close>

locale forwarding =
  fixes flags :: "'s Flag list" and start :: "'s \<Rightarrow> bool" and inv :: "'s \<Rightarrow> bool"
  assumes distinct_names: "distinct (map f_Name flags)"
    and words: "f \<in> set flags \<Longrightarrow> flag_word (f_Name f)"
    and start_inv: "start s \<Longrightarrow> inv s"
    and inv_set: "f \<in> set flags \<Longrightarrow> inv s \<Longrightarrow> f_Set f v s = (Ok (), s') \<Longrightarrow> inv s'"
    and set_other: "f \<in> set flags \<Longrightarrow> g \<in> set flags \<Longrightarrow> f_Name g \<noteq> f_Name f \<Longrightarrow>
      f_Set f v s = (Ok (), s') \<Longrightarrow> f_String g s' = f_String g s"
    and set_own: "f \<in> set flags \<Longrightarrow> inv s \<Longrightarrow> inv t \<Longrightarrow>
      f_String f t = f_String f s \<or> (\<exists>t0. start t0 \<and> f_String f t = f_String f t0) \<Longrightarrow>
      \<exists>t'. f_Set f (f_String f s) t = (Ok (), t') \<and> f_String f t' = f_String f s"
    and determined: "inv s \<Longrightarrow> inv t \<Longrightarrow> (\<And>f. f \<in> set flags \<Longrightarrow> f_String f s = f_String f t) \<Longrightarrow> s = t"
begin

lemma lookup_flag: "f \<in> set flags \<Longrightarrow> flag_lookup flags (f_Name f) = Some (f_IsBool f, f_Set f)"
  by (simp add: flag_lookup_def find_name distinct_names)

lemma set_flag_frame:
  assumes "f \<in> set flags" and "inv s" and "f_Set f v s = (Ok (), s')"
  shows "inv s'" "g \<in> set flags \<Longrightarrow> f_Name g \<noteq> f_Name f \<Longrightarrow> f_String g s' = f_String g s"
  using inv_set set_other assms by blast+

text \<open>Parsing keeps the invariant and changes only the flags it reports.\<close>

lemma parse_frame:
  "flag_parse (flag_lookup flags) args s = (Ok (names, pos), s') \<Longrightarrow> inv s \<Longrightarrow>
     inv s' \<and> set names \<subseteq> f_Name ` set flags \<and>
     (\<forall>g\<in>set flags. f_Name g \<notin> set names \<longrightarrow> f_String g s' = f_String g s)"
proof (induction "length args" arbitrary: args s names rule: less_induct)
  case less
  show ?case
  proof (cases args)
    case (Cons a rest)
    show ?thesis
    proof (cases "is_flag_arg a \<and> a \<noteq> ''--''")
      case True
      then obtain name b upd v rest' s1 names' where
        l: "flag_lookup flags name = Some (b, upd)" "length rest' \<le> length rest"
        and run: "upd v s = (Ok (), s1)" "flag_parse (flag_lookup flags) rest' s1 = (Ok (names', pos), s')"
          "names = name # names'"
        using flag_parse_set less.prems(1) unfolding Cons by metis
      from flag_lookup_Some[OF l(1)] obtain f where f: "f \<in> set flags" "f_Name f = name" "f_Set f v s = (Ok (), s1)"
        using run(1) by blast
      note fr = set_flag_frame[OF f(1) less.prems(2) f(3)]
      have "length rest' < length args" using l(2) Cons by simp
      from less.hyps[OF this run(2) fr(1)] show ?thesis
        using fr(2) f run(3) by (auto simp: image_iff)
    next
      case False
      then have "s' = s \<and> names = []"
        using less.prems(1) unfolding Cons flag_parse.simps(2) by (auto simp: ret_def split: if_splits)
      then show ?thesis using less.prems(2) by simp
    qed
  qed (use less.prems in \<open>simp add: ret_def\<close>)
qed

text \<open>
  Whatever state was reached is reached again: \<open>fwd\<close> may list flags twice, but names
  every flag in which the fresh state \<open>t\<close> differs.
\<close>

lemma forward:
  assumes "inv s" and "inv t" and "set fwd \<subseteq> set flags"
    and "\<And>f. f \<in> set flags \<Longrightarrow> f_String f t = f_String f s \<or>
      f \<in> set fwd \<and> (\<exists>t0. start t0 \<and> f_String f t = f_String f t0)"
  shows "flag_parse (flag_lookup flags) (map (flag_assign s) fwd @ ''--'' # pos) t =
    (Ok (map f_Name fwd, pos), s)"
  using assms(2-)
proof (induction fwd arbitrary: t)
  case Nil
  then have "t = s" using determined[OF Nil.prems(1) assms(1)] by simp
  then show ?case by (simp add: flag_parse_dashes ret_def)
next
  case (Cons f fwd)
  have f: "f \<in> set flags" using Cons.prems(2) by simp
  from set_own[OF f assms(1) Cons.prems(1)] obtain t' where
    t': "f_Set f (f_String f s) t = (Ok (), t')" "f_String f t' = f_String f s"
    using Cons.prems(3)[OF f] by blast
  note fr = set_flag_frame[OF f Cons.prems(1) t'(1)]
  have "flag_parse (flag_lookup flags) (map (flag_assign s) fwd @ ''--'' # pos) t' = (Ok (map f_Name fwd, pos), s)"
  proof (rule Cons.IH[OF fr(1)])
    show "set fwd \<subseteq> set flags" using Cons.prems(2) by simp
    fix g assume g: "g \<in> set flags"
    show "f_String g t' = f_String g s \<or> g \<in> set fwd \<and> (\<exists>t0. start t0 \<and> f_String g t' = f_String g t0)"
    proof (cases "f_Name g = f_Name f")
      case True
      then have "g = f" using f g distinct_names by (metis eq_key_imp_eq_value find_name option.inject)
      then show ?thesis using t'(2) by simp
    next
      case False
      then show ?thesis using Cons.prems(3)[OF g] fr(2)[OF g] by auto
    qed
  qed
  moreover have "flag_parse (flag_lookup flags) (flag_assign s f # args) =
      seq (f_Set f (f_String f s)) (\<lambda>_. seq (flag_parse (flag_lookup flags) args) (\<lambda>(names, pos). ret (f_Name f # names, pos)))" for args
    unfolding flag_assign_def by (rule flag_parse_assign) (rule words[OF f] lookup_flag[OF f])+
  ultimately show ?case using t'(1) by (simp add: run_simps)
qed

end

section \<open>Two flag sets in one\<close>

definition lift_flag :: "('t \<Rightarrow> 's) \<Rightarrow> ('s \<Rightarrow> 't \<Rightarrow> 't) \<Rightarrow> 's Flag \<Rightarrow> 't Flag" where
  "lift_flag rd wr f = \<lparr>f_Name = f_Name f, f_IsBool = f_IsBool f,
     f_Set = (\<lambda>v. on_field rd wr (f_Set f v)), f_String = (\<lambda>t. f_String f (rd t))\<rparr>"

lemma lift_flag_simps [simp]:
  "f_Name (lift_flag rd wr f) = f_Name f"
  "f_String (lift_flag rd wr f) t = f_String f (rd t)"
  "f_Set (lift_flag rd wr f) v t = (case f_Set f v (rd t) of (r, x) \<Rightarrow> (r, wr x t))"
  by (simp_all add: lift_flag_def on_field_def)

definition left_flags :: "'a Flag list \<Rightarrow> ('a \<times> 'c) Flag list" where
  "left_flags = map (lift_flag fst (\<lambda>x (a, c). (x, c)))"

definition right_flags :: "('c \<Rightarrow> 'd) \<Rightarrow> ('d \<Rightarrow> 'c) \<Rightarrow> 'c Flag list \<Rightarrow> ('a \<times> 'd) Flag list" where
  "right_flags con proj = map (lift_flag (\<lambda>(a, d). proj d) (\<lambda>x (a, d). (a, con x)))"

definition both_flags :: "'a Flag list \<Rightarrow> ('c \<Rightarrow> 'd) \<Rightarrow> ('d \<Rightarrow> 'c) \<Rightarrow> 'c Flag list \<Rightarrow> ('a \<times> 'd) Flag list" where
  "both_flags A con proj B = left_flags A @ right_flags con proj B"

text \<open>
  The flags of the program and those of one of its commands: the command's state sits
  in the sum of all commands' states, at the constructor \<open>con\<close>.
\<close>

locale forwarding_pair =
  left: forwarding A startA invA + right: forwarding B startB invB
  for A :: "'a Flag list" and startA invA and B :: "'c Flag list" and startB invB +
  fixes con :: "'c \<Rightarrow> 'd" and proj :: "'d \<Rightarrow> 'c"
  assumes proj_con: "proj (con x) = x"
    and disjoint: "f \<in> set A \<Longrightarrow> g \<in> set B \<Longrightarrow> f_Name f \<noteq> f_Name g"

sublocale forwarding_pair \<subseteq> forwarding "both_flags A con proj B"
  "\<lambda>(a, d). startA a \<and> (\<exists>c. d = con c \<and> startB c)" "\<lambda>(a, d). invA a \<and> (\<exists>c. d = con c \<and> invB c)"
proof unfold_locales
  let ?F = "both_flags A con proj B" and ?start = "\<lambda>(a, d). startA a \<and> (\<exists>c. d = con c \<and> startB c)"
    and ?inv = "\<lambda>(a, d). invA a \<and> (\<exists>c. d = con c \<and> invB c)"
  have flag: "(\<exists>g\<in>set A. f = lift_flag fst (\<lambda>x (a, c). (x, c)) g) \<or>
      (\<exists>g\<in>set B. f = lift_flag (\<lambda>(a, d). proj d) (\<lambda>x (a, d). (a, con x)) g)" if "f \<in> set ?F" for f
    using that by (auto simp: both_flags_def left_flags_def right_flags_def)
  show "distinct (map f_Name ?F)"
    using left.distinct_names right.distinct_names disjoint
    by (auto simp: both_flags_def left_flags_def right_flags_def comp_def)
  show "flag_word (f_Name f)" if "f \<in> set ?F" for f
    using flag[OF that] left.words right.words by auto
  show "?inv s" if "?start s" for s
    using that left.start_inv right.start_inv by auto
  show "?inv s'" if "f \<in> set ?F" "?inv s" "f_Set f v s = (Ok (), s')" for f v s s'
    using flag[OF that(1)] that(2,3) left.inv_set right.inv_set
    by (fastforce simp: proj_con split: prod.splits)
  show "f_String g s' = f_String g s"
    if "f \<in> set ?F" "g \<in> set ?F" "f_Name g \<noteq> f_Name f" "f_Set f v s = (Ok (), s')" for f g v s s'
    using flag[OF that(1)] flag[OF that(2)] that(3,4) left.set_other right.set_other
    by (fastforce simp: proj_con split: prod.splits)
  show "\<exists>t'. f_Set f (f_String f s) t = (Ok (), t') \<and> f_String f t' = f_String f s"
    if f: "f \<in> set ?F" and i: "?inv s" "?inv t"
      and e: "f_String f t = f_String f s \<or> (\<exists>t0. ?start t0 \<and> f_String f t = f_String f t0)" for f s t
    using flag[OF f]
  proof
    assume "\<exists>g\<in>set A. f = lift_flag fst (\<lambda>x (a, c). (x, c)) g"
    then obtain g where g: "g \<in> set A" "f = lift_flag fst (\<lambda>x (a, c). (x, c)) g" by blast
    have "\<exists>t'. f_Set g (f_String g (fst s)) (fst t) = (Ok (), t') \<and> f_String g t' = f_String g (fst s)"
      by (rule left.set_own[OF g(1)]) (use i e g(2) in auto)
    then show ?thesis using g(2) by (auto split: prod.splits)
  next
    assume "\<exists>g\<in>set B. f = lift_flag (\<lambda>(a, d). proj d) (\<lambda>x (a, d). (a, con x)) g"
    then obtain g where g: "g \<in> set B" "f = lift_flag (\<lambda>(a, d). proj d) (\<lambda>x (a, d). (a, con x)) g" by blast
    obtain a1 c1 a2 c2 where st: "s = (a1, con c1)" "t = (a2, con c2)" "invB c1" "invB c2" using i by auto
    have "\<exists>t'. f_Set g (f_String g c1) c2 = (Ok (), t') \<and> f_String g t' = f_String g c1"
      by (rule right.set_own[OF g(1)]) (use st e g(2) in \<open>auto simp: proj_con\<close>)
    then show ?thesis using g(2) st by (auto simp: proj_con)
  qed
  show "s = t" if i: "?inv s" "?inv t" and e: "\<And>f. f \<in> set ?F \<Longrightarrow> f_String f s = f_String f t" for s t
  proof -
    obtain a1 c1 a2 c2 where st: "s = (a1, con c1)" "t = (a2, con c2)" "invA a1" "invA a2" "invB c1" "invB c2"
      using i by auto
    have "f_String f a1 = f_String f a2" if "f \<in> set A" for f
      using e[of "lift_flag fst (\<lambda>x (a, c). (x, c)) f"] that st by (simp add: both_flags_def left_flags_def)
    then have "a1 = a2" using left.determined st by blast
    moreover have "f_String f c1 = f_String f c2" if "f \<in> set B" for f
      using e[of "lift_flag (\<lambda>(a, d). proj d) (\<lambda>x (a, d). (a, con x)) f"] that st
      by (simp add: both_flags_def right_flags_def proj_con)
    then have "c1 = c2" using right.determined st by blast
    ultimately show ?thesis using st by simp
  qed
qed

end
