(* ===== verification/Command_Line.thy ===== *)
theory Command_Line
  imports Flag_Sets Container Kill
begin

text \<open>
  The command line of \<^verbatim>\<open>nsbox\<close>: the state of the program and of each of its commands
  (\<^verbatim>\<open>cmd/nsbox\<close>), their flags, and their positional arguments.
\<close>

section \<open>The program\<close>

text \<open>
  \<^verbatim>\<open>nsboxApp\<close>; the \<^verbatim>\<open>-v\<close> flag is bound to the variable of package \<^verbatim>\<open>log\<close>. The user's
  data, which no flag changes, is passed separately.
\<close>

record nsboxApp =
  verbose :: bool
  app_sudo :: bool
  workdir :: string

definition log_SetFlags :: "nsboxApp Flag list" where
  "log_SetFlags = [flag_BoolVar ''v'' verbose verbose_update]"

definition SetGlobalFlags :: "build \<Rightarrow> nsboxApp Flag list" where
  "SetGlobalFlags b =
     (if EnableSudo b then [flag_BoolVar ''sudo'' app_sudo app_sudo_update] else []) @
     [flag_StringVar ''workdir'' workdir workdir_update]"

definition setGlobalFlags :: "build \<Rightarrow> nsboxApp Flag list" where
  "setGlobalFlags b = log_SetFlags @ SetGlobalFlags b"

definition initial_app :: "string \<Rightarrow> nsboxApp" where
  "initial_app dir = \<lparr>verbose = False, app_sudo = False, workdir = dir\<rparr>"

definition app_start :: "nsboxApp \<Rightarrow> bool" where
  "app_start a \<longleftrightarrow> a = initial_app (workdir a)"

definition app_inv :: "build \<Rightarrow> nsboxApp \<Rightarrow> bool" where
  "app_inv b a \<longleftrightarrow> (\<not> EnableSudo b \<longrightarrow> \<not> app_sudo a)"

lemmas flag_value_runs = set_bool_def set_string_def parse_bool_def show_bool_def

lemma set_bool_show [simp]: "set_bool (show_bool b) u = (Ok (), b)"
  by (simp add: flag_value_runs)

lemma set_string_run [simp]: "set_string s u = (Ok (), s)"
  by (simp add: set_string_def)

lemma show_bool_inj [simp]: "show_bool a = show_bool b \<longleftrightarrow> a = b"
  by (simp add: show_bool_def)

lemma set_bool_field: "(case set_bool v x of (r, y) \<Rightarrow> (r, upd y)) = (Ok (), s') \<Longrightarrow> \<exists>y. s' = upd y"
  by (auto split: prod.splits)

lemmas app_flags = setGlobalFlags_def log_SetFlags_def SetGlobalFlags_def flag_vars

interpretation app: forwarding "setGlobalFlags b" app_start "app_inv b" for b
proof unfold_locales
  show "distinct (map f_Name (setGlobalFlags b))" by (simp add: app_flags)
  show "flag_word (f_Name f)" if "f \<in> set (setGlobalFlags b)" for f
    using that by (auto simp: app_flags flag_word_def split: if_splits)
  show "app_inv b s" if "app_start s" for s
    using that by (cases s) (simp add: app_start_def app_inv_def initial_app_def)
  show "app_inv b s'" if "f \<in> set (setGlobalFlags b)" "app_inv b s" "f_Set f v s = (Ok (), s')" for f v s s'
    using that by (auto simp: app_flags app_inv_def split: if_splits prod.splits)
  show "f_String g s' = f_String g s"
    if "f \<in> set (setGlobalFlags b)" "g \<in> set (setGlobalFlags b)" "f_Name g \<noteq> f_Name f" "f_Set f v s = (Ok (), s')" for f g v s s'
    using that by (auto simp: app_flags split: if_splits prod.splits)
  show "\<exists>t'. f_Set f (f_String f s) t = (Ok (), t') \<and> f_String f t' = f_String f s"
    if "f \<in> set (setGlobalFlags b)" for f s t
    using that by (auto simp: app_flags split: if_splits)
  show "s = t" if "app_inv b s" "app_inv b t" "\<And>f. f \<in> set (setGlobalFlags b) \<Longrightarrow> f_String f s = f_String f t" for s t
    using that(1,2) that(3)[of "flag_BoolVar ''v'' verbose verbose_update"]
      that(3)[of "flag_BoolVar ''sudo'' app_sudo app_sudo_update"]
      that(3)[of "flag_StringVar ''workdir'' workdir workdir_update"]
    by (cases s; cases t; cases "EnableSudo b") (auto simp: app_flags app_inv_def)
qed

section \<open>The commands\<close>

record configCommand =
  config_name :: string
  extraBindMounts :: ArrayTransformValue
  extraCapabilities :: ArrayTransformValue
  cc_privateDirs :: ArrayTransformValue
  cc_shareDevices :: ArrayTransformValue
  cc_syscallFilters :: ArrayTransformValue
  cc_xdgDesktopExtra :: ArrayTransformValue
  cc_xdgDesktopExports :: ArrayTransformValue
  cc_auth :: Auth
  cc_shareCgroupfs :: bool
  cc_virtualNetwork :: bool

record createCommand =
  create_image :: string
  create_name :: string
  create_tar :: string
  create_boot :: bool

record deleteCommand =
  delete_name :: string
  delete_yes :: bool

record imagesCommand =
  images_patterns :: "string list"

record infoCommand =
  info_name :: string

record killCommand =
  kill_container :: string
  kill_signal :: Signal
  kill_all :: bool

record listCommand =
  list_patterns :: "string list"

record renameCommand =
  rename_current :: string
  rename_new :: string

record runCommand =
  run_container :: string
  run_restart :: bool
  run_noReplay :: bool
  run_command :: "string list"

record setDefaultCommand =
  newDefault :: string

datatype command =
    Config_cmd configCommand
  | Create_cmd createCommand
  | Delete_cmd deleteCommand
  | Images_cmd imagesCommand
  | Info_cmd infoCommand
  | Kill_cmd killCommand
  | List_cmd listCommand
  | Rename_cmd renameCommand
  | Run_cmd runCommand
  | SetDefault_cmd setDefaultCommand
  | Version_cmd

fun command_Name :: "command \<Rightarrow> string" where
  "command_Name (Config_cmd _) = ''config''"
| "command_Name (Create_cmd _) = ''create''"
| "command_Name (Delete_cmd _) = ''delete''"
| "command_Name (Images_cmd _) = ''images''"
| "command_Name (Info_cmd _) = ''info''"
| "command_Name (Kill_cmd _) = ''kill''"
| "command_Name (List_cmd _) = ''list''"
| "command_Name (Rename_cmd _) = ''rename''"
| "command_Name (Run_cmd _) = ''run''"
| "command_Name (SetDefault_cmd _) = ''set-default''"
| "command_Name Version_cmd = ''version''"

text \<open>The commands as \<^verbatim>\<open>main\<close> registers them.\<close>

definition new_config :: configCommand where
  "new_config = \<lparr>config_name = '''', extraBindMounts = atv_zero, extraCapabilities = atv_zero,
     cc_privateDirs = atv_zero, cc_shareDevices = atv_zero, cc_syscallFilters = atv_zero,
     cc_xdgDesktopExtra = atv_zero, cc_xdgDesktopExports = atv_zero, cc_auth = AuthAuto,
     cc_shareCgroupfs = False, cc_virtualNetwork = False\<rparr>"

definition new_create :: createCommand where
  "new_create = \<lparr>create_image = '''', create_name = '''', create_tar = '''', create_boot = False\<rparr>"

definition new_delete :: deleteCommand where
  "new_delete = \<lparr>delete_name = '''', delete_yes = False\<rparr>"

definition new_kill :: killCommand where
  "new_kill = \<lparr>kill_container = '''', kill_signal = SigPoweroff, kill_all = False\<rparr>"

definition new_run :: runCommand where
  "new_run = \<lparr>run_container = '''', run_restart = False, run_noReplay = False, run_command = []\<rparr>"

definition registered :: "command list" where
  "registered = [Config_cmd new_config, Create_cmd new_create, Delete_cmd new_delete,
     Images_cmd \<lparr>images_patterns = []\<rparr>, Info_cmd \<lparr>info_name = ''''\<rparr>, Kill_cmd new_kill,
     List_cmd \<lparr>list_patterns = []\<rparr>, Rename_cmd \<lparr>rename_current = '''', rename_new = ''''\<rparr>,
     Run_cmd new_run, SetDefault_cmd \<lparr>newDefault = ''''\<rparr>, Version_cmd]"

section \<open>Their flags\<close>

definition flag_ArrayVar ::
  "string \<Rightarrow> ('s \<Rightarrow> ArrayTransformValue) \<Rightarrow> ((ArrayTransformValue \<Rightarrow> ArrayTransformValue) \<Rightarrow> 's \<Rightarrow> 's) \<Rightarrow> 's Flag" where
  "flag_ArrayVar name rd upd = flag_Var name False rd upd atv_String atv_Set"

definition config_SetFlags :: "configCommand Flag list" where
  "config_SetFlags =
     [flag_BoolVar ''share-cgroupfs'' cc_shareCgroupfs cc_shareCgroupfs_update,
      flag_BoolVar ''virtual-network'' cc_virtualNetwork cc_virtualNetwork_update,
      flag_Var ''auth'' False cc_auth cc_auth_update auth_String auth_Set,
      flag_ArrayVar ''extra-bind-mounts'' extraBindMounts extraBindMounts_update,
      flag_ArrayVar ''extra-capabilities'' extraCapabilities extraCapabilities_update,
      flag_ArrayVar ''private-dirs'' cc_privateDirs cc_privateDirs_update,
      flag_ArrayVar ''share-devices'' cc_shareDevices cc_shareDevices_update,
      flag_ArrayVar ''syscall-filters'' cc_syscallFilters cc_syscallFilters_update,
      flag_ArrayVar ''xdg-desktop-extra'' cc_xdgDesktopExtra cc_xdgDesktopExtra_update,
      flag_ArrayVar ''xdg-desktop-exports'' cc_xdgDesktopExports cc_xdgDesktopExports_update]"

definition create_SetFlags :: "createCommand Flag list" where
  "create_SetFlags =
     [flag_StringVar ''tar'' create_tar create_tar_update,
      flag_BoolVar ''boot'' create_boot create_boot_update]"

definition delete_SetFlags :: "deleteCommand Flag list" where
  "delete_SetFlags = [flag_BoolVar ''y'' delete_yes delete_yes_update]"

definition kill_SetFlags :: "killCommand Flag list" where
  "kill_SetFlags =
     [flag_Var ''signal'' False kill_signal kill_signal_update sig_String sig_Set,
      flag_BoolVar ''all'' kill_all kill_all_update]"

definition run_SetFlags :: "runCommand Flag list" where
  "run_SetFlags =
     [flag_BoolVar ''restart'' run_restart run_restart_update,
      flag_BoolVar ''no-replay'' run_noReplay run_noReplay_update]"

text \<open>
  The flag set of a command holds the program's flags beside its own; setting one
  changes the program's state or the command's.
\<close>

fun the_config :: "command \<Rightarrow> configCommand" where
  "the_config (Config_cmd c) = c" | "the_config _ = new_config"

fun the_create :: "command \<Rightarrow> createCommand" where
  "the_create (Create_cmd c) = c" | "the_create _ = new_create"

fun the_delete :: "command \<Rightarrow> deleteCommand" where
  "the_delete (Delete_cmd c) = c" | "the_delete _ = new_delete"

fun the_kill :: "command \<Rightarrow> killCommand" where
  "the_kill (Kill_cmd c) = c" | "the_kill _ = new_kill"

fun the_run :: "command \<Rightarrow> runCommand" where
  "the_run (Run_cmd c) = c" | "the_run _ = new_run"

fun wrapper_SetFlags :: "build \<Rightarrow> command \<Rightarrow> (nsboxApp \<times> command) Flag list" where
  "wrapper_SetFlags b (Config_cmd _) = both_flags (setGlobalFlags b) Config_cmd the_config config_SetFlags"
| "wrapper_SetFlags b (Create_cmd _) = both_flags (setGlobalFlags b) Create_cmd the_create create_SetFlags"
| "wrapper_SetFlags b (Delete_cmd _) = both_flags (setGlobalFlags b) Delete_cmd the_delete delete_SetFlags"
| "wrapper_SetFlags b (Kill_cmd _) = both_flags (setGlobalFlags b) Kill_cmd the_kill kill_SetFlags"
| "wrapper_SetFlags b (Run_cmd _) = both_flags (setGlobalFlags b) Run_cmd the_run run_SetFlags"
| "wrapper_SetFlags b cmd = both_flags (setGlobalFlags b) (\<lambda>c. c) (\<lambda>c. c) []"

section \<open>Their positional arguments\<close>

definition expect1 :: "string list \<Rightarrow> (string \<Rightarrow> command) \<Rightarrow> err + command" where
  "expect1 args f = (case ExpectArgs 1 args of Inl e \<Rightarrow> Inl e | Inr xs \<Rightarrow> Inr (f (xs ! 0)))"

definition expect2 :: "string list \<Rightarrow> (string \<Rightarrow> string \<Rightarrow> command) \<Rightarrow> err + command" where
  "expect2 args f = (case ExpectArgs 2 args of Inl e \<Rightarrow> Inl e | Inr xs \<Rightarrow> Inr (f (xs ! 0) (xs ! 1)))"

definition config_ParsePositional :: "configCommand \<Rightarrow> string list \<Rightarrow> err + command" where
  [simp]: "config_ParsePositional c args = expect1 args (\<lambda>n. Config_cmd (c\<lparr>config_name := n\<rparr>))"

definition create_ParsePositional :: "createCommand \<Rightarrow> string list \<Rightarrow> err + command" where
  [simp]: "create_ParsePositional c args =
     expect2 args (\<lambda>i n. Create_cmd (c\<lparr>create_image := i, create_name := n\<rparr>))"

definition delete_ParsePositional :: "deleteCommand \<Rightarrow> string list \<Rightarrow> err + command" where
  [simp]: "delete_ParsePositional c args = expect1 args (\<lambda>n. Delete_cmd (c\<lparr>delete_name := n\<rparr>))"

definition images_ParsePositional :: "imagesCommand \<Rightarrow> string list \<Rightarrow> err + command" where
  [simp]: "images_ParsePositional c args = Inr (Images_cmd (c\<lparr>images_patterns := args\<rparr>))"

definition info_ParsePositional :: "infoCommand \<Rightarrow> string list \<Rightarrow> err + command" where
  [simp]: "info_ParsePositional c args = expect1 args (\<lambda>n. Info_cmd (c\<lparr>info_name := n\<rparr>))"

definition kill_ParsePositional :: "killCommand \<Rightarrow> string list \<Rightarrow> err + command" where
  [simp]: "kill_ParsePositional c args = expect1 args (\<lambda>n. Kill_cmd (c\<lparr>kill_container := n\<rparr>))"

definition list_ParsePositional :: "listCommand \<Rightarrow> string list \<Rightarrow> err + command" where
  [simp]: "list_ParsePositional c args = Inr (List_cmd (c\<lparr>list_patterns := args\<rparr>))"

definition rename_ParsePositional :: "renameCommand \<Rightarrow> string list \<Rightarrow> err + command" where
  [simp]: "rename_ParsePositional c args =
     expect2 args (\<lambda>cur n. Rename_cmd (c\<lparr>rename_current := cur, rename_new := n\<rparr>))"

definition run_ParsePositional :: "runCommand \<Rightarrow> string list \<Rightarrow> err + command" where
  [simp]: "run_ParsePositional c args =
     Inr (Run_cmd (case args of [] \<Rightarrow> c | n # rest \<Rightarrow> c\<lparr>run_container := n, run_command := rest\<rparr>))"

definition set_default_ParsePositional :: "setDefaultCommand \<Rightarrow> string list \<Rightarrow> err + command" where
  [simp]: "set_default_ParsePositional c args = expect1 args (\<lambda>n. SetDefault_cmd (c\<lparr>newDefault := n\<rparr>))"

fun command_ParsePositional :: "command \<Rightarrow> string list \<Rightarrow> err + command" where
  "command_ParsePositional (Config_cmd c) args = config_ParsePositional c args"
| "command_ParsePositional (Create_cmd c) args = create_ParsePositional c args"
| "command_ParsePositional (Delete_cmd c) args = delete_ParsePositional c args"
| "command_ParsePositional (Images_cmd c) args = images_ParsePositional c args"
| "command_ParsePositional (Info_cmd c) args = info_ParsePositional c args"
| "command_ParsePositional (Kill_cmd c) args = kill_ParsePositional c args"
| "command_ParsePositional (List_cmd c) args = list_ParsePositional c args"
| "command_ParsePositional (Rename_cmd c) args = rename_ParsePositional c args"
| "command_ParsePositional (Run_cmd c) args = run_ParsePositional c args"
| "command_ParsePositional (SetDefault_cmd c) args = set_default_ParsePositional c args"
| "command_ParsePositional Version_cmd args = Inr Version_cmd"

section \<open>The flags of each command forward\<close>

lemma atv_set_back:
  assumes "atv_valid s" and "atv_valid t"
    and "atv_String t = atv_String s \<or> atv_String t = atv_String atv_zero"
  shows "atv_Set (atv_String s) t = (Ok (), s)"
proof -
  have "t = s \<or> t = atv_zero"
    using assms atv.str_inj atv.valid_fresh by blast
  then show ?thesis
  proof
    assume "t = s"
    then show ?thesis
      using atv.set_str[OF assms(1)]
      by (cases s) (auto simp: atv_Set_def atv_String_def Let_def atv_zero_def split: if_splits)
  qed (simp add: atv.set_str[OF assms(1)])
qed

lemma auth_set_back [simp]: "auth_Set (auth_String a) t = (Ok (), a)"
  using auth.set_str[of a] by (auto simp: auth_Set_def split: option.splits)

lemma sig_set_back [simp]: "sig_Set (sig_String a) t = (Ok (), a)"
  using sig.set_str[of a] by (auto simp: sig_Set_def split: option.splits)

lemma auth_String_inj: "auth_String a = auth_String b \<Longrightarrow> a = b"
  using auth.str_inj by simp

lemma sig_String_inj: "sig_String a = sig_String b \<Longrightarrow> a = b"
  using sig.str_inj by simp

lemma split_pair_run: "(case p of (r, x) \<Rightarrow> (r, g x)) = (Ok (), s') \<longleftrightarrow> fst p = Ok () \<and> s' = g (snd p)"
  by (cases p) auto

lemma atv_valid_snd: "atv_valid v \<Longrightarrow> atv_valid (snd (atv_Set s v))"
  by (rule atv_valid_Set) (auto intro: prod.collapse[symmetric])

definition config_inv :: "configCommand \<Rightarrow> bool" where
  "config_inv c \<longleftrightarrow> config_name c = '''' \<and>
     list_all (\<lambda>rd. atv_valid (rd c)) [extraBindMounts, extraCapabilities, cc_privateDirs, cc_shareDevices,
       cc_syscallFilters, cc_xdgDesktopExtra, cc_xdgDesktopExports]"

lemmas config_flags = config_SetFlags_def flag_ArrayVar_def flag_vars

interpretation config_flags: forwarding config_SetFlags "\<lambda>c. c = new_config" config_inv
proof unfold_locales
  show "distinct (map f_Name config_SetFlags)" by (simp add: config_flags)
  show "flag_word (f_Name f)" if "f \<in> set config_SetFlags" for f
    using that by (auto simp: config_flags flag_word_def)
  show "config_inv s" if "s = new_config" for s
    using that atv.valid_fresh by (simp add: config_inv_def new_config_def)
  show "config_inv s'" if "f \<in> set config_SetFlags" "config_inv s" "f_Set f v s = (Ok (), s')" for f v s s'
    using that by (auto simp: config_flags config_inv_def split_pair_run atv_valid_snd)
  show "f_String g s' = f_String g s"
    if "f \<in> set config_SetFlags" "g \<in> set config_SetFlags" "f_Name g \<noteq> f_Name f" "f_Set f v s = (Ok (), s')" for f g v s s'
    using that by (auto simp: config_flags split_pair_run)
  show "\<exists>t'. f_Set f (f_String f s) t = (Ok (), t') \<and> f_String f t' = f_String f s"
    if "f \<in> set config_SetFlags" "config_inv s" "config_inv t"
      "f_String f t = f_String f s \<or> (\<exists>t0. t0 = new_config \<and> f_String f t = f_String f t0)" for f s t
    using that by (auto simp: config_flags config_inv_def new_config_def atv_set_back)
  show "s = t" if "config_inv s" "config_inv t" "\<And>f. f \<in> set config_SetFlags \<Longrightarrow> f_String f s = f_String f t" for s t
  proof -
    have "list_all (\<lambda>f. f_String f s = f_String f t) config_SetFlags"
      using that(3) by (simp add: list_all_iff)
    then show ?thesis
      using that(1,2)
      by (cases s; cases t) (auto simp: config_flags config_inv_def dest: auth_String_inj atv.str_inj[rotated 2])
  qed
qed

lemmas small_flags = create_SetFlags_def delete_SetFlags_def kill_SetFlags_def run_SetFlags_def flag_vars
  new_create_def new_delete_def new_kill_def new_run_def

interpretation create_flags: forwarding create_SetFlags "\<lambda>c. c = new_create"
  "\<lambda>c. create_image c = '''' \<and> create_name c = ''''"
proof unfold_locales
  show "s = t" if "create_image s = '''' \<and> create_name s = ''''" "create_image t = '''' \<and> create_name t = ''''"
    "\<And>f. f \<in> set create_SetFlags \<Longrightarrow> f_String f s = f_String f t" for s t
  proof -
    have "list_all (\<lambda>f. f_String f s = f_String f t) create_SetFlags" using that(3) by (simp add: list_all_iff)
    then show ?thesis using that(1,2) by (cases s; cases t) (simp add: small_flags)
  qed
qed (auto simp: small_flags flag_word_def split: prod.splits)

interpretation delete_flags: forwarding delete_SetFlags "\<lambda>c. c = new_delete" "\<lambda>c. delete_name c = ''''"
  by unfold_locales (auto simp: small_flags flag_word_def split: prod.splits)

interpretation kill_flags: forwarding kill_SetFlags "\<lambda>c. c = new_kill" "\<lambda>c. kill_container c = ''''"
proof unfold_locales
  show "s = t" if "kill_container s = ''''" "kill_container t = ''''"
    "\<And>f. f \<in> set kill_SetFlags \<Longrightarrow> f_String f s = f_String f t" for s t
  proof -
    have "list_all (\<lambda>f. f_String f s = f_String f t) kill_SetFlags" using that(3) by (simp add: list_all_iff)
    then show ?thesis using that(1,2) by (cases s; cases t) (simp add: small_flags sig_String_inj)
  qed
qed (auto simp: small_flags flag_word_def split: prod.splits)

interpretation run_flags: forwarding run_SetFlags "\<lambda>c. c = new_run" "\<lambda>c. run_container c = '''' \<and> run_command c = []"
proof unfold_locales
  show "s = t" if "run_container s = '''' \<and> run_command s = []" "run_container t = '''' \<and> run_command t = []"
    "\<And>f. f \<in> set run_SetFlags \<Longrightarrow> f_String f s = f_String f t" for s t
  proof -
    have "list_all (\<lambda>f. f_String f s = f_String f t) run_SetFlags" using that(3) by (simp add: list_all_iff)
    then show ?thesis using that(1,2) by (cases s; cases t) (simp add: small_flags)
  qed
qed (auto simp: small_flags flag_word_def split: prod.splits)

interpretation no_flags: forwarding "[]" "\<lambda>d. d = c" "\<lambda>d. d = c" for c :: command
  by unfold_locales auto

interpretation config_line: forwarding_pair "setGlobalFlags b" app_start "app_inv b"
  config_SetFlags "\<lambda>c. c = new_config" config_inv Config_cmd the_config for b
  by unfold_locales (auto simp: app_flags config_flags split: if_splits)

interpretation create_line: forwarding_pair "setGlobalFlags b" app_start "app_inv b"
  create_SetFlags "\<lambda>c. c = new_create" "\<lambda>c. create_image c = '''' \<and> create_name c = ''''" Create_cmd the_create for b
  by unfold_locales (auto simp: app_flags small_flags split: if_splits)

interpretation delete_line: forwarding_pair "setGlobalFlags b" app_start "app_inv b"
  delete_SetFlags "\<lambda>c. c = new_delete" "\<lambda>c. delete_name c = ''''" Delete_cmd the_delete for b
  by unfold_locales (auto simp: app_flags small_flags split: if_splits)

interpretation kill_line: forwarding_pair "setGlobalFlags b" app_start "app_inv b"
  kill_SetFlags "\<lambda>c. c = new_kill" "\<lambda>c. kill_container c = ''''" Kill_cmd the_kill for b
  by unfold_locales (auto simp: app_flags small_flags split: if_splits)

interpretation run_line: forwarding_pair "setGlobalFlags b" app_start "app_inv b"
  run_SetFlags "\<lambda>c. c = new_run" "\<lambda>c. run_container c = '''' \<and> run_command c = []" Run_cmd the_run for b
  by unfold_locales (auto simp: app_flags small_flags split: if_splits)

interpretation plain_line: forwarding_pair "setGlobalFlags b" app_start "app_inv b"
  "[]" "\<lambda>d. d = c" "\<lambda>d. d = c" "\<lambda>d. d" "\<lambda>d. d" for b and c :: command
  by unfold_locales auto

end
