(* ===== verification/Container_Info.thy ===== *)
theory Container_Info
  imports Container_Ops
begin

text \<open>
  \<^verbatim>\<open>internal/container/info.go\<close>: what \<^verbatim>\<open>nsbox info\<close> prints. systemd, machined and the
  formatting of dates and sizes (\<^verbatim>\<open>go-humanize\<close>) are parameters.
\<close>

section \<open>Aligned output\<close>

text \<open>
  \<^verbatim>\<open>text/tabwriter\<close> with one padding blank and \<^verbatim>\<open>AlignRight\<close>, on lines of one cell that
  ends in a tab and the text after it: the cells are padded on the left to the width of
  the longest plus one. Values that contain tabs or line breaks themselves would make
  further cells; they are outside this model.
\<close>

type_synonym info_line = "string \<times> string"

definition tab_width :: "info_line list \<Rightarrow> nat" where
  "tab_width ls = fold (\<lambda>l m. max m (length (fst l) + 1)) ls 0"

definition tab_format :: "info_line list \<Rightarrow> string list" where
  "tab_format ls = map (\<lambda>(cell, rest). replicate (tab_width ls - length cell) CHR '' '' @ cell @ rest) ls"

section \<open>The information\<close>

record info_sys =
  i_systemd :: "err option"
  i_machined :: "err option"
  i_MemoryCurrent :: "string \<Rightarrow> err + 64 word"
  i_Timestamp :: "string \<Rightarrow> err + 64 word"
  i_RFC1123 :: "int \<Rightarrow> string"
  i_humanTime :: "int \<Rightarrow> string"
  i_humanBytes :: "64 word \<Rightarrow> string"

definition boolYesNo :: "bool \<Rightarrow> string" where
  "boolYesNo val = (if val then ''yes'' else ''no'')"

text \<open>Go's division of \<^verbatim>\<open>int64\<close> truncates towards zero.\<close>

definition usec_to_sec :: "64 word \<Rightarrow> int" where
  "usec_to_sec usec = (let i = sint usec in if 0 \<le> i then i div 1000000 else - ((- i) div 1000000))"

definition info_lines :: "info_sys \<Rightarrow> Container \<Rightarrow> string \<Rightarrow> info_line list" where
  "info_lines si ct machineName =
     [(''Name:'', '' '' @ Name ct),
      (''Booted:'', '' '' @ boolYesNo (Boot (Cfg ct))),
      (''Shares cgroups:'', '' '' @ boolYesNo (ShareCgroupfs (Cfg ct))),
      (''Virtual network:'', '' '' @ boolYesNo (VirtualNetwork (Cfg ct))),
      (''Shared devices:'', '' '' @ join '', '' (ShareDevices (Cfg ct))),
      (''XDG desktop exports:'', '' '' @ join '', '' (XdgDesktopExports (Cfg ct))),
      (''XDG desktop extra:'', '' '' @ join '', '' (XdgDesktopExtra (Cfg ct)))] @
     (case i_Timestamp si machineName of
        Inr usec \<Rightarrow> (let tm = usec_to_sec usec in
          [(''Running:'', '' since '' @ i_RFC1123 si tm @ '' ('' @ i_humanTime si tm @ '')'')])
      | Inl _ \<Rightarrow> [(''Running:'', '' no'')]) @
     (case i_MemoryCurrent si (''nsbox-'' @ machineName @ ''.service'') of
        Inr memory \<Rightarrow> [(''Memory:'', '' '' @ i_humanBytes si memory)]
      | Inl _ \<Rightarrow> [])"

definition ShowInfo :: "info_sys \<Rightarrow> Container \<Rightarrow> Userdata \<Rightarrow> unit io" where
  "ShowInfo si ct usrdata =
     seq (check (i_systemd si)) (\<lambda>_.
     seq (check (i_machined si)) (\<lambda>_.
     each print (tab_format (info_lines si ct (MachineName ct usrdata)))))"

definition OpenAndShowInfo :: "info_sys \<Rightarrow> build \<Rightarrow> Userdata \<Rightarrow> string \<Rightarrow> unit io" where
  "OpenAndShowInfo si b usrdata name =
     seq (Open b usrdata name) (\<lambda>ct. ShowInfo si ct usrdata)"

section \<open>Alignment\<close>

lemma fold_max_width:
  "m \<le> fold (\<lambda>l m. max m (length (fst l) + 1)) ls (m :: nat) \<and>
   (\<forall>l\<in>set ls. length (fst l) < fold (\<lambda>l m. max m (length (fst l) + 1)) ls m)"
proof (induction ls arbitrary: m)
  case (Cons l ls)
  show ?case using Cons.IH[of "max m (length (fst l) + 1)"] by auto
qed simp

lemma tab_width_le: "l \<in> set ls \<Longrightarrow> length (fst l) < tab_width ls"
  using fold_max_width[of 0 ls] by (simp add: tab_width_def)

text \<open>Every line's text begins in the same column, after at least one blank.\<close>

lemma tab_format_aligned:
  "tab_format ls = map (\<lambda>(cell, rest). (replicate (tab_width ls - length cell) CHR '' '' @ cell) @ rest) ls"
  "l \<in> set ls \<Longrightarrow> length (replicate (tab_width ls - length (fst l)) CHR '' '' @ fst l) = tab_width ls"
  using tab_width_le[of l ls] by (simp_all add: tab_format_def)

end
