(* ===== verification/Commands.thy ===== *)
theory Commands
  imports Command_Line Container_Info Inventory Images Integration Create Transient Session
begin

text \<open>
  \<^verbatim>\<open>cmd/nsbox\<close>: what each command does once its arguments are read. Everything the
  commands call is modelled in the theories of the packages; a terminal answers the
  questions.
\<close>

section \<open>What the commands work with\<close>

record nsbox_sys =
  n_build :: build
  n_exe :: "err + string"
  n_branch_first :: bool
  n_create :: create_sys
  n_gtk :: gtk
  n_info :: info_sys
  n_kill :: kill_sys
  n_transient :: transient_sys
  n_session :: session_sys
  n_stdio :: "(string \<times> int) list"
  n_crypt :: "string \<Rightarrow> err + string"
  n_ReadPassword :: "err + string"
  n_Scanln :: string

definition log_Info :: "string \<Rightarrow> unit io" where
  "log_Info line = print (line @ newline)"

definition succeed :: "exit_status io" where
  "succeed = ret ExitSuccess"

text \<open>\<^verbatim>\<open>if err != nil { return args.HandleError(err) }\<close> after a call.\<close>

definition or_failure :: "'a io \<Rightarrow> ('a \<Rightarrow> exit_status io) \<Rightarrow> exit_status io" where
  "or_failure m f = seq (attempt m) (\<lambda>r. case r of
      Inl e \<Rightarrow> ret (HandleError (Some e))
    | Inr x \<Rightarrow> f x)"

section \<open>config\<close>

text \<open>
  One visited flag; an error is kept while the remaining flags are visited. Flags of
  lists are applied afterwards.
\<close>

definition visit_config ::
  "nsbox_sys \<Rightarrow> configCommand \<Rightarrow> Container \<times> err option \<Rightarrow> string \<Rightarrow> (Container \<times> err option) io" where
  "visit_config ns cmd = (\<lambda>(ct, err) name.
     if name = ''auth'' then
       let ct = ct\<lparr>Cfg := (Cfg ct)\<lparr>Auth := cc_auth cmd\<rparr>\<rparr> in
       if cc_auth cmd = AuthManual then
         seq (print ''Enter a password for the container user: '') (\<lambda>_.
         case n_ReadPassword ns of
           Inl err2 \<Rightarrow> ret (ct, Some err2)
         | Inr pass \<Rightarrow>
             seq (print newline) (\<lambda>_.
             seq (attempt (UpdateManualPassword (n_crypt ns) ct pass)) (\<lambda>r. case r of
               Inl err2 \<Rightarrow> ret (ct, Some err2)
             | Inr _ \<Rightarrow> ret (ct, err))))
       else ret (ct, err)
     else if name = ''share-cgroupfs'' then
       ret (ct\<lparr>Cfg := (Cfg ct)\<lparr>ShareCgroupfs := cc_shareCgroupfs cmd\<rparr>\<rparr>, err)
     else if name = ''virtual-network'' then
       ret (ct\<lparr>Cfg := (Cfg ct)\<lparr>VirtualNetwork := cc_virtualNetwork cmd\<rparr>\<rparr>, err)
     else ret (ct, err))"

definition apply_lists :: "configCommand \<Rightarrow> Config \<Rightarrow> Config" where
  "apply_lists cmd config = config\<lparr>
     ExtraBindMounts := fst (atv_Apply (extraBindMounts cmd) (ExtraBindMounts config)),
     ExtraCapabilities := fst (atv_Apply (extraCapabilities cmd) (ExtraCapabilities config)),
     PrivateDirs := fst (atv_Apply (cc_privateDirs cmd) (PrivateDirs config)),
     ShareDevices := fst (atv_Apply (cc_shareDevices cmd) (ShareDevices config)),
     SyscallFilters := fst (atv_Apply (cc_syscallFilters cmd) (SyscallFilters config)),
     XdgDesktopExtra := fst (atv_Apply (cc_xdgDesktopExtra cmd) (XdgDesktopExtra config)),
     XdgDesktopExports := fst (atv_Apply (cc_xdgDesktopExports cmd) (XdgDesktopExports config))\<rparr>"

definition config_Execute :: "nsbox_sys \<Rightarrow> Userdata \<Rightarrow> configCommand \<Rightarrow> string list \<Rightarrow> exit_status io" where
  "config_Execute ns usrdata cmd visited =
     or_failure (Open (n_build ns) usrdata (config_name cmd)) (\<lambda>ct.
     or_failure (LockUntilProcessDeath ct ConfigLock NoWaitForLock) (\<lambda>_.
     seq (each_acc (visit_config ns cmd) (ct, None) visited) (\<lambda>(ct, err).
     case err of
       Some e \<Rightarrow> ret (HandleError (Some e))
     | None \<Rightarrow>
         let ct = ct\<lparr>Cfg := apply_lists cmd (Cfg ct)\<rparr> in
         or_failure (UpdateConfig ct) (\<lambda>_.
         handled (UpdateDesktopFiles (n_build ns) (n_gtk ns) ct)))))"

section \<open>create, delete, info, kill\<close>

definition create_Execute :: "nsbox_sys \<Rightarrow> Userdata \<Rightarrow> createCommand \<Rightarrow> exit_status io" where
  "create_Execute ns usrdata cmd =
     (let config = zero_config\<lparr>Image := create_image cmd, Boot := create_boot cmd\<rparr> in
      handled (CreateContainer (n_create ns) (n_build ns) (n_exe ns) (n_branch_first ns) usrdata
        (create_name cmd) (create_tar cmd) config))"

definition delete_Execute :: "nsbox_sys \<Rightarrow> Userdata \<Rightarrow> deleteCommand \<Rightarrow> exit_status io" where
  "delete_Execute ns usrdata cmd =
     or_failure (Open (n_build ns) usrdata (delete_name cmd)) (\<lambda>ct.
     or_failure (DefaultContainer (n_build ns) usrdata) (\<lambda>def.
     if (case def of Some d \<Rightarrow> Name d = Name ct | None \<Rightarrow> False)
     then ret (HandleError (Some (Msg ''Cannot delete the default container.'')))
     else
       seq (if delete_yes cmd then ret True
            else seq (print (''Are you sure you want to PERMANENTLY delete '' @ delete_name cmd @ ''? (y/n) ''))
              (\<lambda>_. ret (to_lower (n_Scanln ns) = ''y''))) (\<lambda>sure.
       if \<not> sure then succeed else handled (LockAndDelete ct NoWaitForLock))))"

definition info_Execute :: "nsbox_sys \<Rightarrow> Userdata \<Rightarrow> infoCommand \<Rightarrow> exit_status io" where
  "info_Execute ns usrdata cmd = handled (OpenAndShowInfo (n_info ns) (n_build ns) usrdata (info_name cmd))"

definition kill_Execute :: "nsbox_sys \<Rightarrow> Userdata \<Rightarrow> killCommand \<Rightarrow> exit_status io" where
  "kill_Execute ns usrdata cmd =
     or_failure (Open (n_build ns) usrdata (kill_container cmd)) (\<lambda>ct.
     handled (KillContainer (n_kill ns) usrdata ct (kill_signal cmd) (kill_all cmd)))"

section \<open>images, list\<close>

text \<open>The inner loop over the patterns: whether one matches, or the first malformed one.\<close>

fun match_any :: "string list \<Rightarrow> string \<Rightarrow> err + bool" where
  "match_any [] name = Inr False"
| "match_any (arg # args) name = (case Match arg name of
      Inl e \<Rightarrow> Inl e
    | Inr True \<Rightarrow> Inr True
    | Inr False \<Rightarrow> match_any args name)"

definition list_matching :: "('a \<Rightarrow> string) \<Rightarrow> ('a \<Rightarrow> string) \<Rightarrow> string list \<Rightarrow> 'a list \<Rightarrow> unit io" where
  "list_matching name_of line_of patterns = each (\<lambda>x.
     if patterns = [] then print (line_of x @ newline)
     else case match_any patterns (name_of x) of
       Inl e \<Rightarrow> fail e
     | Inr matched \<Rightarrow> if matched then print (line_of x @ newline) else ret ())"

definition image_line :: "Image_info \<Rightarrow> string" where
  "image_line img =
     (let name = path_base (RootPath img) in
      if img_ValidTags img \<noteq> [] then name @ '':'' @ join '','' (img_ValidTags img) else name)"

definition images_Execute :: "nsbox_sys \<Rightarrow> imagesCommand \<Rightarrow> exit_status io" where
  "images_Execute ns cmd =
     or_failure (image_List (n_build ns) (n_exe ns)) (\<lambda>images.
     handled (list_matching (\<lambda>img. path_base (RootPath img)) image_line (images_patterns cmd) images))"

definition list_Execute :: "nsbox_sys \<Rightarrow> Userdata \<Rightarrow> listCommand \<Rightarrow> exit_status io" where
  "list_Execute ns usrdata cmd =
     or_failure (List_containers (n_build ns) usrdata) (\<lambda>containers.
     handled (list_matching Name Name (list_patterns cmd) containers))"

section \<open>rename, run, set-default, version\<close>

text \<open>The field of a nil pointer is read when there is no default container.\<close>

definition isDefaultContainer :: "build \<Rightarrow> Userdata \<Rightarrow> string \<Rightarrow> bool io" where
  "isDefaultContainer b usrdata name =
     seq (DefaultContainer b usrdata) (\<lambda>def. case def of
       None \<Rightarrow> panic ''nil pointer dereference''
     | Some d \<Rightarrow> ret (Name d = name))"

definition rename_Execute :: "nsbox_sys \<Rightarrow> Userdata \<Rightarrow> renameCommand \<Rightarrow> exit_status io" where
  "rename_Execute ns usrdata cmd =
     or_failure (Open (n_build ns) usrdata (rename_current cmd)) (\<lambda>ct.
     or_failure (LockUntilProcessDeath ct FullContainerLock NoWaitForLock) (\<lambda>_.
     or_failure (wrap ''checking default container''
                   (isDefaultContainer (n_build ns) usrdata (rename_current cmd))) (\<lambda>isDefault.
     or_failure (on_err (Rename ct (rename_new cmd))
                   (\<lambda>e. fail (if is_exist e then Msg ''new name already exists'' else e))) (\<lambda>_.
     if isDefault
     then or_failure (SetDefaultContainer (n_build ns) usrdata (rename_new cmd)) (\<lambda>_. succeed)
     else succeed))))"

definition run_container_named :: "build \<Rightarrow> Userdata \<Rightarrow> string \<Rightarrow> Container io" where
  "run_container_named b usrdata name =
     (if name = '''' \<or> name = ''-'' then
        seq (attempt (DefaultContainer b usrdata)) (\<lambda>r. case r of
          Inr (Some ct) \<Rightarrow> ret ct
        | _ \<Rightarrow> fail (Msg ''no default container is set''))
      else Open b usrdata name)"

definition run_Execute :: "nsbox_sys \<Rightarrow> nsboxApp \<Rightarrow> Userdata \<Rightarrow> runCommand \<Rightarrow> exit_status io" where
  "run_Execute ns app usrdata cmd =
     or_failure (run_container_named (n_build ns) usrdata (run_container cmd)) (\<lambda>ct.
     or_failure (RunContainerViaTransientUnit ((n_transient ns)\<lparr>t_verbose := verbose app\<rparr>) (n_build ns) ct (run_restart cmd) usrdata) (\<lambda>usrdata.
     or_failure (EnterContainer (n_session ns) (n_stdio ns) (verbose app) ct (run_command cmd) usrdata
                   (run_noReplay cmd) (workdir app)) (\<lambda>entered.
     abort (Exited (e_code entered)))))"

definition setDefault_Execute :: "nsbox_sys \<Rightarrow> Userdata \<Rightarrow> setDefaultCommand \<Rightarrow> exit_status io" where
  "setDefault_Execute ns usrdata cmd =
     (let new = (if newDefault cmd = ''-'' then '''' else newDefault cmd) in
      or_failure (SetDefaultContainer (n_build ns) usrdata new) (\<lambda>_. succeed))"

definition version_Execute :: "nsbox_sys \<Rightarrow> exit_status io" where
  "version_Execute ns =
     or_failure (release_Read (n_build ns) (n_exe ns) (n_branch_first ns)) (\<lambda>rel.
     seq (log_Info (rel_Version rel @ '' ('' @ Branch_String (rel_Branch rel) @ '')'')) (\<lambda>_. succeed))"

section \<open>All commands\<close>

text \<open>\<open>visited\<close>: the names of the flags that were given to the command.\<close>

fun command_Execute :: "nsbox_sys \<Rightarrow> nsboxApp \<Rightarrow> Userdata \<Rightarrow> command \<Rightarrow> string list \<Rightarrow> exit_status io" where
  "command_Execute ns app usrdata (Config_cmd c) visited = config_Execute ns usrdata c visited"
| "command_Execute ns app usrdata (Create_cmd c) visited = create_Execute ns usrdata c"
| "command_Execute ns app usrdata (Delete_cmd c) visited = delete_Execute ns usrdata c"
| "command_Execute ns app usrdata (Images_cmd c) visited = images_Execute ns c"
| "command_Execute ns app usrdata (Info_cmd c) visited = info_Execute ns usrdata c"
| "command_Execute ns app usrdata (Kill_cmd c) visited = kill_Execute ns usrdata c"
| "command_Execute ns app usrdata (List_cmd c) visited = list_Execute ns usrdata c"
| "command_Execute ns app usrdata (Rename_cmd c) visited = rename_Execute ns usrdata c"
| "command_Execute ns app usrdata (Run_cmd c) visited = run_Execute ns app usrdata c"
| "command_Execute ns app usrdata (SetDefault_cmd c) visited = setDefault_Execute ns usrdata c"
| "command_Execute ns app usrdata Version_cmd visited = version_Execute ns"

end
