(* ===== verification/Nsbox_Main.thy ===== *)
theory Nsbox_Main
  imports Commands
begin

text \<open>
  \<^verbatim>\<open>cmd/nsbox/main.go\<close> and \<^verbatim>\<open>cmd/nsbox-invoker\<close>: an unprivileged \<^verbatim>\<open>nsbox\<close> runs itself
  again as root, through \<^verbatim>\<open>pkexec\<close> or \<^verbatim>\<open>sudo\<close> and the invoker, with its flags,
  arguments and the whitelisted part of its environment on the command line.
\<close>

section \<open>Running again with more privileges\<close>

text \<open>
  What the program asks besides: the calling user, the search path, \<^verbatim>\<open>exec\<close>, the
  current directory, and the \<^verbatim>\<open>subcommands\<close> package, which chooses a registered command
  and the arguments of its flag set, or deals with the command line itself.
\<close>

record main_sys =
  ms_ns :: nsbox_sys
  ms_userdb :: userdb
  ms_LookPath :: "string \<Rightarrow> err + string"
  ms_Exec :: "string \<Rightarrow> err option"
  ms_Getwd :: "err + string"
  ms_select :: "string list \<Rightarrow> (string \<times> string list) option"
  ms_other :: "string list \<Rightarrow> exit_status"

abbreviation ms_build :: "main_sys \<Rightarrow> build" where
  "ms_build ms \<equiv> n_build (ms_ns ms)"

definition createStateDirectory :: "build \<Rightarrow> unit io" where
  "createStateDirectory b =
     seq (on_err (os_MkdirAll (StorageRoot b) 493) (\<lambda>e. if is_exist e then ret () else log_Fatal)) (\<lambda>_.
     or_fatal (os_Chmod (StorageRoot b) 493))"

definition commandNeedsRoot :: "command \<Rightarrow> bool" where
  "commandNeedsRoot cmd \<longleftrightarrow> command_Name cmd \<noteq> ''version''"

text \<open>\<^verbatim>\<open>unix.Exec\<close> with an environment of its own.\<close>

definition exec_with :: "(string \<Rightarrow> err option) \<Rightarrow> string \<Rightarrow> string list \<Rightarrow> string list \<Rightarrow> unit io" where
  "exec_with failing path argv env w = (case failing path of
      Some e \<Rightarrow> (Err e, w)
    | None \<Rightarrow> (Abort (Execed path argv env), w))"

text \<open>
  The flags that are passed on: those given before the command's name (\<open>globals\<close>), then
  those given after it, each as it now stands; \<^verbatim>\<open>-workdir\<close> once, at the end.
\<close>

definition forwarded_flags ::
  "build \<Rightarrow> string list \<Rightarrow> string list \<Rightarrow> nsboxApp \<Rightarrow> command \<Rightarrow> string list" where
  "forwarded_flags b globals actual app cmd =
     map (flag_assign app) (filter (\<lambda>f. f_Name f \<noteq> ''workdir'') (flag_Visit (setGlobalFlags b) globals)) @
     map (flag_assign (app, cmd)) (filter (\<lambda>f. f_Name f \<noteq> ''workdir'') (flag_Visit (wrapper_SetFlags b cmd) actual)) @
     [''-workdir='' @ workdir app]"

definition redirect_command ::
  "build \<Rightarrow> string \<Rightarrow> string \<Rightarrow> string list \<Rightarrow> string list \<Rightarrow> string list \<Rightarrow> nsboxApp \<Rightarrow> command \<Rightarrow> string list \<Rightarrow> string list" where
  "redirect_command b redirector invokerPath env globals actual app cmd args =
     [redirector, invokerPath, command_Name cmd] @ env @ [''::''] @
     forwarded_flags b globals actual app cmd @ [''--''] @ args"

definition choose_redirector :: "build \<Rightarrow> nsboxApp \<Rightarrow> string list \<Rightarrow> string res" where
  "choose_redirector b app env =
     (if app_sudo app \<or> getenv env ''NSBOX_USE_SUDO'' = ''1'' then
        if \<not> EnableSudo b then Abort (Exited 1) else Ok ''sudo''
      else Ok ''pkexec'')"

text \<open>\<open>args\<close> are the positional arguments, the command's flags are parsed.\<close>

definition privilegedReexec ::
  "main_sys \<Rightarrow> string list \<Rightarrow> string list \<Rightarrow> nsboxApp \<Rightarrow> command \<Rightarrow> string list \<Rightarrow> unit io" where
  "privilegedReexec ms globals actual app cmd args =
     seq (get_state environ) (\<lambda>env.
     seq (lift_res (choose_redirector (ms_build ms) app env)) (\<lambda>redirector.
     seq (or_fatal (lift_res (of_sum (ms_LookPath ms redirector)))) (\<lambda>redirectorPath.
     seq (or_fatal (GetPrivateExecutable (ms_build ms) (n_exe (ms_ns ms)) ''nsbox-invoker'')) (\<lambda>invokerPath.
     seq (lift_res (WhitelistedEnviron env)) (\<lambda>passed.
     seq (attempt (exec_with (ms_Exec ms) redirectorPath
            (redirect_command (ms_build ms) redirector invokerPath passed globals actual app cmd args) env)) (\<lambda>_.
     log_Fatal))))))"

definition PreexecHook ::
  "main_sys \<Rightarrow> string list \<Rightarrow> string list \<Rightarrow> nsboxApp \<Rightarrow> command \<Rightarrow> string list \<Rightarrow> unit io" where
  "PreexecHook ms globals actual app cmd args =
     seq (get_state proc_uid) (\<lambda>uid.
     if uid = 0 then createStateDirectory (ms_build ms)
     else if commandNeedsRoot cmd then privilegedReexec ms globals actual app cmd args
     else ret ())"

section \<open>The command line\<close>

text \<open>\<^verbatim>\<open>flag.Parse\<close> on the whole command line: it exits with status 2 on an error.\<close>

definition parse_globals :: "build \<Rightarrow> string list \<Rightarrow> nsboxApp \<Rightarrow> (string list \<times> string list \<times> nsboxApp) res" where
  "parse_globals b argv app = (case flag_parse (flag_lookup (setGlobalFlags b)) argv app of
      (Ok (names, rest), app') \<Rightarrow> Ok (names, rest, app')
    | (Err _, _) \<Rightarrow> Abort (Exited 2)
    | (Abort a, _) \<Rightarrow> Abort a)"

text \<open>The flags of one command, parsed on its flag set.\<close>

definition parse_command :: "build \<Rightarrow> command \<Rightarrow> string list \<Rightarrow> nsboxApp \<Rightarrow>
    (string list \<times> string list \<times> nsboxApp \<times> command) res" where
  "parse_command b cmd args app =
     (case flag_parse (flag_lookup (wrapper_SetFlags b cmd)) args (app, cmd) of
        (Ok (names, pos), st) \<Rightarrow> Ok (names, pos, st)
      | (Err e, _) \<Rightarrow> Err e
      | (Abort a, _) \<Rightarrow> Abort a)"

text \<open>The names of the flags that were set, as \<^verbatim>\<open>Visit\<close> goes over them.\<close>

definition visited_flags :: "build \<Rightarrow> command \<Rightarrow> string list \<Rightarrow> string list" where
  "visited_flags b cmd actual = map f_Name (flag_Visit (wrapper_SetFlags b cmd) actual)"

definition registered_command :: "string \<Rightarrow> command option" where
  "registered_command name = find (\<lambda>c. command_Name c = name) registered"

text \<open>The command chosen, with its flags parsed, through the wrapper.\<close>

definition execute_command ::
  "main_sys \<Rightarrow> Userdata \<Rightarrow> string list \<Rightarrow> nsboxApp \<Rightarrow> command \<Rightarrow> string list \<Rightarrow> exit_status io" where
  "execute_command ms usrdata globals app cmd args =
     (case parse_command (ms_build ms) cmd args app of
        Err _ \<Rightarrow> ret ExitUsageError
      | Abort a \<Rightarrow> abort a
      | Ok (actual, pos, app, cmd) \<Rightarrow>
          (case command_ParsePositional cmd pos of
             Inl _ \<Rightarrow> ret ExitUsageError
           | Inr cmd \<Rightarrow>
               seq (PreexecHook ms globals actual app cmd pos) (\<lambda>_.
               command_Execute (ms_ns ms) app usrdata cmd (visited_flags (ms_build ms) cmd actual))))"

text \<open>\<^verbatim>\<open>args.Execute\<close>\<close>

definition args_Execute :: "main_sys \<Rightarrow> Userdata \<Rightarrow> nsboxApp \<Rightarrow> string list \<Rightarrow> unit io" where
  "args_Execute ms usrdata app argv =
     seq (lift_res (parse_globals (ms_build ms) argv app)) (\<lambda>(globals, rest, app).
     seq (case ms_select ms rest of
            None \<Rightarrow> ret (ms_other ms rest)
          | Some (name, args) \<Rightarrow>
              (case registered_command name of
                 None \<Rightarrow> ret (ms_other ms rest)
               | Some cmd \<Rightarrow> execute_command ms usrdata globals app cmd args)) (\<lambda>status.
     abort (Exited (exit_number status))))"

definition nsbox_main :: "main_sys \<Rightarrow> string list \<Rightarrow> unit io" where
  "nsbox_main ms argv =
     seq (attempt (os_Stat ''/run/host/nsbox'')) (\<lambda>nested. case nested of
       Inr _ \<Rightarrow> log_Fatal
     | Inl _ \<Rightarrow>
         seq (get_state proc_uid) (\<lambda>uid.
         seq (get_state environ) (\<lambda>env.
         seq (or_fatal (lift_res (if uid = 0 then BeneathSudo (EnableSudo (ms_build ms)) (ms_userdb ms) uid env
                                  else Current (ms_userdb ms) env))) (\<lambda>usrdata.
         seq (or_fatal (lift_res (of_sum (ms_Getwd ms)))) (\<lambda>dir.
         args_Execute ms usrdata (initial_app dir) argv)))))"

section \<open>The invoker\<close>

text \<open>
  The loop over the environment entries: what is left after \<^verbatim>\<open>::\<close>, or all arguments
  when there is none, and the environment extended by the entries.
\<close>

fun invoker_loop :: "string list \<Rightarrow> string list \<Rightarrow> string list \<Rightarrow> (string list \<times> string list) res" where
  "invoker_loop args acc [] = Ok (args, acc)"
| "invoker_loop args acc (env # rest) =
     (if env = ''::'' then Ok (rest, acc)
      else bind_res (SplitEnv env) (\<lambda>(name, _).
        if IsWhitelisted name then invoker_loop args (acc @ [env]) rest
        else Abort (Exited 1)))"

definition invoker_main :: "build \<Rightarrow> (err + string) \<Rightarrow> (string \<Rightarrow> err option) \<Rightarrow> string list \<Rightarrow> unit io" where
  "invoker_main b exe failing argv =
     (if length argv < 3 then log_Fatal
      else
        (let command = hd argv; args = tl argv in
         seq (get_state environ) (\<lambda>env0.
         seq (lift_res (invoker_loop args env0 args)) (\<lambda>(args, env).
         if args = [] then log_Fatal
         else
           seq (or_fatal (GetMainExecutable b exe)) (\<lambda>nsbox.
           let cmd = [nsbox, command] @ args in
           seq (attempt (exec_with failing nsbox cmd env)) (\<lambda>_. log_Fatal))))))"

section \<open>The second run sees what the first one saw\<close>

definition command_flags :: "command \<Rightarrow> (nsboxApp \<times> command) Flag list" where
  "command_flags cmd = (case cmd of
      Config_cmd _ \<Rightarrow> right_flags Config_cmd the_config config_SetFlags
    | Create_cmd _ \<Rightarrow> right_flags Create_cmd the_create create_SetFlags
    | Delete_cmd _ \<Rightarrow> right_flags Delete_cmd the_delete delete_SetFlags
    | Kill_cmd _ \<Rightarrow> right_flags Kill_cmd the_kill kill_SetFlags
    | Run_cmd _ \<Rightarrow> right_flags Run_cmd the_run run_SetFlags
    | _ \<Rightarrow> [])"

lemma wrapper_flags: "wrapper_SetFlags b cmd = left_flags (setGlobalFlags b) @ command_flags cmd"
  by (cases cmd) (simp_all add: both_flags_def command_flags_def right_flags_def)

text \<open>The state of a command's flag set: the constructor stays.\<close>

definition line_inv :: "build \<Rightarrow> command \<Rightarrow> (nsboxApp \<times> command) Flag list \<Rightarrow> (command \<Rightarrow> bool) \<Rightarrow> bool" where
  "line_inv b c0 F ok \<longleftrightarrow>
     forwarding F (\<lambda>(a, d). app_start a \<and> d = c0) (\<lambda>(a, d). app_inv b a \<and> ok d) \<and>
     (\<forall>d. ok d \<longrightarrow> wrapper_SetFlags b d = F \<and> command_Name d = command_Name c0)"

lemma registered_lines:
  assumes "c0 \<in> set registered"
  shows "\<exists>ok. line_inv b c0 (wrapper_SetFlags b c0) ok"
proof -
  have one: "\<exists>ok. line_inv b c0 (wrapper_SetFlags b c0) ok"
    if "forwarding (wrapper_SetFlags b c0) (\<lambda>(a, d). app_start a \<and> (\<exists>c. d = con c \<and> c = fresh))
        (\<lambda>(a, d). app_inv b a \<and> (\<exists>c. d = con c \<and> ok c))"
      and "c0 = con fresh" and "\<And>c. wrapper_SetFlags b (con c) = wrapper_SetFlags b (con fresh)"
      and "\<And>c. command_Name (con c) = command_Name (con fresh)"
    for con :: "'c \<Rightarrow> command" and fresh ok
  proof -
    have "(\<lambda>(a, d). app_start a \<and> (\<exists>c. d = con c \<and> c = fresh)) = (\<lambda>(a, d). app_start a \<and> d = c0)"
      using that(2) by auto
    then show ?thesis
      using that unfolding line_inv_def by (intro exI[of _ "\<lambda>d. \<exists>c. d = con c \<and> ok c"]) auto
  qed
  have plain: "\<exists>ok. line_inv b c0 (wrapper_SetFlags b c0) ok"
    if "wrapper_SetFlags b c0 = both_flags (setGlobalFlags b) (\<lambda>c. c) (\<lambda>c. c) []"
    using plain_line.forwarding_axioms[of b c0] that
    unfolding line_inv_def by (intro exI[of _ "\<lambda>d. d = c0"]) simp
  from assms show ?thesis
    unfolding registered_def
    using one[of Config_cmd new_config] config_line.forwarding_axioms[of b]
      one[of Create_cmd new_create] create_line.forwarding_axioms[of b]
      one[of Delete_cmd new_delete] delete_line.forwarding_axioms[of b]
      one[of Kill_cmd new_kill] kill_line.forwarding_axioms[of b]
      one[of Run_cmd new_run] run_line.forwarding_axioms[of b] plain
    by auto
qed

lemma registered_commandD:
  "registered_command name = Some c \<Longrightarrow> c \<in> set registered \<and> command_Name c = name"
  by (auto simp: registered_command_def find_Some_iff in_set_conv_nth)

lemma command_name_plain: "\<not> is_flag_arg (command_Name c)"
  by (cases c) (simp_all add: is_flag_arg_def)

text \<open>The flags that are passed on, as flags of the command's flag set.\<close>

definition forwarded_list :: "build \<Rightarrow> string list \<Rightarrow> string list \<Rightarrow> command \<Rightarrow> (nsboxApp \<times> command) Flag list" where
  "forwarded_list b globals actual cmd =
     left_flags (filter (\<lambda>f. f_Name f \<noteq> ''workdir'') (flag_Visit (setGlobalFlags b) globals)) @
     filter (\<lambda>f. f_Name f \<noteq> ''workdir'') (flag_Visit (wrapper_SetFlags b cmd) actual) @
     left_flags [flag_StringVar ''workdir'' workdir workdir_update]"

lemma assign_left: "map (flag_assign (a, d)) (left_flags fs) = map (flag_assign a) fs"
  by (simp add: left_flags_def flag_assign_def)

lemma names_left: "map f_Name (left_flags fs) = map f_Name fs"
  by (simp add: left_flags_def)

lemma forwarded_flags_list:
  "forwarded_flags b globals actual app cmd = map (flag_assign (app, cmd)) (forwarded_list b globals actual cmd)"
  by (simp add: forwarded_flags_def forwarded_list_def assign_left) (simp add: flag_assign_def flag_vars)

lemma set_left: "set (left_flags fs) = lift_flag fst (\<lambda>x (a, c). (x, c)) ` set fs"
  by (simp add: left_flags_def)

lemma left_flags_mono: "set fs \<subseteq> set gs \<Longrightarrow> set (left_flags fs) \<subseteq> set (left_flags gs)"
  by (auto simp: set_left)

lemma workdir_global: "flag_StringVar ''workdir'' workdir workdir_update \<in> set (setGlobalFlags b)"
  by (simp add: setGlobalFlags_def SetGlobalFlags_def)

lemma forwarded_list_flags: "set (forwarded_list b globals actual cmd) \<subseteq> set (wrapper_SetFlags b cmd)"
  using workdir_global[of b]
  by (auto simp: forwarded_list_def wrapper_flags set_left set_flag_Visit)

lemma forwarded_list_names:
  assumes "set globals \<subseteq> f_Name ` set (setGlobalFlags b)" and "set actual \<subseteq> f_Name ` set (wrapper_SetFlags b cmd)"
  shows "set (map f_Name (forwarded_list b globals actual cmd)) = insert ''workdir'' (set globals \<union> set actual)"
  using assms unfolding forwarded_list_def map_append names_left
  by (auto simp: set_flag_Visit image_iff flag_vars)

text \<open>A flag that is not passed on stands as at the start of any process.\<close>

lemma not_forwarded:
  assumes "f \<in> set (wrapper_SetFlags b c0)" and "f \<notin> set (forwarded_list b globals actual c0)"
    and app0: "\<And>g. g \<in> set (setGlobalFlags b) \<Longrightarrow> f_Name g \<notin> set globals \<Longrightarrow>
      f_String g app0 = f_String g (initial_app dir)"
    and st: "f_Name f \<notin> set actual \<Longrightarrow> f_String f st = f_String f (app0, c0)"
  shows "f_String f (initial_app dir', c0) = f_String f st"
proof (cases "f \<in> set (left_flags (setGlobalFlags b))")
  case True
  then obtain g where g: "g \<in> set (setGlobalFlags b)" "f = lift_flag fst (\<lambda>x (a, c). (x, c)) g"
    by (auto simp: set_left)
  have w: "f_Name g \<noteq> ''workdir''"
  proof
    assume "f_Name g = ''workdir''"
    then have "g = flag_StringVar ''workdir'' workdir workdir_update"
      using g(1) by (auto simp: app_flags split: if_splits)
    then show False using assms(2) g(2) by (simp add: forwarded_list_def left_flags_def)
  qed
  then have "f_Name g \<notin> set globals" "f_Name f \<notin> set actual"
    using assms(1,2) g by (auto simp: forwarded_list_def set_left set_flag_Visit)
  then show ?thesis
    using app0[OF g(1)] st g w by (auto simp: app_flags initial_app_def split: if_splits)
next
  case False
  then have cf: "f \<in> set (command_flags c0)" using assms(1) by (simp add: wrapper_flags)
  have "f_Name f \<noteq> ''workdir''" and snd_only: "f_String f (a, d) = f_String f (a', d)" for a a' d
    using cf by (auto simp: command_flags_def right_flags_def config_flags small_flags split: command.splits)
  then have "f_Name f \<notin> set actual"
    using assms(1,2) by (auto simp: forwarded_list_def set_flag_Visit)
  then show ?thesis using st snd_only[of "initial_app dir'" c0 app0] by simp
qed

lemma reexec_round_trip:
  assumes "parse_globals b argv (initial_app dir) = Ok (globals, name # args, app0)"
    and "registered_command name = Some c0"
    and "parse_command b c0 args app0 = Ok (actual, pos, app, c)"
  shows "parse_command b c0 (forwarded_flags b globals actual app c @ [''--''] @ pos) (initial_app dir') =
      Ok (map f_Name (forwarded_list b globals actual c0), pos, app, c) \<and>
    set (map f_Name (forwarded_list b globals actual c0)) = insert ''workdir'' (set globals \<union> set actual) \<and>
    command_Name c = name"
proof -
  let ?F = "wrapper_SetFlags b c0"
  obtain ok where line: "line_inv b c0 ?F ok"
    using registered_lines registered_commandD[OF assms(2)] by blast
  then have fw: "forwarding ?F (\<lambda>(a, d). app_start a \<and> d = c0) (\<lambda>(a, d). app_inv b a \<and> ok d)"
    by (simp add: line_inv_def)
  have start: "app_start (initial_app d)" for d by (simp add: app_start_def initial_app_def)
  have globals: "flag_parse (flag_lookup (setGlobalFlags b)) argv (initial_app dir) = (Ok (globals, name # args), app0)"
    using assms(1) by (auto simp: parse_globals_def split: prod.splits res.splits)
  have app0: "app_inv b app0" "set globals \<subseteq> f_Name ` set (setGlobalFlags b)"
    "\<And>g. g \<in> set (setGlobalFlags b) \<Longrightarrow> f_Name g \<notin> set globals \<Longrightarrow> f_String g app0 = f_String g (initial_app dir)"
    using app.parse_frame[OF globals app.start_inv[OF start]] by blast+
  have line0: "app_inv b (initial_app d) \<and> ok c0" for d
    using forwarding.start_inv[OF fw, of "(initial_app d, c0)"] start by simp
  have command: "flag_parse (flag_lookup ?F) args (app0, c0) = (Ok (actual, pos), (app, c))"
    using assms(3) by (auto simp: parse_command_def split: prod.splits res.splits)
  have st: "app_inv b app \<and> ok c" "set actual \<subseteq> f_Name ` set ?F"
    "\<And>f. f \<in> set ?F \<Longrightarrow> f_Name f \<notin> set actual \<Longrightarrow> f_String f (app, c) = f_String f (app0, c0)"
    using forwarding.parse_frame[OF fw command] app0(1) line0 by auto
  have same: "wrapper_SetFlags b c = ?F" "command_Name c = command_Name c0"
    using line st(1) unfolding line_inv_def by blast+
  then have list: "forwarded_list b globals actual c = forwarded_list b globals actual c0"
    by (simp add: forwarded_list_def)
  let ?fwd = "forwarded_list b globals actual c0"
  have "flag_parse (flag_lookup ?F) (map (flag_assign (app, c)) ?fwd @ ''--'' # pos) (initial_app dir', c0) =
      (Ok (map f_Name ?fwd, pos), (app, c))"
  proof (rule forwarding.forward[OF fw])
    show "set ?fwd \<subseteq> set ?F" by (rule forwarded_list_flags)
    fix f assume f: "f \<in> set ?F"
    show "f_String f (initial_app dir', c0) = f_String f (app, c) \<or>
        f \<in> set ?fwd \<and> (\<exists>t0. (case t0 of (a, d) \<Rightarrow> app_start a \<and> d = c0) \<and>
          f_String f (initial_app dir', c0) = f_String f t0)"
    proof (cases "f \<in> set ?fwd")
      case False
      then show ?thesis using not_forwarded[OF f False app0(3) st(3)[OF f], of dir'] by blast
    qed (use start in blast)
  qed (use st line0 in auto)
  then show ?thesis
    using forwarded_list_names[OF app0(2) st(2)] same(2) registered_commandD[OF assms(2)]
    by (simp add: parse_command_def forwarded_flags_list list)
qed

section \<open>Through the invoker\<close>

lemma env_ok_separator: "env_ok e \<Longrightarrow> e \<noteq> ''::''"
  by (auto simp: env_ok_def SplitEnv_def split_n2_no_sep)

lemma invoker_loop_env:
  "list_all env_ok es \<Longrightarrow> invoker_loop args acc (es @ ''::'' # rest) = Ok (rest, acc @ es)"
proof (induction es arbitrary: acc)
  case (Cons e es)
  then obtain n v where "SplitEnv e = Ok (n, v)" "IsWhitelisted n"
    by (auto simp: env_ok_def split: res.splits prod.splits)
  then show ?case using Cons env_ok_separator[of e] by simp
qed simp

text \<open>The invoker does not notice that the separator is missing: the entries become arguments.\<close>

lemma invoker_missing_separator:
  "list_all env_ok es \<Longrightarrow> invoker_loop args acc es = Ok (args, acc @ es)"
proof (induction es arbitrary: acc)
  case (Cons e es)
  then obtain n v where "SplitEnv e = Ok (n, v)" "IsWhitelisted n"
    by (auto simp: env_ok_def split: res.splits prod.splits)
  then show ?case using Cons env_ok_separator[of e] by simp
qed simp

lemma invoker_loop_ok:
  "invoker_loop args acc xs = Ok (rest, env) \<Longrightarrow> \<exists>es. env = acc @ es \<and> list_all env_ok es"
proof (induction args acc xs rule: invoker_loop.induct)
  case (2 args acc e xs)
  show ?case
  proof (cases "e = ''::''")
    case True
    then show ?thesis using 2 by (auto intro: exI[of _ "[]"])
  next
    case False
    then obtain n v where e: "SplitEnv e = Ok (n, v)" "IsWhitelisted n" "invoker_loop args (acc @ [e]) xs = Ok (rest, env)"
      using 2(2) by (auto simp: bind_res_Ok split: if_splits)
    from 2(1)[OF False e(2,3)] obtain es where "env = acc @ e # es" "list_all env_ok es"
      by auto
    moreover have "env_ok e" using e by (simp add: env_ok_def)
    ultimately show ?thesis by (auto intro: exI[of _ "e # es"])
  qed
qed auto

lemma or_fatal_Ok: "or_fatal m w = (Ok x, w') \<Longrightarrow> m w = (Ok x, w')"
  by (auto simp: or_fatal_def log_Fatal_def run_simps split: prod.splits res.splits)

lemma SplitEnv_outcome: "SplitEnv e \<noteq> Err x \<and> (SplitEnv e = Abort a \<longrightarrow> a = Panic ''index out of range'')"
  by (auto simp: SplitEnv_def split: list.splits)

lemma WhitelistedEnviron_outcome:
  "WhitelistedEnviron es \<noteq> Err x \<and> (WhitelistedEnviron es = Abort a \<longrightarrow> a = Panic ''index out of range'')"
proof (induction es)
  case (Cons e es)
  then show ?case using SplitEnv_outcome[of e] by (cases "SplitEnv e"; cases "WhitelistedEnviron es") auto
qed simp

lemma invoker_loop_outcome:
  "invoker_loop args acc xs \<noteq> Err x \<and>
   (invoker_loop args acc xs = Abort a \<longrightarrow> a = Panic ''index out of range'' \<or> a = Exited 1)"
proof (induction args acc xs rule: invoker_loop.induct)
  case (2 args acc e xs)
  then show ?case using SplitEnv_outcome[of e] by (cases "SplitEnv e") (auto split: if_splits)
qed simp

lemma install_path:
  "keeps same_os (getPathRelativeToInstallRoot exe subs)" "returns (getPathRelativeToInstallRoot exe subs)"
  unfolding getPathRelativeToInstallRoot_def Let_def
  by (auto intro!: same_os.keeps_all keeps_look returns_seq returns_lift_res simp: of_sum_def split: sum.splits)

lemma executable_path:
  "keeps same_os (GetPrivateExecutable b exe n)" "returns (GetPrivateExecutable b exe n)"
  "keeps same_os (GetMainExecutable b exe)" "returns (GetMainExecutable b exe)"
  unfolding GetPrivateExecutable_def GetMainExecutable_def by (rule install_path)+

lemma or_fatal_cases:
  assumes "returns m" and "keeps same_os m" and "or_fatal m w = (r, w')"
  shows "same_os w w' \<and> (r = Abort (Exited 1) \<or> (\<exists>x. r = Ok x \<and> m w = (Ok x, w')))"
  using assms returnsD[OF assms(1), of w] keepsD[OF assms(2), of w]
  by (auto simp: or_fatal_def log_Fatal_def run_simps split: prod.splits res.splits)

lemma privilegedReexec_effect:
  assumes "privilegedReexec ms globals actual app cmd args w = (r, w')"
  shows "same_os w w' \<and> (\<exists>a. r = Abort a) \<and> (\<forall>path argv env. r = Abort (Execed path argv env) \<longrightarrow>
    (\<exists>redirector invokerPath passed. choose_redirector (ms_build ms) app (environ w) = Ok redirector \<and>
       ms_LookPath ms redirector = Inr path \<and> WhitelistedEnviron (environ w) = Ok passed \<and> env = environ w \<and>
       argv = redirect_command (ms_build ms) redirector invokerPath passed globals actual app cmd args))"
proof -
  show ?thesis
  proof (cases "choose_redirector (ms_build ms) app (environ w)")
    case (Ok redirector)
    show ?thesis
    proof (cases "ms_LookPath ms redirector")
      case (Inr path)
      obtain ri w1 where inv: "or_fatal (GetPrivateExecutable (ms_build ms) (n_exe (ms_ns ms)) ''nsbox-invoker'') w = (ri, w1)"
        by fastforce
      note ci = or_fatal_cases[OF executable_path(2,1) inv]
      then show ?thesis
      proof (cases ri)
        case i: (Ok invokerPath)
        show ?thesis
          using assms Ok Inr inv i ci WhitelistedEnviron_outcome[of "environ w"]
          by (cases "WhitelistedEnviron (environ w)"; cases "ms_Exec ms path")
            (auto simp: privilegedReexec_def run_simps or_fatal_def exec_with_def log_Fatal_def)
      qed (use assms Ok Inr inv in \<open>auto simp: privilegedReexec_def run_simps or_fatal_def log_Fatal_def\<close>)
    qed (use assms Ok in \<open>auto simp: privilegedReexec_def run_simps or_fatal_def log_Fatal_def same_os.frame_refl\<close>)
  qed (use assms in \<open>auto simp: privilegedReexec_def run_simps choose_redirector_def same_os.frame_refl split: if_splits\<close>)
qed

lemma invoker_main_effect:
  assumes "invoker_main b exe failing argv w = (r, w')"
  shows "same_os w w' \<and> (\<exists>a. r = Abort a) \<and> (\<forall>path cmd env. r = Abort (Execed path cmd env) \<longrightarrow>
    3 \<le> length argv \<and> (\<exists>rest. rest \<noteq> [] \<and> invoker_loop (tl argv) (environ w) (tl argv) = Ok (rest, env) \<and>
       cmd = path # hd argv # rest))"
proof (cases "length argv < 3")
  case False
  show ?thesis
  proof (cases "invoker_loop (tl argv) (environ w) (tl argv)")
    case (Ok loop)
    obtain rest env where l: "loop = (rest, env)" by fastforce
    show ?thesis
    proof (cases "rest = []")
      case False
      obtain rn w1 where g: "or_fatal (GetMainExecutable b exe) w = (rn, w1)" by fastforce
      note cg = or_fatal_cases[OF executable_path(4,3) g]
      show ?thesis
      proof (cases rn)
        case n: (Ok nsbox)
        show ?thesis
          using assms \<open>\<not> length argv < 3\<close> Ok l False g n cg
          by (cases "failing nsbox") (auto simp: invoker_main_def Let_def run_simps exec_with_def log_Fatal_def)
      qed (use assms \<open>\<not> length argv < 3\<close> Ok l False g cg in \<open>auto simp: invoker_main_def Let_def run_simps\<close>)
    qed (use assms \<open>\<not> length argv < 3\<close> Ok l in \<open>auto simp: invoker_main_def Let_def run_simps log_Fatal_def same_os.frame_refl\<close>)
  next
    case (Abort a)
    then show ?thesis
      using assms False invoker_loop_outcome[of "tl argv" "environ w" "tl argv" _ a] by (auto simp: invoker_main_def Let_def run_simps same_os.frame_refl)
  qed (use invoker_loop_outcome in blast)
qed (use assms in \<open>auto simp: invoker_main_def log_Fatal_def run_simps same_os.frame_refl\<close>)

section \<open>Properties of the two programs together\<close>

lemma WhitelistedEnviron_equals: "WhitelistedEnviron es = Ok r \<Longrightarrow> e \<in> set es \<Longrightarrow> CHR ''='' \<in> set e"
proof (induction es arbitrary: r)
  case (Cons x es)
  then show ?case by (cases "CHR ''='' \<in> set x") (auto simp: bind_res_Ok SplitEnv_def split_n2_no_sep)
qed simp

lemma parse_back_globals:
  "parse_globals b (command_Name c # args) app = Ok ([], command_Name c # args, app)"
  by (simp add: parse_globals_def flag_parse_positional command_name_plain ret_def)

text \<open>
  C36: however a command was given to an unprivileged \<^verbatim>\<open>nsbox\<close>, the privileged one runs
  the same command with the same options: what \<^verbatim>\<open>pkexec\<close> or \<^verbatim>\<open>sudo\<close> is told to run is
  the invoker, and what the invoker executes (from any directory and with any
  environment of its own) parses to the same state of the program and of the command and
  the same positional arguments, with exactly the flags set that were given; besides,
  the new process gets the whitelisted part of the caller's environment.
\<close>

theorem reexec_same_command:
  assumes first: "parse_globals (ms_build ms) argv (initial_app dir) = Ok (globals, name # args, app0)"
      "registered_command name = Some c0"
      "parse_command (ms_build ms) c0 args app0 = Ok (actual, pos, app, c)"
    and reexec: "privilegedReexec ms globals actual app c pos w = (Abort (Execed path (redirector # invoker # rest) env), w1)"
    and invoke: "invoker_main (ms_build ms) exe failing rest v = (Abort (Execed nsbox (prog # argv2) env2), v1)"
  shows "redirector \<in> {''sudo'', ''pkexec''} \<and> prog = nsbox \<and>
    env2 = environ v @ filter env_ok (environ w) \<and>
    parse_globals (ms_build ms) argv2 (initial_app dir') = Ok ([], argv2, initial_app dir') \<and>
    (\<exists>args2 names. argv2 = name # args2 \<and>
       parse_command (ms_build ms) c0 args2 (initial_app dir') = Ok (names, pos, app, c) \<and>
       set names = insert ''workdir'' (set globals \<union> set actual))"
proof -
  let ?b = "ms_build ms"
  from privilegedReexec_effect[OF reexec] obtain passed where p:
    "choose_redirector ?b app (environ w) = Ok redirector" "WhitelistedEnviron (environ w) = Ok passed"
    "rest = command_Name c # passed @ ''::'' # forwarded_flags ?b globals actual app c @ ''--'' # pos"
    by (auto simp: redirect_command_def)
  have loop: "invoker_loop (tl rest) (environ v) (tl rest) =
      Ok (forwarded_flags ?b globals actual app c @ ''--'' # pos, environ v @ passed)"
    using invoker_loop_env[of passed "tl rest" "environ v"] WhitelistedEnviron_ok[OF p(2)] p(3) by simp
  have out: "prog = nsbox" "argv2 = command_Name c # forwarded_flags ?b globals actual app c @ ''--'' # pos"
    "env2 = environ v @ passed"
    using invoker_main_effect[OF invoke] loop p(3) by auto
  have passed: "passed = filter env_ok (environ w)"
    using WhitelistedEnviron_equals[OF p(2)] WhitelistedEnviron_filter p(2) by (simp add: list_all_iff)
  have "redirector \<in> {''sudo'', ''pkexec''}"
    using p(1) by (auto simp: choose_redirector_def split: if_splits)
  then show ?thesis
    using reexec_round_trip[OF first, of dir'] out passed parse_back_globals[of ?b c] by auto
qed

text \<open>
  C37: the invoker, which runs as root, hands to \<^verbatim>\<open>nsbox\<close> its own environment with
  whitelisted entries added and nothing else, and changes nothing on the machine.
\<close>

theorem invoker_environment:
  "case invoker_main b exe failing argv w of (r, w') \<Rightarrow> same_os w w' \<and> (\<exists>a. r = Abort a) \<and>
     (\<forall>path cmd env. r = Abort (Execed path cmd env) \<longrightarrow>
        (\<exists>es. env = environ w @ es \<and> list_all env_ok es))"
proof -
  obtain r w' where run: "invoker_main b exe failing argv w = (r, w')" by fastforce
  then show ?thesis using invoker_main_effect[OF run] invoker_loop_ok by fastforce
qed

lemma parse_command_Name:
  assumes "parse_command b c0 args app0 = Ok (actual, pos, app, c)"
  shows "command_Name c = command_Name c0"
proof -
  have run: "flag_parse (flag_lookup (wrapper_SetFlags b c0)) args (app0, c0) = (Ok (actual, pos), (app, c))"
    using assms by (auto simp: parse_command_def split: prod.splits res.splits)
  have "command_Name (snd (app, c)) = command_Name c0"
  proof (rule flag_parse_keeps[OF _ run])
    fix f v s s'
    assume f: "f \<in> set (wrapper_SetFlags b c0)" and s: "command_Name (snd s) = command_Name c0"
      and set_f: "f_Set f v s = (Ok (), s')"
    from f consider g where "f = lift_flag fst (\<lambda>x (a, c). (x, c)) g" | "f \<in> set (command_flags c0)"
      by (auto simp: wrapper_flags set_left)
    then show "command_Name (snd s') = command_Name c0"
    proof cases
      case 1
      then show ?thesis using s set_f by (auto split: prod.splits)
    next
      case 2
      then show ?thesis
        using set_f by (cases c0) (auto simp: command_flags_def right_flags_def split: prod.splits)
    qed
  qed simp
  then show ?thesis by simp
qed

lemma ParsePositional_Name: "command_ParsePositional cmd pos = Inr cmd' \<Longrightarrow> command_Name cmd' = command_Name cmd"
  by (cases cmd) (auto simp: expect1_def expect2_def split: sum.splits)

text \<open>
  C38: an unprivileged process never carries out a command that needs root: whatever its
  arguments, it ends with a usage error or is replaced or stopped before the command's
  own code runs, and the machine is as it was.
\<close>

theorem unprivileged_never_executes:
  assumes "proc_uid w \<noteq> 0" and "registered_command name = Some cmd" and "name \<noteq> ''version''"
    and "execute_command ms usrdata globals app cmd args w = (r, w')"
  shows "same_os w w' \<and> (r = Ok ExitUsageError \<or> (\<exists>a. r = Abort a))"
proof (cases "parse_command (ms_build ms) cmd args app")
  case (Ok parsed)
  obtain actual pos app' cmd' where p: "parsed = (actual, pos, app', cmd')" by (cases parsed)
  show ?thesis
  proof (cases "command_ParsePositional cmd' pos")
    case (Inr cmd'')
    have name: "command_Name cmd'' = name"
      using parse_command_Name[OF Ok[unfolded p]] ParsePositional_Name[OF Inr] registered_commandD[OF assms(2)] by simp
    obtain rp w1 where re: "privilegedReexec ms globals actual app' cmd'' pos w = (rp, w1)" by fastforce
    show ?thesis
      using assms(1,3,4) Ok p Inr name re privilegedReexec_effect[OF re]
      by (auto simp: execute_command_def PreexecHook_def commandNeedsRoot_def run_simps)
  qed (use assms(4) Ok p in \<open>auto simp: execute_command_def ret_def same_os.frame_refl\<close>)
qed (use assms(4) in \<open>auto simp: execute_command_def ret_def abort_def same_os.frame_refl\<close>)

end
