(* ===== verification/Varlink_Host.thy ===== *)
theory Varlink_Host
  imports Integration
begin

text \<open>
  \<^verbatim>\<open>internal/varlinkhost\<close>: what the daemon on the host does when \<^verbatim>\<open>nsbox-host\<close> calls
  it. The varlink library, which carries calls and replies, is a parameter: a handler
  is given the outcome of sending its reply.
\<close>

record varlink_call =
  vc_SdNotify :: "err option"
  vc_Reply :: "err option"

text \<open>The calls of \<^verbatim>\<open>dev.nsbox\<close>, handled on behalf of one container.\<close>

datatype varlink_method = NotifyStart_method | NotifyReloadExports_method

definition NotifyStart :: "varlink_call \<Rightarrow> unit io" where
  "NotifyStart call =
     seq (request ''SdNotify'' [''READY=1''] (vc_SdNotify call)) (\<lambda>_.
     request ''Reply'' [''NotifyStart''] (vc_Reply call))"

definition NotifyReloadExports :: "build \<Rightarrow> gtk \<Rightarrow> Container \<Rightarrow> varlink_call \<Rightarrow> unit io" where
  "NotifyReloadExports b g ct call =
     seq (UpdateDesktopFiles b g ct) (\<lambda>_.
     request ''Reply'' [''NotifyReloadExports''] (vc_Reply call))"

definition varlink_handle :: "build \<Rightarrow> gtk \<Rightarrow> Container \<Rightarrow> varlink_method \<Rightarrow> varlink_call \<Rightarrow> unit io" where
  "varlink_handle b g ct method call = (case method of
      NotifyStart_method \<Rightarrow> NotifyStart call
    | NotifyReloadExports_method \<Rightarrow> NotifyReloadExports b g ct call)"

text \<open>The container's start is announced to systemd before it is confirmed to the caller.\<close>

lemma NotifyStart_order:
  "NotifyStart call w = (Ok (), w') \<Longrightarrow>
     calls w' = calls w @ [(''SdNotify'', [''READY=1'']), (''Reply'', [''NotifyStart''])]"
  by (auto simp: NotifyStart_def run_simps request_def split: option.splits)

end
