(* ===== verification/Session_Events.thy ===== *)
theory Session_Events
  imports Session "HOL-Library.Sublist"
begin

text \<open>
  The concurrent part of \<^verbatim>\<open>EnterContainer\<close> (\<^verbatim>\<open>internal/session/enter.go\<close>): the terminal's raw
  mode, and the goroutines that relay signals to the session and copy the window's
  size. Between the steps of the function signals arrive and the goroutines run; a
  behaviour is a sequence of such events.
\<close>

section \<open>States and events\<close>

datatype os_signal = SIGINT | SIGTSTP | SIGQUIT | SIGHUP | SIGWINCH

text \<open>
  Where the function is: before and after the terminal is made raw, after the window
  size is followed, inside \<^verbatim>\<open>door.Enter\<close>, waiting, and unwinding its deferred calls.
\<close>

datatype session_phase =
    S_Start | S_Raw | S_Sized | S_Entering | S_Waiting
  | S_Stop_relay | S_Stop_size | S_Restore | S_Returned
  | S_Execed | S_Killed os_signal

record session_state =
  s_phase :: session_phase
  s_raw :: bool
  s_handle :: "sessionHandle option"
  s_relay_on :: bool
  s_size_on :: bool
  s_relaying :: "os_signal option"
  s_resizing :: bool
  s_sent :: "(os_signal \<times> string list) list"
  s_sizes :: "nat list"

definition session_start :: session_state where
  "session_start = \<lparr>s_phase = S_Start, s_raw = False, s_handle = None, s_relay_on = False,
     s_size_on = False, s_relaying = None, s_resizing = False, s_sent = [], s_sizes = []\<rparr>"

datatype session_event =
    Ev_MakeRaw bool
  | Ev_FollowSize
  | Ev_Relay
  | Ev_Entered sessionHandle
  | Ev_EnterFailed
  | Ev_Execed
  | Ev_Waited
  | Ev_Unwind
  | Ev_Signal os_signal
  | Ev_RelayDone
  | Ev_ResizeDone

text \<open>
  What a session is told: the process of \<^verbatim>\<open>nsenter\<close> gets the signal, the unit of a booted
  container is killed with \<^verbatim>\<open>systemctl\<close>, whatever the signal was.
\<close>

definition signal_name :: "os_signal \<Rightarrow> string" where
  "signal_name sig = (case sig of SIGINT \<Rightarrow> ''SIGINT'' | SIGTSTP \<Rightarrow> ''SIGTSTP'' | SIGQUIT \<Rightarrow> ''SIGQUIT''
     | SIGHUP \<Rightarrow> ''SIGHUP'' | SIGWINCH \<Rightarrow> ''SIGWINCH'')"

definition nsenter_Signal :: "os_signal \<Rightarrow> string list" where
  "nsenter_Signal sig = [''kill'', signal_name sig]"

definition systemd_Signal :: "string \<Rightarrow> string \<Rightarrow> os_signal \<Rightarrow> string list" where
  "systemd_Signal machineName serviceName sig =
     [''systemctl'', ''--machine='' @ machineName, ''kill'', serviceName]"

definition handle_Signal :: "string \<Rightarrow> sessionHandle \<Rightarrow> os_signal \<Rightarrow> string list" where
  "handle_Signal machineName handle sig = (case handle of
      NsenterSession \<Rightarrow> nsenter_Signal sig
    | SystemdSession serviceName \<Rightarrow> systemd_Signal machineName serviceName sig)"

text \<open>\<^verbatim>\<open>inheritSize\<close>: the size is taken from the first standard descriptor that is a terminal.\<close>

definition inheritSize :: "int \<Rightarrow> nat list" where
  "inheritSize ptyio =
     (case find (\<lambda>(fd, ptyFlag). flag_set ptyio ptyFlag) [(0, stdinPtyFlag), (1, stdoutPtyFlag), (2, stderrPtyFlag)] of
        Some (fd, _) \<Rightarrow> [fd]
      | None \<Rightarrow> [])"

section \<open>Steps\<close>

text \<open>The function's own steps.\<close>

fun main_step :: "int \<Rightarrow> session_state \<Rightarrow> session_event \<Rightarrow> session_state option" where
  "main_step ptyio s (Ev_MakeRaw ok) =
     (if s_phase s = S_Start \<and> ptyio \<noteq> 0 \<and> flag_set ptyio stdinPtyFlag
      then Some (s\<lparr>s_phase := S_Raw, s_raw := ok\<rparr>) else None)"
| "main_step ptyio s Ev_FollowSize =
     (if s_phase s = S_Raw \<or> s_phase s = S_Start \<and> ptyio \<noteq> 0 \<and> \<not> flag_set ptyio stdinPtyFlag
      then Some (s\<lparr>s_phase := S_Sized, s_size_on := True, s_sizes := s_sizes s @ inheritSize ptyio\<rparr>) else None)"
| "main_step ptyio s Ev_Relay =
     (if s_phase s = S_Sized \<or> s_phase s = S_Start \<and> ptyio = 0
      then Some (s\<lparr>s_phase := S_Entering, s_relay_on := True\<rparr>) else None)"
| "main_step ptyio s (Ev_Entered handle) =
     (if s_phase s = S_Entering then Some (s\<lparr>s_phase := S_Waiting, s_handle := Some handle\<rparr>) else None)"
| "main_step ptyio s Ev_EnterFailed =
     (if s_phase s = S_Entering then Some (s\<lparr>s_phase := S_Stop_relay\<rparr>) else None)"
| "main_step ptyio s Ev_Execed =
     (if s_phase s = S_Entering \<and> ptyio = 0 then Some (s\<lparr>s_phase := S_Execed\<rparr>) else None)"
| "main_step ptyio s Ev_Waited =
     (if s_phase s = S_Waiting then Some (s\<lparr>s_phase := S_Stop_relay\<rparr>) else None)"
| "main_step ptyio s Ev_Unwind =
     (case s_phase s of
        S_Stop_relay \<Rightarrow> Some (s\<lparr>s_relay_on := False, s_phase := (if ptyio \<noteq> 0 then S_Stop_size else S_Returned)\<rparr>)
      | S_Stop_size \<Rightarrow> Some (s\<lparr>s_size_on := False, s_phase := S_Restore\<rparr>)
      | S_Restore \<Rightarrow> Some (s\<lparr>s_raw := False, s_phase := S_Returned\<rparr>)
      | _ \<Rightarrow> None)"
| "main_step ptyio s _ = None"

definition process_gone :: "session_state \<Rightarrow> bool" where
  "process_gone s \<longleftrightarrow> (case s_phase s of S_Execed \<Rightarrow> True | S_Killed _ \<Rightarrow> True | S_Returned \<Rightarrow> True | _ \<Rightarrow> False)"

text \<open>
  A signal arrives. The channels have no buffer: a signal that comes while the goroutine
  is busy with another is lost. Without a channel the signal's default action applies;
  a stop (\<^verbatim>\<open>SIGTSTP\<close>) is taken to be continued at once.
\<close>

definition signal_step :: "session_state \<Rightarrow> os_signal \<Rightarrow> session_state" where
  "signal_step s sig =
     (if sig = SIGWINCH then
        if s_size_on s \<and> \<not> s_resizing s then s\<lparr>s_resizing := True\<rparr> else s
      else if s_relay_on s then
        if s_relaying s = None then s\<lparr>s_relaying := Some sig\<rparr> else s
      else if sig = SIGTSTP then s
      else s\<lparr>s_phase := S_Killed sig\<rparr>)"

definition relay_step :: "string \<Rightarrow> session_state \<Rightarrow> session_state option" where
  "relay_step machineName s = (case s_relaying s of
      None \<Rightarrow> None
    | Some sig \<Rightarrow> Some (s\<lparr>s_relaying := None,
        s_sent := (case s_handle s of
            Some handle \<Rightarrow> s_sent s @ [(sig, handle_Signal machineName handle sig)]
          | None \<Rightarrow> s_sent s)\<rparr>))"

definition session_step :: "string \<Rightarrow> int \<Rightarrow> session_state \<Rightarrow> session_event \<Rightarrow> session_state option" where
  "session_step machineName ptyio s e =
     (if process_gone s then None
      else case e of
        Ev_Signal sig \<Rightarrow> Some (signal_step s sig)
      | Ev_RelayDone \<Rightarrow> relay_step machineName s
      | Ev_ResizeDone \<Rightarrow>
          if s_resizing s then Some (s\<lparr>s_resizing := False, s_sizes := s_sizes s @ inheritSize ptyio\<rparr>) else None
      | _ \<Rightarrow> main_step ptyio s e)"

inductive session_run :: "string \<Rightarrow> int \<Rightarrow> session_event list \<Rightarrow> session_state \<Rightarrow> bool"
  for machineName ptyio where
  run_start: "session_run machineName ptyio [] session_start"
| run_step: "session_run machineName ptyio evs s \<Longrightarrow> session_step machineName ptyio s e = Some s' \<Longrightarrow>
    session_run machineName ptyio (evs @ [e]) s'"

text \<open>The signals for the session, in the order of their arrival.\<close>

fun arrived :: "session_event list \<Rightarrow> os_signal list" where
  "arrived [] = []"
| "arrived (Ev_Signal sig # evs) = (if sig = SIGWINCH then arrived evs else sig # arrived evs)"
| "arrived (_ # evs) = arrived evs"

section \<open>The invariant\<close>

definition pending :: "session_state \<Rightarrow> os_signal list" where
  "pending s = (case s_relaying s of Some sig \<Rightarrow> [sig] | None \<Rightarrow> [])"

text \<open>What the phase says of the terminal, the channels and the session.\<close>

definition phase_inv :: "int \<Rightarrow> session_state \<Rightarrow> bool" where
  "phase_inv ptyio s \<longleftrightarrow>
     (s_raw s \<longrightarrow> ptyio \<noteq> 0 \<and> s_phase s \<notin> {S_Start, S_Returned, S_Execed}) \<and>
     (s_phase s \<in> {S_Raw, S_Sized, S_Stop_size, S_Restore} \<longrightarrow> ptyio \<noteq> 0) \<and>
     (s_phase s \<in> {S_Start, S_Raw, S_Sized} \<longrightarrow> \<not> s_relay_on s) \<and>
     (s_phase s \<in> {S_Entering, S_Waiting, S_Stop_relay} \<longrightarrow> s_relay_on s) \<and>
     (s_phase s = S_Waiting \<longrightarrow> s_handle s \<noteq> None) \<and>
     (s_phase s \<in> {S_Start, S_Raw, S_Sized, S_Entering} \<longrightarrow> s_handle s = None)"

text \<open>What was relayed, in order, is a subsequence of what arrived, and went to the session.\<close>

definition sent_inv :: "string \<Rightarrow> session_event list \<Rightarrow> session_state \<Rightarrow> bool" where
  "sent_inv machineName evs s \<longleftrightarrow>
     subseq (map fst (s_sent s) @ pending s) (arrived evs) \<and>
     (\<forall>(sig, req)\<in>set (s_sent s). \<exists>handle. s_handle s = Some handle \<and> req = handle_Signal machineName handle sig)"

lemma sent_inv_none: "sent_inv machineName evs s \<Longrightarrow> s_handle s = None \<Longrightarrow> s_sent s = []"
  by (cases "s_sent s") (auto simp: sent_inv_def)

lemma arrived_append: "arrived (evs @ evs') = arrived evs @ arrived evs'"
  by (induction evs rule: arrived.induct) auto

lemma main_step_arrived: "main_step ptyio s e = Some s' \<Longrightarrow> arrived (evs @ [e]) = arrived evs"
  by (cases e) (auto simp: arrived_append)

lemma main_step_sent: "main_step ptyio s e = Some s' \<Longrightarrow> s_sent s' = s_sent s \<and> pending s' = pending s"
  by (cases e) (auto simp: pending_def split: if_splits session_phase.splits)

lemma main_step_handle: "main_step ptyio s e = Some s' \<Longrightarrow> phase_inv ptyio s \<Longrightarrow> s_handle s = None \<or> s_handle s' = s_handle s"
  by (cases e) (auto simp: phase_inv_def split: if_splits session_phase.splits)

lemma main_step_phase: "main_step ptyio s e = Some s' \<Longrightarrow> phase_inv ptyio s \<Longrightarrow> phase_inv ptyio s'"
  by (cases e; cases "s_phase s") (simp_all add: phase_inv_def split: if_splits, auto)

lemma session_step_cases:
  assumes "session_step machineName ptyio s e = Some s'"
  obtains (signal) sig where "e = Ev_Signal sig" "s' = signal_step s sig"
  | (relay) "e = Ev_RelayDone" "relay_step machineName s = Some s'"
  | (resize) "e = Ev_ResizeDone" "s' = s\<lparr>s_resizing := False, s_sizes := s_sizes s @ inheritSize ptyio\<rparr>"
  | (main) "main_step ptyio s e = Some s'"
  using assms by (cases e) (auto simp: session_step_def split: if_splits)

lemma signal_step_sent:
  "s_sent (signal_step s sig) = s_sent s" "s_handle (signal_step s sig) = s_handle s"
  "pending (signal_step s sig) = pending s \<or>
     pending s = [] \<and> sig \<noteq> SIGWINCH \<and> pending (signal_step s sig) = [sig]"
  by (auto simp: signal_step_def pending_def)

lemma signal_step_phase:
  "(s_raw (signal_step s sig) = s_raw s \<and> s_handle (signal_step s sig) = s_handle s \<and>
      s_relay_on (signal_step s sig) = s_relay_on s \<and> s_phase (signal_step s sig) = s_phase s) \<or>
   signal_step s sig = s\<lparr>s_phase := S_Killed sig\<rparr>"
  by (auto simp: signal_step_def)

lemma session_inv_step:
  assumes "session_step machineName ptyio s e = Some s'" and p: "phase_inv ptyio s" and q: "sent_inv machineName evs s"
  shows "phase_inv ptyio s' \<and> sent_inv machineName (evs @ [e]) s'"
  using assms(1)
proof (cases rule: session_step_cases)
  case (signal sig)
  have "phase_inv ptyio s'"
    using p signal_step_phase[of s sig] unfolding signal(2) phase_inv_def by (elim disjE) simp_all
  moreover have "subseq (map fst (s_sent s) @ pending s') (arrived evs @ arrived [Ev_Signal sig])"
    using signal_step_sent(3)[of s sig]
  proof
    assume "pending (signal_step s sig) = pending s"
    then show ?thesis
      using q list_emb_append_mono[of "(=)" _ "arrived evs" "[]" "arrived [Ev_Signal sig]"]
      by (simp add: sent_inv_def signal(2))
  next
    assume "pending s = [] \<and> sig \<noteq> SIGWINCH \<and> pending (signal_step s sig) = [sig]"
    then show ?thesis
      using q list_emb_append_mono[of "(=)" "map fst (s_sent s)" "arrived evs" "[sig]" "[sig]"]
      by (simp add: sent_inv_def signal(2))
  qed
  ultimately show ?thesis
    using q signal_step_sent(1,2)[of s sig] unfolding signal by (simp add: sent_inv_def arrived_append)
next
  case relay
  then obtain sig where sig: "s_relaying s = Some sig"
    and s': "s' = s\<lparr>s_relaying := None, s_sent := (case s_handle s of
        Some handle \<Rightarrow> s_sent s @ [(sig, handle_Signal machineName handle sig)] | None \<Rightarrow> s_sent s)\<rparr>"
    by (auto simp: relay_step_def split: option.splits)
  have sub: "subseq (map fst (s_sent s) @ [sig]) (arrived evs)" using q sig by (simp add: sent_inv_def pending_def)
  have "phase_inv ptyio s'" using p unfolding s' phase_inv_def by simp
  moreover have "sent_inv machineName evs s'"
  proof (cases "s_handle s")
    case None
    have "subseq (map fst (s_sent s)) (arrived evs)"
      by (rule subseq_order.trans[OF _ sub]) (rule prefix_imp_subseq, simp)
    then show ?thesis using q None unfolding s' sent_inv_def by (simp add: pending_def)
  next
    case (Some handle)
    then show ?thesis using q sub unfolding s' sent_inv_def by (auto simp: pending_def)
  qed
  ultimately show ?thesis using relay(1) by (simp add: sent_inv_def arrived_append)
next
  case resize
  then show ?thesis using p q by (simp add: phase_inv_def sent_inv_def pending_def arrived_append)
next
  case main
  have "s_handle s = None \<longrightarrow> s_sent s = []" using sent_inv_none[OF q] by blast
  then show ?thesis
    using main_step_phase[OF main p] main_step_sent[OF main] main_step_handle[OF main p] main_step_arrived[OF main] q
    by (auto simp: sent_inv_def)
qed

lemma session_run_inv:
  "session_run machineName ptyio evs s \<Longrightarrow> phase_inv ptyio s \<and> sent_inv machineName evs s"
proof (induction rule: session_run.induct)
  case run_start
  show ?case by (simp add: phase_inv_def sent_inv_def pending_def session_start_def)
next
  case (run_step evs s e s')
  then show ?case using session_inv_step by blast
qed

section \<open>Properties\<close>


text \<open>The function's next steps from any point of its way.\<close>

fun way_out :: "int \<Rightarrow> session_phase \<Rightarrow> session_event list" where
  "way_out ptyio S_Start = (if ptyio = 0 then [Ev_Relay]
     else (if flag_set ptyio stdinPtyFlag then [Ev_MakeRaw True] else []) @ [Ev_FollowSize, Ev_Relay]) @
     [Ev_EnterFailed, Ev_Unwind] @ (if ptyio = 0 then [] else [Ev_Unwind, Ev_Unwind])"
| "way_out ptyio S_Raw = [Ev_FollowSize, Ev_Relay, Ev_EnterFailed, Ev_Unwind, Ev_Unwind, Ev_Unwind]"
| "way_out ptyio S_Sized = [Ev_Relay, Ev_EnterFailed, Ev_Unwind, Ev_Unwind, Ev_Unwind]"
| "way_out ptyio S_Entering = [Ev_EnterFailed, Ev_Unwind] @ (if ptyio = 0 then [] else [Ev_Unwind, Ev_Unwind])"
| "way_out ptyio S_Waiting = [Ev_Waited, Ev_Unwind] @ (if ptyio = 0 then [] else [Ev_Unwind, Ev_Unwind])"
| "way_out ptyio S_Stop_relay = [Ev_Unwind] @ (if ptyio = 0 then [] else [Ev_Unwind, Ev_Unwind])"
| "way_out ptyio S_Stop_size = [Ev_Unwind, Ev_Unwind]"
| "way_out ptyio S_Restore = [Ev_Unwind]"
| "way_out ptyio _ = []"

primrec session_steps :: "string \<Rightarrow> int \<Rightarrow> session_state \<Rightarrow> session_event list \<Rightarrow> session_state option" where
  "session_steps machineName ptyio s [] = Some s"
| "session_steps machineName ptyio s (e # es) = (case session_step machineName ptyio s e of
      None \<Rightarrow> None | Some s' \<Rightarrow> session_steps machineName ptyio s' es)"

lemma session_run_steps:
  "session_run machineName ptyio evs s \<Longrightarrow> session_steps machineName ptyio s es = Some s' \<Longrightarrow>
     session_run machineName ptyio (evs @ es) s'"
proof (induction es arbitrary: evs s)
  case (Cons e es)
  then obtain t where "session_step machineName ptyio s e = Some t" "session_steps machineName ptyio t es = Some s'"
    by (auto split: option.splits)
  then show ?case using Cons.IH[OF run_step[OF Cons.prems(1)]] by simp
qed simp

lemma way_out_returns:
  assumes "phase_inv ptyio s" and "\<not> process_gone s"
  shows "\<exists>s'. session_steps machineName ptyio s (way_out ptyio (s_phase s)) = Some s' \<and> s_phase s' = S_Returned"
  using assms
  by (cases "s_phase s") (simp_all add: session_step_def process_gone_def phase_inv_def)


text \<open>
  The channel the signals come through has no buffer, and \<^verbatim>\<open>os/signal\<close> does not wait for a
  receiver: a second signal that arrives while the first is being passed on is lost.
\<close>

lemma signal_lost_while_busy:
  "s_relay_on s \<Longrightarrow> s_relaying s = Some sig' \<Longrightarrow> sig \<noteq> SIGWINCH \<Longrightarrow> signal_step s sig = s"
  by (simp add: signal_step_def)

text \<open>A booted container's session gets the same request for every signal.\<close>

lemma systemd_Signal_ignores_signal:
  "handle_Signal machineName (SystemdSession service) sig = handle_Signal machineName (SystemdSession service) sig'"
  by (simp add: handle_Signal_def systemd_Signal_def)

end
