(* ===== verification/Lock_Protocol.thy ===== *)
theory Lock_Protocol
  imports Container_Locks
begin

text \<open>
  Several processes and one container. Each process runs the operations of
  \<^verbatim>\<open>internal/container\<close> on its own view of the machine; they share the disk and the
  table of locks. The protocol refines a table that says for each level who holds it.
\<close>

section \<open>The machine\<close>

record machine =
  m_disk :: disk
  m_ino :: nat
  m_locks :: "nat \<Rightarrow> (nat \<times> nat) option"
  m_procs :: "nat \<Rightarrow> world"
  m_held :: "nat \<Rightarrow> (LockLevel \<times> nat) list"

definition seen_by :: "nat \<Rightarrow> nat \<times> nat \<Rightarrow> holder" where
  "seen_by p = (\<lambda>(q, fd). if q = p then Mine fd else Theirs q)"

definition view :: "nat \<Rightarrow> machine \<Rightarrow> world" where
  "view p m = (m_procs m p)\<lparr>disk := m_disk m, next_ino := m_ino m,
     flocks := (\<lambda>n. map_option (seen_by p) (m_locks m n))\<rparr>"

definition absorb :: "nat \<Rightarrow> world \<Rightarrow> machine \<Rightarrow> machine" where
  "absorb p w m = m\<lparr>m_disk := disk w, m_ino := next_ino w,
     m_locks := (\<lambda>n. case flocks w n of
        None \<Rightarrow> None
      | Some (Mine fd) \<Rightarrow> Some (p, fd)
      | Some (Theirs q) \<Rightarrow> m_locks m n),
     m_procs := (m_procs m)(p := w)\<rparr>"

text \<open>What happens: a level is granted or refused, levels are released, a process ends.\<close>

datatype lock_event =
    Granted nat LockLevel
  | Refused nat LockLevel
  | Released nat "LockLevel list"
  | Ended nat

text \<open>
  A process that would have to wait makes no step until the lock is free. When a process
  ends, the kernel closes its descriptors, which gives its locks up.
\<close>

inductive lock_step :: "Container \<Rightarrow> machine \<Rightarrow> lock_event \<Rightarrow> machine \<Rightarrow> bool" for ct where
  granted: "lock_level ct level wait (view p m) = (Ok fd, w) \<Longrightarrow>
    lock_step ct m (Granted p level)
      ((absorb p w m)\<lparr>m_held := (m_held m)(p := m_held m p @ [(level, fd)])\<rparr>)"
| refused: "lock_level ct level wait (view p m) = (Err e, w) \<Longrightarrow>
    lock_step ct m (Refused p level) (absorb p w m)"
| released: "Release (map snd (filter (\<lambda>(l, _). l \<in> set levels) (m_held m p))) (view p m) = (Ok (), w) \<Longrightarrow>
    lock_step ct m (Released p levels)
      ((absorb p w m)\<lparr>m_held := (m_held m)(p := filter (\<lambda>(l, _). l \<notin> set levels) (m_held m p))\<rparr>)"
| ended: "lock_step ct m (Ended p)
      (m\<lparr>m_locks := (\<lambda>n. case m_locks m n of Some (q, fd) \<Rightarrow> if q = p then None else Some (q, fd) | None \<Rightarrow> None),
         m_procs := (m_procs m)(p := (m_procs m p)\<lparr>fds := (\<lambda>_. None)\<rparr>),
         m_held := (m_held m)(p := [])\<rparr>)"

inductive_cases lock_stepE: "lock_step ct m e m'"

inductive lock_run :: "Container \<Rightarrow> machine \<Rightarrow> lock_event list \<Rightarrow> machine \<Rightarrow> bool" for ct m where
  run_nil: "lock_run ct m [] m"
| run_snoc: "lock_run ct m es m' \<Longrightarrow> lock_step ct m' e m'' \<Longrightarrow> lock_run ct m (es @ [e]) m''"

section \<open>The table\<close>

type_synonym lock_table = "LockLevel \<Rightarrow> nat option"

inductive table_step :: "lock_table \<Rightarrow> lock_event \<Rightarrow> lock_table \<Rightarrow> bool" where
  table_granted: "t level = None \<Longrightarrow> table_step t (Granted p level) (t(level := Some p))"
| table_refused: "table_step t (Refused p level) t"
| table_released: "table_step t (Released p levels) (\<lambda>l. if l \<in> set levels \<and> t l = Some p then None else t l)"
| table_ended: "table_step t (Ended p) (\<lambda>l. if t l = Some p then None else t l)"

inductive table_run :: "lock_table \<Rightarrow> lock_event list \<Rightarrow> lock_table \<Rightarrow> bool" for t where
  table_nil: "table_run t [] t"
| table_snoc: "table_run t es t' \<Longrightarrow> table_step t' e t'' \<Longrightarrow> table_run t (es @ [e]) t''"

text \<open>Who holds the lock file of a level, and through which descriptor.\<close>

definition lock_owner :: "loc \<Rightarrow> machine \<Rightarrow> LockLevel \<Rightarrow> (nat \<times> nat) option" where
  "lock_owner cs m level = (case fs_get (m_disk m) (lock_loc cs level) of
      None \<Rightarrow> None
    | Some i \<Rightarrow> m_locks m (i_ino i))"

definition table_of :: "loc \<Rightarrow> machine \<Rightarrow> lock_table" where
  "table_of cs m level = map_option fst (lock_owner cs m level)"

section \<open>What holds of every state\<close>

definition files_ok :: "loc \<Rightarrow> machine \<Rightarrow> bool" where
  "files_ok cs m \<longleftrightarrow>
     (\<forall>q i. fs_get (m_disk m) q = Some i \<longrightarrow> i_ino i < m_ino m) \<and>
     (\<forall>a b i j. fs_get (m_disk m) (lock_loc cs a) = Some i \<longrightarrow> fs_get (m_disk m) (lock_loc cs b) = Some j \<longrightarrow>
        i_ino i = i_ino j \<longrightarrow> a = b) \<and>
     (\<forall>n. m_locks m n \<noteq> None \<longrightarrow> n < m_ino m)"

text \<open>The levels a process was granted are the ones its descriptors hold.\<close>

definition held_ok :: "loc \<Rightarrow> machine \<Rightarrow> bool" where
  "held_ok cs m \<longleftrightarrow> (\<forall>p. distinct (map fst (m_held m p)) \<and>
     (\<forall>level fd. (level, fd) \<in> set (m_held m p) \<longleftrightarrow> lock_owner cs m level = Some (p, fd)))"

definition machine_ok :: "Container \<Rightarrow> loc \<Rightarrow> machine \<Rightarrow> bool" where
  "machine_ok ct cs m \<longleftrightarrow> (\<forall>p. lockable ct cs (view p m) \<and> fds_ok (view p m)) \<and> files_ok cs m \<and> held_ok cs m"

section \<open>Views\<close>

lemma view_fields [simp]:
  "disk (view p m) = m_disk m" "next_ino (view p m) = m_ino m"
  "flocks (view p m) n = map_option (seen_by p) (m_locks m n)" "fds (view p m) = fds (m_procs m p)"
  "next_fd (view p m) = next_fd (m_procs m p)" "cwd (view p m) = cwd (m_procs m p)"
  by (simp_all add: view_def)

lemma seen_by_simps [simp]:
  "seen_by p x = Mine fd \<longleftrightarrow> x = (p, fd)" "seen_by p x = Theirs q \<longleftrightarrow> q \<noteq> p \<and> fst x = q"
  by (auto simp: seen_by_def split: prod.splits)

text \<open>What an operation leaves of the locks of others.\<close>

definition leaves_theirs :: "nat \<Rightarrow> machine \<Rightarrow> world \<Rightarrow> bool" where
  "leaves_theirs p m w \<longleftrightarrow> (\<forall>n q. flocks w n = Some (Theirs q) \<longrightarrow> flocks (view p m) n = Some (Theirs q))"

lemma absorb_locks:
  assumes "leaves_theirs p m w"
  shows "m_locks (absorb p w m) n = (case flocks w n of None \<Rightarrow> None | Some (Mine fd) \<Rightarrow> Some (p, fd)
      | Some (Theirs q) \<Rightarrow> m_locks m n)"
    "m_locks (absorb p w m) n = Some (p, fd) \<longleftrightarrow> flocks w n = Some (Mine fd)"
    "q \<noteq> p \<Longrightarrow> m_locks (absorb p w m) n = Some (q, fd) \<Longrightarrow> m_locks m n = Some (q, fd)"
proof -
  have others: "m_locks m n \<noteq> Some (p, fd)" if "flocks w n = Some (Theirs q)" for q
    using assms that by (fastforce simp: leaves_theirs_def)
  show "m_locks (absorb p w m) n = (case flocks w n of None \<Rightarrow> None | Some (Mine fd) \<Rightarrow> Some (p, fd)
      | Some (Theirs q) \<Rightarrow> m_locks m n)"
    by (simp add: absorb_def)
  show "m_locks (absorb p w m) n = Some (p, fd) \<longleftrightarrow> flocks w n = Some (Mine fd)"
    using others by (auto simp: absorb_def split: option.splits holder.splits)
  show "q \<noteq> p \<Longrightarrow> m_locks (absorb p w m) n = Some (q, fd) \<Longrightarrow> m_locks m n = Some (q, fd)"
    by (auto simp: absorb_def split: option.splits holder.splits)
qed

lemma absorb_fields [simp]:
  "m_disk (absorb p w m) = disk w" "m_ino (absorb p w m) = next_ino w" "m_held (absorb p w m) = m_held m"
  "m_procs (absorb p w m) = (m_procs m)(p := w)"
  by (simp_all add: absorb_def)

lemma view_held [simp]: "view p (m\<lparr>m_held := h\<rparr>) = view p m"
  by (simp add: view_def)

lemma absorb_views:
  assumes "machine_ok ct cs m" and "leaves_theirs p m w" and "lockable ct cs w" and "fds_ok w"
  shows "lockable ct cs (view q (absorb p w m)) \<and> fds_ok (view q (absorb p w m))"
proof
  show "lockable ct cs (view q (absorb p w m))" by (rule lockable_same_disk[OF assms(3)]) simp
  have o: "fds_ok (view q m)" using assms(1) by (simp add: machine_ok_def)
  show "fds_ok (view q (absorb p w m))"
  proof (cases "q = p")
    case True
    then show ?thesis using assms(4) absorb_locks(2)[OF assms(2)] by (auto simp: fds_ok_def)
  next
    case False
    then show ?thesis using o absorb_locks(3)[OF assms(2) False] by (auto simp: fds_ok_def)
  qed
qed

section \<open>New files\<close>

text \<open>Every file is an old one or has a number that was not in use.\<close>

definition grows :: "world \<Rightarrow> world \<Rightarrow> bool" where
  "grows w w' \<longleftrightarrow> next_ino w \<le> next_ino w' \<and>
     (\<forall>q i. fs_get (disk w') q = Some i \<longrightarrow>
        (\<exists>j. fs_get (disk w) q = Some j \<and> i_ino j = i_ino i) \<or> next_ino w \<le> i_ino i \<and> i_ino i < next_ino w')"

interpretation grows: frame grows
proof unfold_locales
  show "grows s s" for s by (simp add: grows_def)
  show "grows s u" if st: "grows s t" and tu: "grows t u" for s t u
    unfolding grows_def
  proof (intro conjI allI impI)
    show "next_ino s \<le> next_ino u" using st tu by (auto simp: grows_def)
    fix q i assume "fs_get (disk u) q = Some i"
    then consider (old) j where "fs_get (disk t) q = Some j" "i_ino j = i_ino i"
      | (new) "next_ino t \<le> i_ino i" "i_ino i < next_ino u"
      using tu unfolding grows_def by blast
    then show "(\<exists>j. fs_get (disk s) q = Some j \<and> i_ino j = i_ino i) \<or> next_ino s \<le> i_ino i \<and> i_ino i < next_ino u"
    proof cases
      case old
      then have "(\<exists>k. fs_get (disk s) q = Some k \<and> i_ino k = i_ino j) \<or> next_ino s \<le> i_ino j \<and> i_ino j < next_ino t"
        using st unfolding grows_def by blast
      then show ?thesis using old tu unfolding grows_def by auto
    next
      case new
      then show ?thesis using st unfolding grows_def by auto
    qed
  qed
qed

lemma grows_nodes:
  "grows w (put_node q k md w)"
  "node_at w q = Some i \<Longrightarrow> \<not> is_dir i \<Longrightarrow> grows w (set_node q (i\<lparr>i_kind := k\<rparr>) w)"
proof -
  show "grows w (put_node q k md w)"
    unfolding grows_def put_node_def by (simp add: disk.get_put)
  assume a: "node_at w q = Some i" "\<not> is_dir i"
  then have "fs_get (disk w) q = Some i"
    by (cases "q = []") (auto simp: node_at_def root_inode_def is_dir_def)
  then show "grows w (set_node q (i\<lparr>i_kind := k\<rparr>) w)"
    unfolding grows_def set_node_def by (simp add: disk.get_put)
qed

lemma grows_same: "disk w' = disk w \<Longrightarrow> next_ino w' = next_ino w \<Longrightarrow> grows w w'"
  by (simp add: grows_def)

lemma keeps_grows_sys: "keeps grows m \<Longrightarrow> keeps grows (sys m)"
proof (rule keepsI)
  fix s r t assume k: "keeps grows m" and run: "sys m s = (r, t)"
  have tick: "grows s (s\<lparr>tick := n\<rparr>)" for n by (simp add: grows_same)
  show "grows s t"
  proof (cases "fault s (tick s)")
    case None
    then show ?thesis using run grows.frame_trans[OF tick keepsD[OF k]] by (simp add: sys_def Let_def)
  qed (use run tick in \<open>auto simp: sys_def Let_def\<close>)
qed

lemma keeps_grows_locking:
  "keeps grows (os_Create p)" "keeps grows (unix_Open p dd)" "keeps grows (unix_Flock fd nb)"
proof -
  show "keeps grows (os_Create p)"
    unfolding os_Create_def
    by (rule keeps_grows_sys) (auto simp: keeps_def at_path_def grows_nodes grows.frame_refl is_dir_def
      split: sum.splits option.splits kind.splits)
  show "keeps grows (unix_Open p dd)" "keeps grows (unix_Flock fd nb)"
    unfolding unix_Open_def unix_Flock_def
    by (rule keeps_grows_sys; auto simp: keeps_def at_path_def grows_same
      split: sum.splits option.splits if_splits)+
qed

lemma keeps_grows_lock_level: "keeps grows (lock_level ct level wait)"
  unfolding lock_level_def Let_def
  by (auto intro!: grows.keeps_all keeps_grows_locking)

section \<open>Steps\<close>

lemma old_or_new:
  assumes "files_ok cs m" and "grows (view p m) w" and "same_but_lock cs level (view p m) w"
    and "fs_get (disk w) (lock_loc cs l) = Some i"
  shows "(\<exists>j. fs_get (m_disk m) (lock_loc cs l) = Some j \<and> i_ino j = i_ino i) \<or>
    l = level \<and> fs_get (m_disk m) (lock_loc cs l) = None \<and> m_ino m \<le> i_ino i"
proof (cases "fs_get (m_disk m) (lock_loc cs l)")
  case None
  have "l = level"
  proof (rule ccontr)
    assume "l \<noteq> level"
    then have "fs_get (disk w) (lock_loc cs l) = fs_get (m_disk m) (lock_loc cs l)"
      using assms(3) by (simp add: same_but_lock_def)
    then show False using None assms(4) by simp
  qed
  moreover have "m_ino m \<le> i_ino i"
    using assms(2,4) None unfolding grows_def by fastforce
  ultimately show ?thesis using None by simp
next
  case (Some j)
  have "i_ino j = i_ino i"
  proof (cases "l = level")
    case True
    then show ?thesis using assms(3,4) Some by (auto simp: same_but_lock_def)
  next
    case False
    then show ?thesis using assms(3,4) Some by (simp add: same_but_lock_def)
  qed
  then show ?thesis using Some by blast
qed

lemma old_kept:
  assumes "same_but_lock cs level (view p m) w" and "fs_get (m_disk m) (lock_loc cs l) = Some j"
  shows "\<exists>i. fs_get (disk w) (lock_loc cs l) = Some i \<and> i_ino i = i_ino j"
  using assms by (cases "l = level") (auto simp: same_but_lock_def)

lemma files_ok_step:
  assumes ok: "files_ok cs m" and g: "grows (view p m) w" and s: "same_but_lock cs level (view p m) w"
    and d: "m_disk m' = disk w" "m_ino m' = next_ino w"
    and lk: "\<And>n. m_locks m' n \<noteq> None \<Longrightarrow> m_locks m n \<noteq> None \<or> (\<exists>q i. fs_get (disk w) q = Some i \<and> i_ino i = n)"
  shows "files_ok cs m'"
proof -
  have old: "m_ino m \<le> next_ino w" using g by (simp add: grows_def)
  have below: "i_ino i < next_ino w" if "fs_get (disk w) q = Some i" for q i
  proof -
    have "(\<exists>j. fs_get (m_disk m) q = Some j \<and> i_ino j = i_ino i) \<or> i_ino i < next_ino w"
      using g that by (auto simp: grows_def)
    moreover have "i_ino j < next_ino w" if "fs_get (m_disk m) q = Some j" for j
      using ok old that unfolding files_ok_def by (blast intro: less_le_trans)
    ultimately show ?thesis by auto
  qed
  have "a = b" if "fs_get (disk w) (lock_loc cs a) = Some i" "fs_get (disk w) (lock_loc cs b) = Some j"
    "i_ino i = i_ino j" for a b i j
    using old_or_new[OF ok g s that(1)] old_or_new[OF ok g s that(2)] that(3) ok
    unfolding files_ok_def by (metis leD)
  moreover have "n < next_ino w" if "m_locks m' n \<noteq> None" for n
  proof -
    have "n < m_ino m \<or> n < next_ino w"
      using lk[OF that] ok below by (auto simp: files_ok_def)
    then show ?thesis using old by linarith
  qed
  ultimately show ?thesis using below d by (auto simp: files_ok_def)
qed

lemma owner_step:
  assumes ok: "files_ok cs m" and g: "grows (view p m) w" and s: "same_but_lock cs level (view p m) w"
    and d: "m_disk m' = disk w" and lk: "m_locks m' = m_locks m"
  shows "lock_owner cs m' l = lock_owner cs m l"
proof (cases "fs_get (disk w) (lock_loc cs l)")
  case None
  then have "fs_get (m_disk m) (lock_loc cs l) = None"
    using old_kept[OF s, of l] by (cases "fs_get (m_disk m) (lock_loc cs l)") auto
  then show ?thesis using None by (simp add: lock_owner_def d)
next
  case (Some i)
  show ?thesis
    using old_or_new[OF ok g s Some]
  proof (elim disjE exE conjE)
    fix j assume "fs_get (m_disk m) (lock_loc cs l) = Some j" "i_ino j = i_ino i"
    then show ?thesis using Some by (simp add: lock_owner_def d lk)
  next
    assume new: "fs_get (m_disk m) (lock_loc cs l) = None" "m_ino m \<le> i_ino i"
    then have "m_locks m (i_ino i) = None"
      using ok unfolding files_ok_def by (metis leD)
    then show ?thesis using Some new by (simp add: lock_owner_def d lk)
  qed
qed

lemma leaves_theirs_same: "flocks w = flocks (view p m) \<Longrightarrow> leaves_theirs p m w"
  by (simp add: leaves_theirs_def)

lemma absorb_same_locks: "flocks w = flocks (view p m) \<Longrightarrow> m_locks (absorb p w m) = m_locks m"
proof (rule ext)
  fix n assume "flocks w = flocks (view p m)"
  then show "m_locks (absorb p w m) n = m_locks m n"
    by (cases "m_locks m n") (auto simp: absorb_def seen_by_def split: prod.splits)
qed

lemma lockable_level:
  assumes "lockable ct cs w" and "same_but_lock cs level w w'"
  shows "lockable ct cs w'"
proof (cases "level = FullContainerLock")
  case True
  then show ?thesis using lockable_cong[OF assms(1)] same_but_full[of cs w w'] assms(2) by blast
qed (rule lockable_same_but_lock[OF assms])

lemma machine_okD:
  assumes "machine_ok ct cs m"
  shows "lockable ct cs (view p m)" "fds_ok (view p m)" "files_ok cs m" "held_ok cs m"
  using assms by (simp_all add: machine_ok_def)

lemma held_okD:
  assumes "held_ok cs m"
  shows "distinct (map fst (m_held m p))"
    "(level, fd) \<in> set (m_held m p) \<longleftrightarrow> lock_owner cs m level = Some (p, fd)"
  using assms by (simp_all add: held_ok_def)

lemma lock_owner_held [simp]: "lock_owner cs (m\<lparr>m_held := h\<rparr>) = lock_owner cs m"
  by (rule ext) (auto simp: lock_owner_def split: option.splits)

lemma files_ok_held [simp]: "files_ok cs (m\<lparr>m_held := h\<rparr>) = files_ok cs m"
  by (simp add: files_ok_def)

text \<open>A level that is refused: no lock changes hands.\<close>

lemma refused_step:
  assumes m: "machine_ok ct cs m" and run: "lock_level ct level wait (view p m) = (Err e, w)"
  shows "machine_ok ct cs (absorb p w m) \<and> lock_owner cs (absorb p w m) = lock_owner cs m"
proof -
  note o = machine_okD(1)[OF m, of p] machine_okD(2)[OF m, of p] machine_okD(3,4)[OF m]
  obtain more: "more_fds (view p m) w" and s: "same_but_lock cs level (view p m) w"
    using run by (cases rule: lock_level_cases[OF o(1) o(2), where level = level and wait = wait]) auto
  have fl: "flocks w = flocks (view p m)" and fo: "fds_ok w"
    using more o(2) by (simp_all add: more_fds_def)
  have g: "grows (view p m) w" by (rule keepsD[OF keeps_grows_lock_level run])
  note lk = absorb_same_locks[OF fl]
  have own: "lock_owner cs (absorb p w m) = lock_owner cs m"
    by (rule ext, rule owner_step[OF o(3) g s]) (simp_all add: lk)
  moreover have "files_ok cs (absorb p w m)"
    by (rule files_ok_step[OF o(3) g s]) (simp_all add: lk)
  moreover have "held_ok cs (absorb p w m)"
    using o(4) own by (simp add: held_ok_def)
  ultimately show ?thesis
    using absorb_views[OF m leaves_theirs_same[OF fl] lockable_level[OF o(1) s] fo]
    by (simp add: machine_ok_def)
qed

text \<open>A level that is granted: nobody held it, and the process does now.\<close>

lemma granted_step:
  assumes m: "machine_ok ct cs m" and run: "lock_level ct level wait (view p m) = (Ok fd, w)"
  defines "m' \<equiv> (absorb p w m)\<lparr>m_held := (m_held m)(p := m_held m p @ [(level, fd)])\<rparr>"
  shows "machine_ok ct cs m' \<and> lock_owner cs m level = None \<and>
    lock_owner cs m' = (lock_owner cs m)(level := Some (p, fd))"
proof -
  note o = machine_okD(1)[OF m, of p] machine_okD(2)[OF m, of p] machine_okD(3,4)[OF m]
  obtain i where s: "same_but_lock cs level (view p m) w"
    and i: "fs_get (disk w) (lock_loc cs level) = Some i" and free: "flocks (view p m) (i_ino i) = None"
    and fl: "flocks w = (flocks (view p m))(i_ino i := Some (Mine fd))"
    and fds: "fds w = (fds (view p m))(fd := Some (i_ino i))"
    and fd: "fd = next_fd (view p m)" and nfd: "next_fd w = Suc (next_fd (view p m))"
    using o(1,2)
  proof (cases rule: lock_level_cases[where level = level and wait = wait])
    case (ok i w')
    then have "w' = w" "fd = next_fd (view p m)" using run by (simp_all del: view_fields)
    with ok show thesis by (intro that[of i]) (simp_all del: view_fields)
  qed (use run in simp_all)
  have g: "grows (view p m) w" by (rule keepsD[OF keeps_grows_lock_level run])
  have fo: "fds_ok w" by (rule fds_ok_taken[OF o(2) fl[unfolded fd] fds[unfolded fd] nfd])
  have lt: "leaves_theirs p m w" by (simp add: leaves_theirs_def fl)
  have lk: "m_locks (absorb p w m) = (m_locks m)(i_ino i := Some (p, fd))"
  proof (rule ext)
    fix n show "m_locks (absorb p w m) n = ((m_locks m)(i_ino i := Some (p, fd))) n"
      using free by (cases "m_locks m n") (auto simp: absorb_def fl seen_by_def split: prod.splits)
  qed
  have f': "files_ok cs m'"
    unfolding m'_def files_ok_held by (rule files_ok_step[OF o(3) g s]) (use i in \<open>auto simp: lk split: if_splits\<close>)
  let ?m = "m'\<lparr>m_locks := m_locks m\<rparr>"
  have old: "lock_owner cs ?m l = lock_owner cs m l" for l
    by (rule owner_step[OF o(3) g s]) (simp_all add: m'_def)
  have own: "lock_owner cs m' = (lock_owner cs m)(level := Some (p, fd))"
  proof (rule ext)
    fix l
    show "lock_owner cs m' l = ((lock_owner cs m)(level := Some (p, fd))) l"
    proof (cases "l = level")
      case True
      then show ?thesis using i by (simp add: lock_owner_def m'_def lk)
    next
      case False
      have "i_ino j \<noteq> i_ino i" if "fs_get (disk w) (lock_loc cs l) = Some j" for j
      proof
        assume "i_ino j = i_ino i"
        then have "l = level"
          using f' that i unfolding files_ok_def m'_def by (simp del: lock_loc_inj)
        then show False using False by simp
      qed
      then have "lock_owner cs m' l = lock_owner cs ?m l"
        by (auto simp: lock_owner_def m'_def lk split: option.splits)
      then show ?thesis using False old by simp
    qed
  qed
  have none: "lock_owner cs m level = None"
    using old[of level] i free by (simp add: lock_owner_def m'_def)
  have "held_ok cs m'"
    unfolding held_ok_def own
    using held_okD[OF o(4)] none by (auto simp: m'_def)
  moreover have "lockable ct cs (view q m') \<and> fds_ok (view q m')" for q
    using absorb_views[OF m lt lockable_level[OF o(1) s] fo] by (simp add: m'_def)
  ultimately show ?thesis using f' own none by (simp add: machine_ok_def)
qed

text \<open>Levels that are released, and a process that ends: exactly its own entries go.\<close>

definition drop_owner :: "nat \<Rightarrow> LockLevel set \<Rightarrow> (LockLevel \<Rightarrow> (nat \<times> nat) option) \<Rightarrow> LockLevel \<Rightarrow> (nat \<times> nat) option" where
  "drop_owner p levels own l = (case own l of
      Some (q, fd) \<Rightarrow> if q = p \<and> l \<in> levels then None else Some (q, fd)
    | None \<Rightarrow> None)"

lemma held_descriptors:
  fixes p and levels
  assumes m: "machine_ok ct cs m"
  defines "fdl \<equiv> map snd (filter (\<lambda>(l, _). l \<in> set levels) (m_held m p))"
  shows "all_open fdl (view p m)"
    and "lock_owner cs m l = Some (p, fd) \<Longrightarrow> fd \<in> set fdl \<longleftrightarrow> l \<in> set levels"
proof -
  note o = machine_okD(1)[OF m, of p] machine_okD(2)[OF m, of p] machine_okD(3,4)[OF m]
  note held = held_okD[OF o(4)]
  have at: "\<exists>i. fs_get (m_disk m) (lock_loc cs a) = Some i \<and> m_locks m (i_ino i) = Some (p, d) \<and>
      fds (view p m) d = Some (i_ino i)" if "(a, d) \<in> set (m_held m p)" for a d
    using that o(2) held(2)[of a d p] by (auto simp: lock_owner_def fds_ok_def split: option.splits)
  have same: "a = b" if a: "(a, d) \<in> set (m_held m p)" and b: "(b, d) \<in> set (m_held m p)" for a b d
  proof -
    obtain i j where "fs_get (m_disk m) (lock_loc cs a) = Some i" "fs_get (m_disk m) (lock_loc cs b) = Some j"
      "i_ino i = i_ino j" using at[OF a] at[OF b] by auto
    then show ?thesis using o(3) unfolding files_ok_def by blast
  qed
  have inj: "inj_on snd (set (m_held m p))" using same by (auto simp: inj_on_def)
  have "distinct (m_held m p)" using held(1)[of p] by (simp add: distinct_map)
  then have "distinct fdl"
    unfolding fdl_def by (simp add: distinct_map inj_on_subset[OF inj])
  moreover have "fds (view p m) d \<noteq> None" if "d \<in> set fdl" for d
    using that at by (fastforce simp: fdl_def simp del: view_fields)
  ultimately show "all_open fdl (view p m)" by (simp add: all_open_def list_all_iff del: view_fields)
  assume "lock_owner cs m l = Some (p, fd)"
  then have l: "(l, fd) \<in> set (m_held m p)" using held(2) by simp
  show "fd \<in> set fdl \<longleftrightarrow> l \<in> set levels"
  proof
    assume "fd \<in> set fdl"
    then obtain a where "(a, fd) \<in> set (m_held m p)" "a \<in> set levels" unfolding fdl_def by auto
    then show "l \<in> set levels" using same[OF _ l, of a] by simp
  next
    assume "l \<in> set levels"
    then have "(l, fd) \<in> set (filter (\<lambda>(l, _). l \<in> set levels) (m_held m p))" using l by simp
    then show "fd \<in> set fdl" unfolding fdl_def set_map by (rule image_eqI[rotated]) simp
  qed
qed

lemma dropped_ok:
  assumes m: "machine_ok ct cs m"
    and d: "m_disk m' = m_disk m" "m_ino m' = m_ino m"
    and lk: "\<And>n. m_locks m' n = m_locks m n \<or> m_locks m' n = None"
    and own: "lock_owner cs m' = drop_owner p levels (lock_owner cs m)"
    and h: "m_held m' = (m_held m)(p := filter (\<lambda>(l, _). l \<notin> levels) (m_held m p))"
    and f: "\<And>q. fds_ok (view q m')"
  shows "machine_ok ct cs m'"
proof -
  note o = machine_okD[OF m] held_okD[OF machine_okD(4)[OF m]]
  have "m_locks m' n \<noteq> None \<Longrightarrow> m_locks m n \<noteq> None" for n using lk[of n] by auto
  then have "files_ok cs m'" using o(3) by (simp add: files_ok_def d)
  moreover have "held_ok cs m'"
    unfolding held_ok_def
  proof (intro allI conjI)
    fix q
    show "distinct (map fst (m_held m' q))"
      using o(5)[of q] by (auto simp: h distinct_map_filter)
    fix level fd
    show "(level, fd) \<in> set (m_held m' q) \<longleftrightarrow> lock_owner cs m' level = Some (q, fd)"
      using o(6)[of level fd q] by (auto simp: h own drop_owner_def split: option.splits)
  qed
  moreover have "lockable ct cs (view q m')" for q
    by (rule lockable_same_disk[OF o(1)]) (simp add: d)
  ultimately show ?thesis using f by (simp add: machine_ok_def)
qed

lemma released_step:
  assumes m: "machine_ok ct cs m"
    and run: "Release (map snd (filter (\<lambda>(l, _). l \<in> set levels) (m_held m p))) (view p m) = (Ok (), w)"
  defines "m' \<equiv> (absorb p w m)\<lparr>m_held := (m_held m)(p := filter (\<lambda>(l, _). l \<notin> set levels) (m_held m p))\<rparr>"
  shows "machine_ok ct cs m' \<and> lock_owner cs m' = drop_owner p (set levels) (lock_owner cs m)"
proof -
  note o = machine_okD(1)[OF m, of p] machine_okD(2)[OF m, of p] machine_okD(3,4)[OF m]
  let ?fdl = "map snd (filter (\<lambda>(l, _). l \<in> set levels) (m_held m p))"
  have sd: "same_disk (view p m) w" and fo: "fds_ok w" and fl: "flocks w = without ?fdl (flocks (view p m))"
    using Release_all_open[OF o(2) held_descriptors(1)[OF m, of levels p]] run by (auto simp del: view_fields)
  have d: "disk w = m_disk m" "next_ino w = m_ino m" using sd by (simp_all add: same_disk_def)
  have lt: "leaves_theirs p m w"
    by (auto simp: leaves_theirs_def fl without_def split: option.splits holder.splits if_splits)
  have lk: "m_locks (absorb p w m) n = (case m_locks m n of
      Some (q, fd) \<Rightarrow> if q = p \<and> fd \<in> set ?fdl then None else Some (q, fd) | None \<Rightarrow> None)" for n
    by (cases "m_locks m n") (auto simp: absorb_def fl without_def seen_by_def split: prod.splits)
  have own: "lock_owner cs m' = drop_owner p (set levels) (lock_owner cs m)"
  proof (rule ext)
    fix l
    have "lock_owner cs m' l = (case lock_owner cs m l of
        Some (q, fd) \<Rightarrow> if q = p \<and> fd \<in> set ?fdl then None else Some (q, fd) | None \<Rightarrow> None)"
      by (auto simp: lock_owner_def m'_def d lk split: option.splits)
    then show "lock_owner cs m' l = drop_owner p (set levels) (lock_owner cs m) l"
      using held_descriptors(2)[OF m, of l p _ levels] by (auto simp: drop_owner_def split: option.splits)
  qed
  have "machine_ok ct cs m'"
  proof (rule dropped_ok[OF m _ _ _ own])
    show "m_locks m' n = m_locks m n \<or> m_locks m' n = None" for n
      by (auto simp: m'_def lk split: option.splits)
    show "fds_ok (view q m')" for q
      using absorb_views[OF m lt lockable_same_disk[OF o(1)] fo] d by (simp add: m'_def)
  qed (simp_all add: m'_def d)
  then show ?thesis using own by simp
qed

lemma ended_step:
  fixes p
  assumes m: "machine_ok ct cs m"
  defines "m' \<equiv> m\<lparr>m_locks := (\<lambda>n. case m_locks m n of Some (q, fd) \<Rightarrow> if q = p then None else Some (q, fd) | None \<Rightarrow> None),
         m_procs := (m_procs m)(p := (m_procs m p)\<lparr>fds := (\<lambda>_. None)\<rparr>), m_held := (m_held m)(p := [])\<rparr>"
  shows "machine_ok ct cs m' \<and> lock_owner cs m' = drop_owner p UNIV (lock_owner cs m)"
proof -
  have own: "lock_owner cs m' = drop_owner p UNIV (lock_owner cs m)"
    by (rule ext) (auto simp: lock_owner_def m'_def drop_owner_def split: option.splits)
  have "machine_ok ct cs m'"
  proof (rule dropped_ok[OF m _ _ _ own])
    show "fds_ok (view q m')" for q
      using machine_okD(2)[OF m, of q] by (auto simp: fds_ok_def m'_def split: option.splits if_splits)
  qed (auto simp: m'_def split: option.splits)
  then show ?thesis using own by simp
qed

section \<open>Whole calls\<close>

lemma view_absorb:
  assumes "leaves_theirs p m w"
  shows "view p (absorb p w m) = w"
proof -
  have "flocks (view p (absorb p w m)) = flocks w"
  proof (rule ext)
    fix n
    have theirs: "map_option (seen_by p) (m_locks m n) = Some (Theirs q)" if "flocks w n = Some (Theirs q)" for q
      using assms that by (simp only: leaves_theirs_def view_fields)
    show "flocks (view p (absorb p w m)) n = flocks w n"
    proof (cases "flocks w n")
      case (Some h)
      show ?thesis
      proof (cases h)
        case (Mine fd)
        then show ?thesis using Some by (simp add: absorb_def seen_by_def)
      next
        case (Theirs q)
        have "m_locks (absorb p w m) n = m_locks m n" using Some Theirs by (simp add: absorb_def)
        then show ?thesis using theirs[of q] Some Theirs by (simp only: view_fields)
      qed
    qed (simp add: absorb_def)
  qed
  then show ?thesis by (simp add: view_def)
qed

lemma level_leaves_theirs:
  assumes m: "machine_ok ct cs m" and run: "lock_level ct level wait (view p m) = (r, w)" and "\<not> (\<exists>a. r = Abort a)"
  shows "leaves_theirs p m w"
  using machine_okD(1)[OF m, of p] machine_okD(2)[OF m, of p]
proof (cases rule: lock_level_cases[where level = level and wait = wait])
  case (err e w')
  then show ?thesis using run by (simp add: leaves_theirs_def more_fds_def)
next
  case (ok i w')
  then have "w' = w" using run by simp
  then show ?thesis using ok(5) by (simp add: leaves_theirs_def)
next
  case (blocked w' i h)
  then show ?thesis using run assms(3) by auto
qed

lemma Release_theirs:
  assumes "fds_ok w" and "all_open held w" and "Release held w = (Ok (), w')" and "flocks w' n = Some (Theirs q)"
  shows "flocks w n = Some (Theirs q)"
proof -
  have "flocks w' = without held (flocks w)" using Release_all_open[OF assms(1,2)] assms(3) by auto
  then show ?thesis using assms(4) by (auto simp: without_def split: option.splits holder.splits if_splits)
qed

lemma lock_run_append: "lock_run ct m1 es' m2 \<Longrightarrow> lock_run ct m es m1 \<Longrightarrow> lock_run ct m (es @ es') m2"
proof (induction rule: lock_run.induct)
  case (run_snoc es2 m3 e m4)
  then show ?case using lock_run.run_snoc[of ct m "es @ es2" m3 e m4] by simp
qed simp

lemma lock_run_one: "lock_step ct m e m' \<Longrightarrow> lock_run ct m [e] m'"
  using run_snoc[OF run_nil] by force

lemma step_ok:
  assumes m: "machine_ok ct cs m" and "lock_step ct m e m'"
  shows "machine_ok ct cs m'"
  using assms(2)
  by (cases rule: lock_stepE) (use m in \<open>auto dest: granted_step refused_step released_step simp: ended_step\<close>)

text \<open>
  \<^verbatim>\<open>Lock\<close> is a sequence of such steps; other processes may run between them. On success
  they are the levels in order, on failure everything taken is released again.
\<close>

lemma lock_sublevels_run:
  assumes "machine_ok ct cs m" and "lock_sublevels ct wait held levels (view p m) = (r, w)"
    and "held = map snd (filter (\<lambda>(l, _). l \<in> set taken) (m_held m p))"
    and "distinct levels" and "set taken \<inter> set levels = {}"
  shows "case r of
      Ok held' \<Rightarrow> \<exists>m'. lock_run ct m (map (Granted p) levels) m' \<and> view p m' = w \<and>
        held' = map snd (filter (\<lambda>(l, _). l \<in> set (taken @ levels)) (m_held m' p))
    | Err e \<Rightarrow> \<exists>done level m'. lock_run ct m (map (Granted p) done @ [Refused p level, Released p (taken @ done)]) m' \<and>
        view p m' = w \<and> prefix (done @ [level]) levels
    | Abort a \<Rightarrow> True"
  using assms
proof (induction levels arbitrary: m held taken)
  case Nil
  then have "r = Ok held" "w = view p m" by (simp_all add: ret_def)
  then show ?case using Nil.prems(3) by (auto intro!: exI[of _ m] run_nil)
next
  case (Cons level levels)
  obtain r1 w1 where one: "lock_level ct level wait (view p m) = (r1, w1)" by fastforce
  show ?case
  proof (cases r1)
    case (Abort a)
    then show ?thesis using Cons.prems(2) one by (auto simp: run_simps)
  next
    case (Ok fd)
    let ?m = "(absorb p w1 m)\<lparr>m_held := (m_held m)(p := m_held m p @ [(level, fd)])\<rparr>"
    have step: "lock_step ct m (Granted p level) ?m" using one Ok by (auto intro: granted)
    have v: "view p ?m = w1" using view_absorb[OF level_leaves_theirs[OF Cons.prems(1) one]] Ok by simp
    have no: "filter (\<lambda>(l, _). l \<in> set (taken @ [level])) (m_held m p) = filter (\<lambda>(l, _). l \<in> set taken) (m_held m p)"
    proof (rule filter_cong[OF refl])
      fix x assume x: "x \<in> set (m_held m p)"
      have "lock_owner cs m level = None" using granted_step[OF Cons.prems(1) one[unfolded Ok]] by simp
      then have "fst x \<noteq> level"
        using x held_okD(2)[OF machine_okD(4)[OF Cons.prems(1)], of "fst x" "snd x" p] by auto
      then show "(case x of (l, _) \<Rightarrow> l \<in> set (taken @ [level])) = (case x of (l, _) \<Rightarrow> l \<in> set taken)"
        by (auto split: prod.splits)
    qed
    have "held @ [fd] = map snd (filter (\<lambda>(l, _). l \<in> set (taken @ [level])) (m_held ?m p))"
      using Cons.prems(3) no by simp
    moreover have "lock_sublevels ct wait (held @ [fd]) levels (view p ?m) = (r, w)"
      using Cons.prems(2) one Ok unfolding v by (simp add: run_simps)
    moreover have "distinct levels" "set (taken @ [level]) \<inter> set levels = {}" using Cons.prems(4,5) by auto
    ultimately have ih: "case r of
        Ok held' \<Rightarrow> \<exists>m'. lock_run ct ?m (map (Granted p) levels) m' \<and> view p m' = w \<and>
          held' = map snd (filter (\<lambda>(l, _). l \<in> set ((taken @ [level]) @ levels)) (m_held m' p))
      | Err e \<Rightarrow> \<exists>done l m'. lock_run ct ?m (map (Granted p) done @ [Refused p l, Released p ((taken @ [level]) @ done)]) m' \<and>
          view p m' = w \<and> prefix (done @ [l]) levels
      | Abort a \<Rightarrow> True"
      by (intro Cons.IH[OF step_ok[OF Cons.prems(1) step]])
    note first = lock_run_append[OF _ lock_run_one[OF step]]
    show ?thesis
    proof (cases r)
      case r: (Ok held')
      then show ?thesis using ih first by fastforce
    next
      case r: (Err e)
      then obtain "done" l m' where d: "lock_run ct ?m (map (Granted p) done @ [Refused p l, Released p ((taken @ [level]) @ done)]) m'"
        "view p m' = w" "prefix (done @ [l]) levels" using ih by auto
      show ?thesis unfolding r
        using first[OF d(1)] d(2,3) by (simp, intro exI[of _ "level # done"] exI[of _ l] exI[of _ m']) simp
    qed simp
  next
    case (Err e1)
    let ?m = "absorb p w1 m"
    have step: "lock_step ct m (Refused p level) ?m" using one Err by (auto intro: refused)
    have ok: "machine_ok ct cs ?m" by (rule step_ok[OF Cons.prems(1) step])
    have v: "view p ?m = w1" using view_absorb[OF level_leaves_theirs[OF Cons.prems(1) one]] Err by simp
    obtain w2 where rel: "Release held w1 = (Ok (), w2)"
      using Release_all_open[OF machine_okD(2)[OF ok] held_descriptors(1)[OF ok, of taken p]] Cons.prems(3) v by auto
    have rw: "w = w2" "\<exists>e. r = Err e" using Cons.prems(2) one Err rel by (auto simp: run_simps)
    let ?m2 = "(absorb p w2 ?m)\<lparr>m_held := (m_held ?m)(p := filter (\<lambda>(l, _). l \<notin> set taken) (m_held ?m p))\<rparr>"
    have step2: "lock_step ct ?m (Released p taken) ?m2"
      by (rule released) (use rel v Cons.prems(3) in simp)
    have "leaves_theirs p ?m w2"
      using Release_theirs[OF machine_okD(2)[OF ok] held_descriptors(1)[OF ok, of taken p], of w2] Cons.prems(3) v rel
      by (simp add: leaves_theirs_def del: view_fields)
    then have v2: "view p ?m2 = w2" using view_absorb by simp
    have "lock_run ct m (map (Granted p) [] @ [Refused p level, Released p (taken @ [])]) ?m2"
      using lock_run_append[OF lock_run_one[OF step2] lock_run_one[OF step]] by simp
    moreover have "view p ?m2 = w" using v2 rw(1) by simp
    moreover have "prefix ([] @ [level]) (level # levels)" by simp
    ultimately have "\<exists>done l m'. lock_run ct m (map (Granted p) done @ [Refused p l, Released p (taken @ done)]) m' \<and>
        view p m' = w \<and> prefix (done @ [l]) (level # levels)" by blast
    moreover obtain e where "r = Err e" using rw(2) by blast
    ultimately show ?thesis by simp
  qed
qed

section \<open>The simulation\<close>

lemma table_of_drop:
  "lock_owner cs m' = drop_owner p levels (lock_owner cs m) \<Longrightarrow>
     table_of cs m' = (\<lambda>l. if l \<in> levels \<and> table_of cs m l = Some p then None else table_of cs m l)"
  by (rule ext) (auto simp: table_of_def drop_owner_def split: option.splits)

lemma table_of_held [simp]: "table_of cs (m\<lparr>m_held := h\<rparr>) = table_of cs m"
  by (rule ext) (simp add: table_of_def)

lemma step_simulates:
  assumes m: "machine_ok ct cs m" and "lock_step ct m e m'"
  shows "table_step (table_of cs m) e (table_of cs m')"
  using assms(2)
proof cases
  case g: (granted level wait p fd w)
  note h = granted_step[OF m g(3)]
  have "table_of cs m level = None" using h by (simp add: table_of_def)
  moreover have "table_of cs m' = (table_of cs m)(level := Some p)"
    using h unfolding g(2) by (auto simp: table_of_def)
  ultimately show ?thesis unfolding g(1) by (simp add: table_granted)
next
  case f: (refused level wait p err w)
  have "table_of cs m' = table_of cs m"
    using refused_step[OF m f(3)] unfolding f(2) by (auto simp: table_of_def)
  then show ?thesis unfolding f(1) by (simp add: table_refused)
next
  case d: (released levels p w)
  then show ?thesis
    using table_of_drop[OF conjunct2[OF released_step[OF m d(3)]]]
      table_released[of "table_of cs m" p levels] by simp
next
  case (ended p)
  then show ?thesis
    using table_of_drop[OF conjunct2[OF ended_step[OF m]]] table_ended[of "table_of cs m" p] by simp
qed

lemma run_simulates:
  assumes "lock_run ct m es m'" and "machine_ok ct cs m"
  shows "machine_ok ct cs m' \<and> table_run (table_of cs m) es (table_of cs m')"
  using assms
proof (induction rule: lock_run.induct)
  case run_nil
  then show ?case by (simp add: table_nil)
next
  case (run_snoc es m' e m'')
  then show ?case using step_ok[OF _ run_snoc(2)] step_simulates[OF _ run_snoc(2)] table_snoc by blast
qed

lemma table_snocD:
  assumes "table_run t (es @ [e]) t''"
  obtains t' where "table_run t es t'" "table_step t' e t''"
  using assms by (cases rule: table_run.cases) auto

inductive_cases table_grantedE: "table_step t (Granted p level) t'"
inductive_cases table_refusedE: "table_step t (Refused p level) t'"
inductive_cases table_releasedE: "table_step t (Released p levels) t'"

lemma table_run_granted:
  "table_run t (map (Granted p) levels) t' \<Longrightarrow>
     (\<forall>l\<in>set levels. t l = None) \<and> t' = (\<lambda>l. if l \<in> set levels then Some p else t l)"
proof (induction levels arbitrary: t' rule: rev_induct)
  case Nil
  then show ?case by (cases rule: table_run.cases) auto
next
  case (snoc level levels)
  obtain t1 where t1: "table_run t (map (Granted p) levels) t1" "table_step t1 (Granted p level) t'"
    using snoc.prems by (auto elim: table_snocD)
  have "t1 level = None" "t' = t1(level := Some p)" using t1(2) by (auto elim: table_grantedE)
  then show ?case using snoc.IH[OF t1(1)] by (auto split: if_splits)
qed

text \<open>Levels taken and released again leave no trace.\<close>

lemma table_run_undone:
  assumes "table_run t (map (Granted p) levels @ Refused p l # (if levels = [] then [] else [Released p levels])) t'"
  shows "t' = t"
proof (cases "levels = []")
  case True
  then have "table_run t ([] @ [Refused p l]) t'" using assms by simp
  then obtain t1 where "table_run t [] t1" "table_step t1 (Refused p l) t'" by (rule table_snocD)
  then show ?thesis using table_run_granted[of t p "[]" t1] by (auto elim: table_refusedE)
next
  case False
  then have "table_run t ((map (Granted p) levels @ [Refused p l]) @ [Released p levels]) t'" using assms by simp
  then obtain t2 where t2: "table_run t (map (Granted p) levels @ [Refused p l]) t2"
    "table_step t2 (Released p levels) t'" by (rule table_snocD)
  from t2(1) obtain t1 where t1: "table_run t (map (Granted p) levels) t1" "table_step t1 (Refused p l) t2"
    by (rule table_snocD)
  have "t2 = t1" using t1(2) by (auto elim: table_refusedE)
  moreover have "t' = (\<lambda>k. if k \<in> set levels \<and> t2 k = Some p then None else t2 k)"
    using t2(2) by (auto elim: table_releasedE)
  ultimately show ?thesis using table_run_granted[OF t1(1)] by auto
qed

text \<open>What a whole call does to the table.\<close>

lemma Lock_run:
  assumes m: "machine_ok ct cs m" and run: "Lock ct level wait (view p m) = (r, w)"
  shows "case r of
      Ok fdl \<Rightarrow> \<exists>m'. lock_run ct m (map (Granted p) (levels_of level)) m' \<and> view p m' = w
    | Err e \<Rightarrow> \<exists>es m'. lock_run ct m es m' \<and> view p m' = w \<and>
        (\<exists>done l. es = map (Granted p) done @ Refused p l # (if done = [] then [] else [Released p done]))
    | Abort a \<Rightarrow> True"
proof -
  obtain r1 w1 where one: "lock_level ct level wait (view p m) = (r1, w1)" by fastforce
  show ?thesis
  proof (cases r1)
    case (Abort a)
    then show ?thesis using run one by (auto simp: Lock_def run_simps)
  next
    case (Err e)
    have "view p (absorb p w1 m) = w1" using view_absorb[OF level_leaves_theirs[OF m one]] Err by simp
    moreover have "lock_run ct m [Refused p level] (absorb p w1 m)"
      using one Err by (auto intro: refused lock_run_one)
    moreover have "r = Err e" "w = w1" using run one Err by (simp_all add: Lock_def run_simps)
    moreover have "[Refused p level] = map (Granted p) [] @ Refused p level # (if [] = [] then [] else [Released p []])" by simp
    ultimately show ?thesis by (simp del: append.simps list.map) blast
  next
    case (Ok fd)
    let ?m = "(absorb p w1 m)\<lparr>m_held := (m_held m)(p := m_held m p @ [(level, fd)])\<rparr>"
    have step: "lock_step ct m (Granted p level) ?m" using one Ok by (auto intro: granted)
    have v: "view p ?m = w1" using view_absorb[OF level_leaves_theirs[OF m one]] Ok by simp
    show ?thesis
    proof (cases "level = FullContainerLock")
      case False
      then have "r = Ok [fd]" "w = w1" using run one Ok by (simp_all add: Lock_def run_simps)
      then show ?thesis using lock_run_one[OF step] v False by (auto simp: levels_of_def)
    next
      case True
      have "lock_owner cs m level = None" using granted_step[OF m one[unfolded Ok]] by simp
      then have "(level, b) \<notin> set (m_held m p)" for b
        using held_okD(2)[OF machine_okD(4)[OF m], of level b p] by simp
      then have "filter (\<lambda>(l, _). l \<in> set [level]) (m_held m p) = []" by (auto simp: filter_empty_conv)
      then have "[fd] = map snd (filter (\<lambda>(l, _). l \<in> set [level]) (m_held ?m p))" by simp
      moreover have "lock_sublevels ct wait [fd] lower_levels (view p ?m) = (r, w)"
        using run one Ok True unfolding v by (simp add: Lock_def run_simps)
      moreover have "distinct lower_levels" "set [level] \<inter> set lower_levels = {}"
        by (simp_all add: lower_levels_def True)
      ultimately have sub: "case r of
          Ok held' \<Rightarrow> \<exists>m'. lock_run ct ?m (map (Granted p) lower_levels) m' \<and> view p m' = w \<and>
            held' = map snd (filter (\<lambda>(l, _). l \<in> set ([level] @ lower_levels)) (m_held m' p))
        | Err e \<Rightarrow> \<exists>done l m'. lock_run ct ?m (map (Granted p) done @ [Refused p l, Released p ([level] @ done)]) m' \<and>
            view p m' = w \<and> prefix (done @ [l]) lower_levels
        | Abort a \<Rightarrow> True"
        by (intro lock_sublevels_run[OF step_ok[OF m step]])
      note first = lock_run_append[OF _ lock_run_one[OF step]]
      show ?thesis
      proof (cases r)
        case (Ok held')
        then obtain m' where "lock_run ct ?m (map (Granted p) lower_levels) m'" "view p m' = w" using sub by auto
        then show ?thesis using first[of _ m'] Ok True by (auto simp: levels_of_def)
      next
        case (Err e)
        then obtain "done" l m' where d: "lock_run ct ?m (map (Granted p) done @ [Refused p l, Released p ([level] @ done)]) m'"
          "view p m' = w" using sub by auto
        have "lock_run ct m (map (Granted p) (level # done) @ Refused p l # (if level # done = [] then [] else [Released p (level # done)])) m'"
          using first[OF d(1)] by simp
        then show ?thesis using d(2) Err by (simp del: append.simps list.map) blast
      qed simp
    qed
  qed
qed

section \<open>An uncontended lock\<close>

text \<open>No call fails, and the lock file is a regular file or still missing.\<close>

definition plain_file :: "loc \<Rightarrow> machine \<Rightarrow> LockLevel \<Rightarrow> bool" where
  "plain_file cs m level \<longleftrightarrow> (\<forall>i. level \<noteq> FullContainerLock \<longrightarrow> fs_get (m_disk m) (lock_loc cs level) = Some i \<longrightarrow>
     (\<exists>c. i_kind i = Regular c))"

lemma calm_ino [simp]: "calm (w\<lparr>next_ino := n\<rparr>) = calm w"
  by (simp add: calm_def)

lemma Create_calm:
  assumes "calm w" and "resolve True w p = Inr q" and "q \<noteq> []"
    and "\<And>i. fs_get (disk w) q = Some i \<Longrightarrow> \<exists>c. i_kind i = Regular c"
  shows "\<exists>w' i. os_Create p w = (Ok q, w') \<and> calm w' \<and> fs_get (disk w') q = Some i \<and>
    i_ino i = (case fs_get (disk w) q of Some j \<Rightarrow> i_ino j | None \<Rightarrow> next_ino w)"
proof (cases "fs_get (disk w) q")
  case None
  then show ?thesis
    using assms(1-3) by (simp add: os_Create_def calm_sys at_path_def put_node_def disk.get_put)
next
  case (Some i)
  then obtain c where "i_kind i = Regular c" using assms(4) by blast
  then show ?thesis
    using assms(1-3) Some by (simp add: os_Create_def calm_sys at_path_def set_node_def disk.get_put)
qed

lemma Open_Flock_calm:
  assumes "calm w" and "resolve True w p = Inr q" and "q \<noteq> []" and "fs_get (disk w) q = Some i"
    and "dd \<Longrightarrow> is_dir i" and "flocks w (i_ino i) = None"
  shows "\<exists>w1 w2. unix_Open p dd w = (Ok (next_fd w), w1) \<and> unix_Flock (next_fd w) nb w1 = (Ok (), w2) \<and> calm w2"
  using assms by (auto simp: unix_Open_def unix_Flock_def calm_sys at_path_def calm_def)

lemma lock_level_granted:
  assumes m: "machine_ok ct cs m" and calm: "calm (view p m)" and free: "table_of cs m level = None"
    and regular: "plain_file cs m level"
  shows "\<exists>fd w. lock_level ct level wait (view p m) = (Ok fd, w) \<and> calm w"
proof -
  let ?w = "view p m" and ?q = "lock_loc cs level"
  note lk = machine_okD(1)[OF m, of p]
  then have loc: "located ct cs ?w" "cs \<noteq> []" by (simp_all add: lockable_def)
  note l = locatedD[OF loc(1)]
  have path: "(if level = FullContainerLock then Path ct else path_join [Path ct, lock_name level @ ''.lock'']) = path_of ?q"
    using l by (simp add: lock_loc_def)
  have body: "lock_level ct level wait ?w = seq
      (if level = FullContainerLock then ret ()
       else seq (wrap (''create '' @ lock_name level @ '' lock file'') (os_Create (path_of ?q))) (\<lambda>_. ret ())) (\<lambda>_.
      seq (wrap ''failed to open container directory'' (unix_Open (path_of ?q) (level = FullContainerLock))) (\<lambda>fd.
      seq (on_err (unix_Flock fd (wait = NoWaitForLock)) (\<lambda>e. fail (flock_error e))) (\<lambda>_. ret fd))) ?w"
    unfolding lock_level_def Let_def by (simp only: path)
  have fin: "\<exists>fd w'. seq (wrap ''failed to open container directory'' (unix_Open (path_of ?q) (level = FullContainerLock))) (\<lambda>fd.
      seq (on_err (unix_Flock fd (wait = NoWaitForLock)) (\<lambda>e. fail (flock_error e))) (\<lambda>_. ret fd)) w = (Ok fd, w') \<and> calm w'"
    if "calm w" "resolve True w (path_of ?q) = Inr ?q" "fs_get (disk w) ?q = Some i" "level = FullContainerLock \<Longrightarrow> is_dir i"
      "flocks w (i_ino i) = None" for w i
    using Open_Flock_calm[where dd = "level = FullContainerLock" and nb = "wait = NoWaitForLock",
        OF that(1,2) lock_loc_nonempty[OF loc(2)] that(3-5)]
    by (auto simp: run_simps ret_def)
  show ?thesis
  proof (cases "level = FullContainerLock")
    case True
    then have q: "?q = cs" by (simp add: lock_loc_def)
    have "dir_at (m_disk m) cs" using l(3) loc(2) by (cases cs rule: rev_cases) (simp_all add: solid_snoc)
    then obtain i where i: "fs_get (m_disk m) cs = Some i" "is_dir i" by (auto simp: dir_at_def split: option.splits)
    have "m_locks m (i_ino i) = None" using free i q by (simp add: table_of_def lock_owner_def)
    then have "\<exists>fd w'. seq (wrap ''failed to open container directory'' (unix_Open (path_of ?q) (level = FullContainerLock))) (\<lambda>fd.
        seq (on_err (unix_Flock fd (wait = NoWaitForLock)) (\<lambda>e. fail (flock_error e))) (\<lambda>_. ret fd)) ?w = (Ok fd, w') \<and> calm w'"
      using i l by (intro fin[OF calm, of i]) (simp_all add: q resolve_solid)
    then show ?thesis unfolding body using True by (simp add: seq_ret)
  next
    case False
    have nl: "no_link (m_disk m) ?q" using lk False by (cases level) (auto simp: lockable_def lower_levels_def)
    have r: "resolve True ?w (path_of ?q) = Inr ?q"
      using l nl False by (simp add: lock_loc_def resolve_no_link)
    have "\<exists>c. i_kind i = Regular c" if "fs_get (disk ?w) ?q = Some i" for i
      using regular False that by (simp add: plain_file_def)
    then obtain w1 i where c: "os_Create (path_of ?q) ?w = (Ok ?q, w1)" "calm w1" "fs_get (disk w1) ?q = Some i"
      "i_ino i = (case fs_get (disk ?w) ?q of Some j \<Rightarrow> i_ino j | None \<Rightarrow> next_ino ?w)"
      using Create_calm[OF calm r lock_loc_nonempty[OF loc(2)]] by blast
    have "resolve True w1 (path_of ?q) = Inr ?q \<and> flocks w1 = flocks ?w"
      using r lock_loc_nonempty[OF loc(2)]
    proof (cases rule: os_Create_cases)
      case (ok j w2)
      then have "w2 = w1" using c(1) by simp
      then have d: "solid (disk w1) cs" "no_link (disk w1) ?q"
        using ok l(3) False by (simp_all add: lock_loc_def no_link_def)
      have "resolve True w1 (path_of ?q) = Inr ?q"
        using d l(2) False by (simp add: lock_loc_def resolve_no_link)
      moreover have "flocks w1 = flocks ?w" using ok \<open>w2 = w1\<close> by (simp add: same_locks_def)
      ultimately show ?thesis ..
    qed (use c(1) in simp_all)
    then have r1: "resolve True w1 (path_of ?q) = Inr ?q" and fl: "flocks w1 = flocks ?w" by simp_all
    have "m_locks m (i_ino i) = None"
    proof (cases "fs_get (m_disk m) ?q")
      case None
      then show ?thesis
        using c(4) machine_okD(3)[OF m] by (cases "m_locks m (m_ino m)") (fastforce simp: files_ok_def)+
    next
      case (Some j)
      then show ?thesis using c(4) free by (simp add: table_of_def lock_owner_def)
    qed
    then have "\<exists>fd w'. seq (wrap ''failed to open container directory'' (unix_Open (path_of ?q) (level = FullContainerLock))) (\<lambda>fd.
        seq (on_err (unix_Flock fd (wait = NoWaitForLock)) (\<lambda>e. fail (flock_error e))) (\<lambda>_. ret fd)) w1 = (Ok fd, w') \<and> calm w'"
      using False fl by (intro fin[OF c(2) r1 c(3)]) simp_all
    then show ?thesis unfolding body using False c(1) by (simp add: seq_def wrap_run ret_def)
  qed
qed

text \<open>All levels of a call.\<close>

lemma lock_sublevels_granted:
  assumes "machine_ok ct cs m" and "calm (view p m)" and "distinct levels"
    and "\<forall>l\<in>set levels. table_of cs m l = None \<and> plain_file cs m l"
  shows "\<exists>held' w. lock_sublevels ct wait held levels (view p m) = (Ok held', w) \<and> calm w"
  using assms
proof (induction levels arbitrary: m held)
  case Nil
  then show ?case by (simp add: ret_def)
next
  case (Cons level levels)
  obtain fd w where one: "lock_level ct level wait (view p m) = (Ok fd, w)" "calm w"
    using lock_level_granted[OF Cons.prems(1,2)] Cons.prems(4) by auto blast
  let ?m = "(absorb p w m)\<lparr>m_held := (m_held m)(p := m_held m p @ [(level, fd)])\<rparr>"
  note g = granted_step[OF Cons.prems(1) one(1)]
  have v: "view p ?m = w" using view_absorb[OF level_leaves_theirs[OF Cons.prems(1) one(1)]] by simp
  have s: "same_but_lock cs level (view p m) w"
    using machine_okD(1)[OF Cons.prems(1), of p] machine_okD(2)[OF Cons.prems(1), of p]
    by (cases rule: lock_level_cases[where level = level and wait = wait]) (use one(1) in auto)
  have "table_of cs ?m l = None \<and> plain_file cs ?m l" if "l \<in> set levels" for l
  proof
    have l: "l \<noteq> level" using that Cons.prems(3) by auto
    then show "table_of cs ?m l = None" using g Cons.prems(4) that by (simp add: table_of_def)
    have "fs_get (disk w) (lock_loc cs l) = fs_get (m_disk m) (lock_loc cs l)"
      using s l by (simp add: same_but_lock_def)
    then show "plain_file cs ?m l" using Cons.prems(4) that by (simp add: plain_file_def)
  qed
  then obtain held' w' where "lock_sublevels ct wait (held @ [fd]) levels (view p ?m) = (Ok held', w')" "calm w'"
    using Cons.IH[of ?m "held @ [fd]"] g one(2) v Cons.prems(3) by auto
  then show ?case using one(1) v by (auto simp: run_simps)
qed

lemma Lock_granted:
  assumes m: "machine_ok ct cs m" and calm: "calm (view p m)"
    and free: "\<forall>l\<in>set (levels_of level). table_of cs m l = None \<and> plain_file cs m l"
  shows "\<exists>held w. Lock ct level wait (view p m) = (Ok held, w) \<and> calm w"
proof -
  have level: "level \<in> set (levels_of level)" by (simp add: levels_of_def)
  have "distinct (levels_of level)" by (simp add: levels_of_def lower_levels_def)
  then obtain held w where "lock_sublevels ct wait [] (levels_of level) (view p m) = (Ok held, w)" "calm w"
    using lock_sublevels_granted[OF m calm _ free] by blast
  moreover obtain fd w1 where "lock_level ct level wait (view p m) = (Ok fd, w1)" "calm w1"
    using lock_level_granted[OF m calm] free level by blast
  ultimately show ?thesis
    by (cases "level = FullContainerLock") (auto simp: Lock_def levels_of_def run_simps)
qed

lemma Lock_table:
  assumes "machine_ok ct cs m" and "Lock ct level wait (view p m) = (r, w)"
  shows "case r of
      Ok fdl \<Rightarrow> \<exists>m'. lock_run ct m (map (Granted p) (levels_of level)) m' \<and> view p m' = w \<and>
        (\<forall>l\<in>set (levels_of level). table_of cs m l = None) \<and>
        table_of cs m' = (\<lambda>l. if l \<in> set (levels_of level) then Some p else table_of cs m l)
    | Err e \<Rightarrow> \<exists>es m'. lock_run ct m es m' \<and> view p m' = w \<and> table_of cs m' = table_of cs m
    | Abort a \<Rightarrow> a = Blocked \<and> wait = WaitForLock"
proof (cases r)
  case (Ok fdl)
  then obtain m' where m': "lock_run ct m (map (Granted p) (levels_of level)) m'" "view p m' = w"
    using Lock_run[OF assms] by auto
  have "table_run (table_of cs m) (map (Granted p) (levels_of level)) (table_of cs m')"
    using run_simulates[OF m'(1) assms(1)] by simp
  from table_run_granted[OF this] show ?thesis unfolding Ok using m' by auto
next
  case (Err e)
  then obtain "done" l m' where m': "view p m' = w"
    "lock_run ct m (map (Granted p) done @ Refused p l # (if done = [] then [] else [Released p done])) m'"
    using Lock_run[OF assms] by auto
  have "table_run (table_of cs m) (map (Granted p) done @ Refused p l # (if done = [] then [] else [Released p done])) (table_of cs m')"
    using run_simulates[OF m'(2) assms(1)] by simp
  then have "table_of cs m' = table_of cs m" by (rule table_run_undone)
  then show ?thesis unfolding Err using m' by auto
next
  case (Abort a)
  then show ?thesis
    using Lock_outcome(5)[OF assms(2) machine_okD(1)[OF assms(1)] machine_okD(2)[OF assms(1)]] by simp
qed

section \<open>Properties\<close>

text \<open>
  C4: however the processes' calls interleave, and whichever system call fails, the lock
  files of a container implement a table of levels and their holders: a level is granted
  to a process only while nobody holds it, a refusal changes nothing, and releasing or
  ending gives up the process's own levels only. A process holds what it was granted, and
  no two processes hold the same level.
\<close>

theorem lock_protocol_refines:
  assumes "machine_ok ct cs m" and "lock_run ct m es m'"
  shows "table_run (table_of cs m) es (table_of cs m') \<and>
    (\<forall>p level. level \<in> fst ` set (m_held m' p) \<longleftrightarrow> table_of cs m' level = Some p) \<and>
    (\<forall>p q. p \<noteq> q \<longrightarrow> fst ` set (m_held m' p) \<inter> fst ` set (m_held m' q) = {})"
proof -
  have ok: "machine_ok ct cs m'" and run: "table_run (table_of cs m) es (table_of cs m')"
    using run_simulates[OF assms(2,1)] by simp_all
  have "level \<in> fst ` set (m_held m' p) \<longleftrightarrow> (\<exists>fd. (level, fd) \<in> set (m_held m' p))" for p level
    by force
  then have held: "level \<in> fst ` set (m_held m' p) \<longleftrightarrow> table_of cs m' level = Some p" for p level
    using held_okD(2)[OF machine_okD(4)[OF ok]] by (simp add: table_of_def)
  then show ?thesis using run by (metis disjoint_iff option.inject)
qed

text \<open>
  C5: \<^verbatim>\<open>Lock\<close> is all or nothing: when it returns locks, it took exactly its levels (all of
  them for the full container lock), which nobody held; when it returns an error, every
  level it took on the way is released and the table is what it was; it waits only when
  it was asked to. When nobody holds the levels and no call fails, it is granted.
\<close>

theorem Lock_all_or_nothing:
  assumes "machine_ok ct cs m" and "Lock ct level wait (view p m) = (r, w)"
  shows "(case r of
      Ok fdl \<Rightarrow> \<exists>m'. lock_run ct m (map (Granted p) (levels_of level)) m' \<and> view p m' = w \<and>
        (\<forall>l\<in>set (levels_of level). table_of cs m l = None) \<and>
        table_of cs m' = (\<lambda>l. if l \<in> set (levels_of level) then Some p else table_of cs m l)
    | Err e \<Rightarrow> \<exists>es m'. lock_run ct m es m' \<and> view p m' = w \<and> table_of cs m' = table_of cs m
    | Abort a \<Rightarrow> a = Blocked \<and> wait = WaitForLock) \<and>
    (calm (view p m) \<and> (\<forall>l\<in>set (levels_of level). table_of cs m l = None \<and> plain_file cs m l) \<longrightarrow>
      (\<exists>fdl. r = Ok fdl))"
proof
  show "calm (view p m) \<and> (\<forall>l\<in>set (levels_of level). table_of cs m l = None \<and> plain_file cs m l) \<longrightarrow>
      (\<exists>fdl. r = Ok fdl)"
    using Lock_granted[OF assms(1), of p level wait] assms(2) by auto
  show "case r of
      Ok fdl \<Rightarrow> \<exists>m'. lock_run ct m (map (Granted p) (levels_of level)) m' \<and> view p m' = w \<and>
        (\<forall>l\<in>set (levels_of level). table_of cs m l = None) \<and>
        table_of cs m' = (\<lambda>l. if l \<in> set (levels_of level) then Some p else table_of cs m l)
    | Err e \<Rightarrow> \<exists>es m'. lock_run ct m es m' \<and> view p m' = w \<and> table_of cs m' = table_of cs m
    | Abort a \<Rightarrow> a = Blocked \<and> wait = WaitForLock"
    by (rule Lock_table[OF assms])
qed

end
