(* ===== verification/Command_Facts.thy ===== *)
theory Command_Facts
  imports Nsbox_Main Container_Life
begin

text \<open>
  What the commands of \<^verbatim>\<open>cmd/nsbox\<close> guarantee: the command line is read into values of the
  commands' types, a configuration is accepted by plain rules and replaced at once, and
  deleting and renaming respect the default container.
\<close>

section \<open>The command line\<close>

text \<open>The lists that options of \<^verbatim>\<open>nsbox config\<close> collect hold no empty item and no comma.\<close>

fun command_valid :: "command \<Rightarrow> bool" where
  "command_valid (Config_cmd c) \<longleftrightarrow> list_all (\<lambda>rd. atv_valid (rd c)) [extraBindMounts, extraCapabilities,
     cc_privateDirs, cc_shareDevices, cc_syscallFilters, cc_xdgDesktopExtra, cc_xdgDesktopExports]"
| "command_valid _ \<longleftrightarrow> True"

text \<open>How many positional arguments a command takes.\<close>

fun arguments_fit :: "command \<Rightarrow> nat \<Rightarrow> bool" where
  "arguments_fit (Create_cmd _) n \<longleftrightarrow> n = 2"
| "arguments_fit (Rename_cmd _) n \<longleftrightarrow> n = 2"
| "arguments_fit (Images_cmd _) n \<longleftrightarrow> True"
| "arguments_fit (List_cmd _) n \<longleftrightarrow> True"
| "arguments_fit (Run_cmd _) n \<longleftrightarrow> True"
| "arguments_fit Version_cmd n \<longleftrightarrow> True"
| "arguments_fit _ n \<longleftrightarrow> n = 1"

lemma config_command_valid: "config_inv c \<Longrightarrow> command_valid (Config_cmd c)"
  by (simp add: config_inv_def)

lemma parse_command_valid:
  assumes "c0 \<in> set registered" and "app_inv b app0"
    and run: "flag_parse (flag_lookup (wrapper_SetFlags b c0)) args (app0, c0) = (Ok (actual, pos), (app, c))"
  shows "command_valid c"
proof (cases "c0 = Config_cmd new_config")
  case True
  have "config_inv new_config" by (rule config_flags.start_inv) simp
  then show ?thesis
    using config_line.parse_frame[OF run[unfolded True wrapper_SetFlags.simps]] assms(2)
    by (auto simp: config_command_valid simp del: command_valid.simps)
next
  case False
  have "command_Name c = command_Name c0"
    by (rule parse_command_Name[of b c0 args app0 actual pos app]) (simp add: parse_command_def run)
  then have "command_Name c \<noteq> ''config''" using assms(1) False by (auto simp: registered_def)
  then show ?thesis by (cases c) simp_all
qed

lemma positional_typed:
  "command_ParsePositional c pos = Inr d \<Longrightarrow> command_valid c \<Longrightarrow>
     command_valid d \<and> command_Name d = command_Name c \<and> arguments_fit c (length pos)"
  by (cases c) (auto simp: expect1_def expect2_def ExpectArgs_def split: if_splits list.splits)

text \<open>
  C17: what the command line of a command is read into has the command's type: the
  constructor stays the registered one, only flags of the program and of this command
  are set and every other flag keeps its value, \<^verbatim>\<open>-sudo\<close> is set only in a build that has
  it, lists hold no empty item and no comma, and the command runs only with the number
  of arguments it takes.
\<close>

theorem command_line_typed:
  assumes "c0 \<in> set registered" and "app_inv b app0"
    and "parse_command b c0 args app0 = Ok (actual, pos, app, c)"
  shows "app_inv b app \<and> wrapper_SetFlags b c = wrapper_SetFlags b c0 \<and>
    set actual \<subseteq> f_Name ` set (wrapper_SetFlags b c) \<and>
    (\<forall>f\<in>set (wrapper_SetFlags b c). f_Name f \<notin> set actual \<longrightarrow> f_String f (app, c) = f_String f (app0, c0)) \<and>
    (\<forall>d. command_ParsePositional c pos = Inr d \<longrightarrow>
       command_Name d = command_Name c0 \<and> command_valid d \<and> arguments_fit c (length pos))"
proof -
  let ?F = "wrapper_SetFlags b c0"
  have run: "flag_parse (flag_lookup ?F) args (app0, c0) = (Ok (actual, pos), (app, c))"
    using assms(3) by (auto simp: parse_command_def split: prod.splits res.splits)
  obtain ok where line: "line_inv b c0 ?F ok" using registered_lines[OF assms(1)] by blast
  then have fw: "forwarding ?F (\<lambda>(a, d). app_start a \<and> d = c0) (\<lambda>(a, d). app_inv b a \<and> ok d)"
    by (simp add: line_inv_def)
  have "ok c0"
    using forwarding.start_inv[OF fw, of "(initial_app [], c0)"] by (simp add: app_start_def initial_app_def)
  then have st: "app_inv b app \<and> ok c" "set actual \<subseteq> f_Name ` set ?F"
    "\<forall>f\<in>set ?F. f_Name f \<notin> set actual \<longrightarrow> f_String f (app, c) = f_String f (app0, c0)"
    using forwarding.parse_frame[OF fw run] assms(2) by auto
  moreover have "wrapper_SetFlags b c = ?F" "command_Name c = command_Name c0"
    using line st(1) by (simp_all add: line_inv_def)
  ultimately show ?thesis
    using positional_typed[OF _ parse_command_valid[OF assms(1,2) run]] by auto
qed

section \<open>The configuration\<close>

text \<open>The rules for a configuration, without regular expressions.\<close>

definition config_acceptable :: "Config \<Rightarrow> bool" where
  "config_acceptable c \<longleftrightarrow>
     (\<forall>s\<in>set (ExtraBindMounts c). s \<noteq> '''' \<and> (\<forall>ch\<in>set s. ch \<noteq> CHR 0x0A)) \<and>
     (\<forall>s\<in>set (SyscallFilters c).
        (\<exists>t. s = CHR ''@'' # t \<and> t \<noteq> '''' \<and> (\<forall>ch\<in>set t. lower ch \<or> ch = CHR ''-'')) \<or>
        (s \<noteq> '''' \<and> (lower (last s) \<or> digit (last s) \<or> last s = CHR ''_''))) \<and>
     (\<forall>s\<in>set (PrivateDirs c). s \<noteq> '''' \<and> \<not> is_abs s \<and> \<not> contains s ''..'') \<and>
     (VirtualNetwork c \<longrightarrow> Boot c) \<and>
     (\<forall>d\<in>set (ShareDevices c). d = ''*'' \<and> \<not> Boot c \<or> d \<noteq> ''*'' \<and> is_abs d)"

lemma dot_newline: "dot c \<longleftrightarrow> c \<noteq> CHR 0x0A"
proof -
  have "of_char (CHR 0x0A) = (10::nat)" by simp
  then show ?thesis unfolding dot_def by (metis of_char_eq_iff)
qed

lemma check_config_rules: "check_config c = None \<longleftrightarrow> config_acceptable c"
proof -
  have "list_all (match_string syscall_filter_rx) xs \<longleftrightarrow> (\<forall>s\<in>set xs.
        (\<exists>t. s = CHR ''@'' # t \<and> t \<noteq> '''' \<and> (\<forall>ch\<in>set t. lower ch \<or> ch = CHR ''-'')) \<or>
        (s \<noteq> '''' \<and> (lower (last s) \<or> digit (last s) \<or> last s = CHR ''_'')))" for xs
    by (simp add: list_all_iff match_syscall_filter_rx group_char_def syscall_char_def)
  moreover have "list_all dot s \<longleftrightarrow> (\<forall>ch\<in>set s. ch \<noteq> CHR 0x0A)" for s
    by (simp add: list_all_iff dot_newline)
  ultimately show ?thesis
    unfolding check_config_None config_acceptable_def by (auto simp: list_all_iff)
qed

text \<open>
  C15: the checks of \<^verbatim>\<open>UpdateConfig\<close>, which match regular expressions and stop at the
  first item that fails, accept exactly the configurations that follow the rules: bind
  mounts are lines, private directories are relative and without \<^verbatim>\<open>..\<close>, a virtual network
  needs a booted container, and devices are absolute paths or, unbooted, \<^verbatim>\<open>*\<close>. A
  syscall filter needs only its last character right.
\<close>

theorem check_config_equiv: "check_config c = None \<longleftrightarrow> config_acceptable c"
  by (rule check_config_rules)

text \<open>
  C14: reconfiguring is atomic: \<^verbatim>\<open>config.json\<close> becomes the new configuration, which
  follows the rules, exactly when the call succeeds; else it is what it was. A
  configuration against the rules is refused before anything is written, and besides
  the configuration and its temporary file nothing changes.
\<close>

theorem UpdateConfig_atomic:
  assumes "located ct cs w" and "no_link (disk w) (cs @ [''config.json.tmp''])"
    and "UpdateConfig ct w = (r, w')"
  shows "(case r of
      Ok _ \<Rightarrow> config_acceptable (Cfg ct) \<and> (\<exists>i. fs_get (disk w') (cs @ [''config.json'']) = Some i \<and>
        i_kind i = Regular (Doc (encode_config (Cfg ct))))
    | Err _ \<Rightarrow> fs_get (disk w') (cs @ [''config.json'']) = fs_get (disk w) (cs @ [''config.json'']) \<and>
        (\<not> config_acceptable (Cfg ct) \<longrightarrow> w' = w)
    | Abort _ \<Rightarrow> False) \<and>
    (\<forall>q. \<not> prefix (cs @ [''config.json.tmp'']) q \<longrightarrow> \<not> prefix (cs @ [''config.json'']) q \<longrightarrow>
       fs_get (disk w') q = fs_get (disk w) q) \<and> same_locks w w'"
proof -
  note u = UpdateConfig_effect[OF assms]
  have acc: "config_acceptable (Cfg ct) \<longleftrightarrow> check_config (Cfg ct) = None"
    by (simp add: check_config_rules)
  have "w' = w" if "\<not> config_acceptable (Cfg ct)"
    using that assms(3) unfolding acc by (auto simp: UpdateConfig_def check_def run_simps split: option.splits)
  moreover have "q \<noteq> cs @ [''config.json'']" if "\<not> prefix (cs @ [''config.json'']) q" for q using that by auto
  ultimately show ?thesis using u acc by (auto split: res.splits)
qed

section \<open>Deleting\<close>

text \<open>Opening by name and reading the default only read.\<close>

lemma Open_cases:
  obtains (err) e w1 where "Open b u n w = (Err e, w1)" "same_os w w1"
  | (ok) ct w1 where "Open b u n w = (Ok ct, w1)" "same_os w w1" "validateName n = None" "Name ct = n"
      "Path ct = ContainerData b u n"
proof (cases "Open b u n w")
  case (Pair r w1)
  show thesis
    using that Pair keepsD[OF keeps_Open Pair] Open_OkD[of b u n w _ w1] Open_no_abort[of b u n w _ w1]
    by (cases r) auto
qed

lemma of_sum_no_abort: "of_sum x = Abort a \<Longrightarrow> False"
  by (cases x) simp_all

lemma returns_DefaultContainer: "returns (DefaultContainer b u)"
  unfolding DefaultContainer_def OpenPath_def Let_def
  by (auto intro!: returns_all returns_lift_res returns_ret returns_os dest: of_sum_no_abort split: sum.splits)

lemma or_failure_run:
  "or_failure m f w = (case m w of
      (Ok x, w') \<Rightarrow> f x w' | (Err e, w') \<Rightarrow> (Ok ExitFailure, w') | (Abort a, w') \<Rightarrow> (Abort a, w'))"
  by (auto simp: or_failure_def run_simps HandleError_def split: prod.splits res.splits)

lemma handled_run:
  "handled m w = (case m w of
      (Ok x, w') \<Rightarrow> (Ok ExitSuccess, w') | (Err e, w') \<Rightarrow> (Ok ExitFailure, w') | (Abort a, w') \<Rightarrow> (Abort a, w'))"
  by (auto simp: handled_def run_simps HandleError_def split: prod.splits res.splits)

definition delete_agreed :: "nsbox_sys \<Rightarrow> deleteCommand \<Rightarrow> bool" where
  "delete_agreed ns cmd \<longleftrightarrow> delete_yes cmd \<or> to_lower (n_Scanln ns) = ''y''"

lemma lockable_container:
  assumes "layout_ok b u" and "validateName name = None" and "Path ct = ContainerData b u name"
    and "solid (disk w) (container_loc b u name)"
    and "list_all (\<lambda>level. no_link (disk w) (lock_loc (container_loc b u name) level)) lower_levels"
  shows "lockable ct (container_loc b u name) w"
proof -
  have "plain name" using assms(2) by (rule validateName_plain)
  then show ?thesis
    using assms container_path[OF assms(1)]
    by (simp add: lockable_def located_def container_loc_def)
qed

text \<open>After the default is known: at most a question is printed, and the answer decides.\<close>

lemma delete_decides:
  assumes "Open (n_build ns) u (delete_name cmd) w = (Ok ct, w1)" and "Name ct = delete_name cmd"
    and "DefaultContainer (n_build ns) u w1 = (Ok def, w2)" and "\<forall>x. def = Some x \<longrightarrow> Name x \<noteq> delete_name cmd"
  shows "\<exists>out. delete_Execute ns u cmd w =
    (if delete_agreed ns cmd then handled (LockAndDelete ct NoWaitForLock) else succeed) (w2\<lparr>stdout := out\<rparr>)"
proof (cases "delete_yes cmd")
  case True
  then have "delete_Execute ns u cmd w =
      (if delete_agreed ns cmd then handled (LockAndDelete ct NoWaitForLock) else succeed) (w2\<lparr>stdout := stdout w2\<rparr>)"
    using assms by (cases "def") (simp_all add: delete_Execute_def or_failure_run delete_agreed_def seq_def ret_def)
  then show ?thesis ..
next
  case False
  define msg where "msg = ''Are you sure you want to PERMANENTLY delete '' @ delete_name cmd @ ''? (y/n) ''"
  have "delete_Execute ns u cmd w =
      (if delete_agreed ns cmd then handled (LockAndDelete ct NoWaitForLock) else succeed) (w2\<lparr>stdout := stdout w2 @ [msg]\<rparr>)"
    using assms False unfolding delete_Execute_def msg_def[symmetric]
    by (cases "def") (simp_all add: or_failure_run delete_agreed_def seq_def ret_def print_def)
  then show ?thesis ..
qed

text \<open>
  C12: \<^verbatim>\<open>nsbox delete\<close> deletes nothing unless the container opened, it is not the default
  container and the user agreed, on the command line or when asked; then it removes the
  container's tree, or reports a failure. Nothing outside that tree changes, and no lock
  is kept.
\<close>

theorem delete_Execute_safe:
  assumes "layout_ok (n_build ns) u" and "cs = container_loc (n_build ns) u (delete_name cmd)"
    and "solid (disk w) cs" and "list_all (\<lambda>level. no_link (disk w) (lock_loc cs level)) lower_levels"
    and "fds_ok w" and "delete_Execute ns u cmd w = (r, w')"
  shows "(\<exists>st. r = Ok st) \<and> flocks w' = flocks w \<and>
    (\<forall>q. \<not> prefix cs q \<longrightarrow> fs_get (disk w') q = fs_get (disk w) q) \<and>
    ((\<exists>q. fs_get (disk w') q \<noteq> fs_get (disk w) q) \<longrightarrow> delete_agreed ns cmd \<and>
       (\<exists>ct w1 def w2. Open (n_build ns) u (delete_name cmd) w = (Ok ct, w1) \<and>
          DefaultContainer (n_build ns) u w1 = (Ok def, w2) \<and> (\<forall>d. def = Some d \<longrightarrow> Name d \<noteq> delete_name cmd))) \<and>
    (r = Ok ExitSuccess \<and> delete_agreed ns cmd \<longrightarrow> (\<forall>q. prefix cs q \<longrightarrow> fs_get (disk w') q = None))"
proof (cases rule: Open_cases[of "n_build ns" u "delete_name cmd" w])
  case (err e w1)
  then show ?thesis using assms(6) same_osD(1,2)[OF err(2)] by (auto simp: delete_Execute_def or_failure_run)
next
  case o: (ok ct w1)
  obtain rd w2 where d: "DefaultContainer (n_build ns) u w1 = (rd, w2)" by fastforce
  have so: "same_os w w2" using o(2) keepsD[OF keeps_DefaultContainer d] same_os.frame_trans by blast
  note same = same_osD[OF so]
  have rd: "rd \<noteq> Abort a" for a using d returnsD[OF returns_DefaultContainer] by auto
  show ?thesis
  proof (cases "\<exists>def. rd = Ok def \<and> (\<forall>x. def = Some x \<longrightarrow> Name x \<noteq> delete_name cmd)")
    case False
    then have "(r = Ok ExitFailure) \<and> w' = w2"
      using assms(6) rd o(1,4) d
      by (cases rd) (auto simp: delete_Execute_def or_failure_run HandleError_def ret_def split: option.splits)
    then show ?thesis using same by simp
  next
    case True
    then obtain def where def: "rd = Ok def" "\<forall>x. def = Some x \<longrightarrow> Name x \<noteq> delete_name cmd" by blast
    obtain out where run: "delete_Execute ns u cmd w =
        (if delete_agreed ns cmd then handled (LockAndDelete ct NoWaitForLock) else succeed) (w2\<lparr>stdout := out\<rparr>)"
      using delete_decides[OF o(1,4)] d def by blast
    let ?w3 = "w2\<lparr>stdout := out\<rparr>"
    show ?thesis
    proof (cases "delete_agreed ns cmd")
      case False
      then show ?thesis using run assms(6) same by (simp add: succeed_def ret_def)
    next
      case agreed: True
      have "lockable ct cs w"
        unfolding assms(2) by (rule lockable_container[OF assms(1) o(3,5)]) (use assms(2-4) in simp_all)
      then have lk: "lockable ct cs ?w3" by (rule lockable_same_disk) (simp add: same)
      have fo: "fds_ok ?w3" using assms(5) same by (simp add: fds_ok_def)
      have r: "handled (LockAndDelete ct NoWaitForLock) ?w3 = (r, w')" using run agreed assms(6) by simp
      show ?thesis
        using LockAndDelete_outcome[OF lk fo, of NoWaitForLock] r o(1) d def agreed same
        by (auto simp: handled_run split: prod.splits res.splits)
    qed
  qed
qed

section \<open>Renaming\<close>

text \<open>The calls before the directory is moved: the container is opened and locked, the default read.\<close>

lemma rename_steps:
  assumes "rename_Execute ns u cmd w = (Ok ExitSuccess, w')"
  obtains ct def w1 w2 w3 w4 held where
    "Open (n_build ns) u (rename_current cmd) w = (Ok ct, w1)"
    "Lock ct FullContainerLock NoWaitForLock w1 = (Ok held, w2)"
    "DefaultContainer (n_build ns) u w2 = (Ok (Some def), w3)"
    "Rename ct (rename_new cmd) w3 = (Ok (), w4)"
    "if Name def = rename_current cmd then SetDefaultContainer (n_build ns) u (rename_new cmd) w4 = (Ok (), w') else w' = w4"
proof -
  obtain r1 w1 where o: "Open (n_build ns) u (rename_current cmd) w = (r1, w1)" by fastforce
  then obtain ct where ct: "r1 = Ok ct"
    using assms by (cases r1) (auto simp: rename_Execute_def or_failure_run)
  obtain r2 w2 where l: "Lock ct FullContainerLock NoWaitForLock w1 = (r2, w2)" by fastforce
  then obtain held where held: "r2 = Ok held"
    using assms o ct by (cases r2) (auto simp: rename_Execute_def or_failure_run LockUntilProcessDeath_def seq_def)
  obtain r3 w3 where d: "DefaultContainer (n_build ns) u w2 = (r3, w3)" by fastforce
  note run = rename_Execute_def or_failure_run LockUntilProcessDeath_def isDefaultContainer_def wrap_run on_err_run
    seq_def ret_def fail_def panic_def abort_def succeed_def o ct l held d
  obtain def where def: "r3 = Ok (Some def)"
    using assms by (cases r3) (auto simp: run split: option.splits)
  obtain r4 w4 where m: "Rename ct (rename_new cmd) w3 = (r4, w4)" by fastforce
  have r4: "r4 = Ok ()"
    using assms def m by (cases r4) (auto simp: run split: option.splits)
  have "if Name def = rename_current cmd then SetDefaultContainer (n_build ns) u (rename_new cmd) w4 = (Ok (), w') else w' = w4"
    using assms def m r4 by (auto simp: run split: prod.splits res.splits if_splits)
  then show thesis using that o ct l held d def m r4 by simp
qed

lemma same_but_locks_solid: "same_but_locks cs w w' \<Longrightarrow> cs \<noteq> [] \<Longrightarrow> solid (disk w) cs \<Longrightarrow> solid (disk w') cs"
proof (rule solid_cong, assumption)
  fix q assume "same_but_locks cs w w'" "cs \<noteq> []" "prefix q cs"
  then have "q \<noteq> lock_loc cs level" if "level \<in> set lower_levels" for level
    using that by (auto simp: lock_loc_def lower_levels_def dest: prefix_length_le)
  then show "fs_get (disk w') q = fs_get (disk w) q"
    using \<open>same_but_locks cs w w'\<close> by (simp add: same_but_locks_def)
qed

text \<open>The move itself, and what it leaves alone.\<close>

lemma container_loc_apart:
  "old \<noteq> new \<Longrightarrow> \<not> prefix (container_loc b u old) (container_loc b u new)"
  "n \<noteq> ''inventory'' \<Longrightarrow> \<not> prefix (user_loc b u @ [n]) (container_loc b u name @ rest)"
  "n \<noteq> ''inventory'' \<Longrightarrow> \<not> prefix (container_loc b u name) (user_loc b u @ [n])"
  "container_loc b u name \<noteq> []" "prefix q (user_loc b u) \<Longrightarrow> \<not> prefix (container_loc b u name) q"
  by (auto simp: container_loc_def inventory_loc_def dest!: prefix_length_le)

lemma Rename_moves:
  assumes "layout_ok b u" and "solid (disk w) (inventory_loc b u)" and "plain old" and "plain new" and "new \<noteq> old"
    and "Path ct = path_of (container_loc b u old)" and run: "Rename ct new w = (Ok (), w')"
  shows "fs_get (disk w') (container_loc b u new @ rest) = fs_get (disk w) (container_loc b u old @ rest)"
    and "fs_get (disk w') (container_loc b u old @ rest) = None"
    and "\<not> prefix (container_loc b u old) q \<Longrightarrow> \<not> prefix (container_loc b u new) q \<Longrightarrow>
      fs_get (disk w') q = fs_get (disk w) q"
proof -
  let ?a = "container_loc b u old" and ?b = "container_loc b u new"
  have apart: "\<not> prefix ?a ?b" "\<not> prefix ?b ?a" "?a \<noteq> []" "?b \<noteq> []"
    using assms(5) container_loc_apart by metis+
  have path: "path_join [path_dir (Path ct), new] = path_of ?b"
    using assms(1,3,4,6) by (simp add: container_loc_def)
  have "resolve False w (path_of ?a) = Inr ?a" "resolve False w (path_of ?b) = Inr ?b"
    using assms(1-4) by (simp_all add: container_loc_def)
  then have "disk w' = fs_move ?a ?b (disk w)"
    using apart(3,4,1)
    by (cases rule: os_Rename_cases) (use run[unfolded Rename_def path, unfolded assms(6)] in auto)
  then show "fs_get (disk w') (?b @ rest) = fs_get (disk w) (?a @ rest)" "fs_get (disk w') (?a @ rest) = None"
    "\<not> prefix ?a q \<Longrightarrow> \<not> prefix ?b q \<Longrightarrow> fs_get (disk w') q = fs_get (disk w) q"
    using disk.get_move_dest[OF apart(1,2)] disk.get_move_source[OF apart(1,2)]
      disk.get_move_elsewhere[OF apart(1,2)] by simp_all
qed

text \<open>A new default, seen from a container's place: only the default link is another.\<close>

lemma moved_default:
  assumes "layout_ok b u" and "solid (disk w) (user_loc b u)" and "plain new" and "new \<noteq> ''-''"
    and "SetDefaultContainer b u new w = (Ok (), w')"
  shows "\<exists>i. fs_get (disk w') (user_loc b u @ [''default'']) = Some i \<and> i_kind i = Symlink (path_of (container_loc b u new))"
    and "\<not> prefix (user_loc b u @ [''default'']) q \<Longrightarrow> \<not> prefix (user_loc b u @ [''default.tmp'']) q \<Longrightarrow>
      fs_get (disk w') q = fs_get (disk w) q"
    and "fs_get (disk w') (container_loc b u name @ rest) = fs_get (disk w) (container_loc b u name @ rest)"
proof -
  have "new \<noteq> ''''" using assms(3) by (auto simp: plain_def)
  note eff = SetDefault_effect[OF assms(1,2) this assms(4,5)]
  show "\<exists>i. fs_get (disk w') (user_loc b u @ [''default'']) = Some i \<and> i_kind i = Symlink (path_of (container_loc b u new))"
    using eff by (simp add: container_loc_def inventory_loc_def)
  show same: "fs_get (disk w') q = fs_get (disk w) q"
    if "\<not> prefix (user_loc b u @ [''default'']) q" "\<not> prefix (user_loc b u @ [''default.tmp'']) q" for q
    using eff that by blast
  show "fs_get (disk w') (container_loc b u name @ rest) = fs_get (disk w) (container_loc b u name @ rest)"
    by (rule same; rule container_loc_apart(2); simp)
qed

text \<open>Up to the move: the locks are held, and the directory is at its new place.\<close>

lemma locked_and_moved:
  assumes "layout_ok b u" and "cs = container_loc b u old" and "cs' = container_loc b u new" and "plain new" and "new \<noteq> old"
    and "solid (disk w) cs" and "list_all (\<lambda>level. no_link (disk w) (lock_loc cs level)) lower_levels" and "fds_ok w"
    and op: "Open b u old w = (Ok ct, w1)" and lock: "Lock ct FullContainerLock NoWaitForLock w1 = (Ok held, w2)"
    and def: "DefaultContainer b u w2 = (Ok def, w3)" and mv: "Rename ct new w3 = (Ok (), w4)"
  shows "same_but_locks cs w w2" and "holds cs (levels_of FullContainerLock) held w2"
    and "fs_get (disk w4) (cs' @ rest) = fs_get (disk w2) (cs @ rest)" and "fs_get (disk w4) (cs @ rest) = None"
    and "\<not> prefix cs q \<Longrightarrow> \<not> prefix cs' q \<Longrightarrow> fs_get (disk w4) q = fs_get (disk w) q"
proof -
  note o = Open_OkD[OF op]
  note s1 = same_osD[OF o(4)]
  have ne: "cs \<noteq> []" by (simp add: assms(2) container_loc_def)
  have "lockable ct cs w"
    unfolding assms(2) by (rule lockable_container[OF assms(1) o(1,3)]) (use assms(2,6,7) in simp_all)
  then have lk: "lockable ct cs w1" by (rule lockable_same_disk) (simp add: s1)
  have "fds_ok w1" using assms(8) s1 by (simp add: fds_ok_def)
  note out = Lock_outcome[OF lock lk this]
  show holding: "holds cs (levels_of FullContainerLock) held w2" using out(5) by simp
  show sbl: "same_but_locks cs w w2"
    using out(1) same_but_locks_disk[OF same_os_imp(2)[OF o(4)]] same_but_locks.frame_trans by blast
  note s3 = same_osD[OF keepsD[OF keeps_DefaultContainer def]]
  have pl: "plain old" using validateName_plain[OF o(1)] .
  have path: "Path ct = path_of (container_loc b u old)" using o(3) container_path[OF assms(1) pl] by simp
  have sol3: "solid (disk w3) (inventory_loc b u)"
    using same_but_locks_solid[OF sbl ne assms(6)] s3(1) by (simp add: assms(2) container_loc_def solid_snoc)
  note moved = Rename_moves[OF assms(1) sol3 pl assms(4,5) path mv, folded assms(2,3)]
  show "fs_get (disk w4) (cs' @ rest) = fs_get (disk w2) (cs @ rest)" "fs_get (disk w4) (cs @ rest) = None"
    "\<not> prefix cs q \<Longrightarrow> \<not> prefix cs' q \<Longrightarrow> fs_get (disk w4) q = fs_get (disk w) q"
    using moved s3(1) sbl not_below_not_lock[of cs q] by (simp_all add: same_but_locks_def)
qed


text \<open>The new name is not checked: a container can be renamed to a name that cannot be opened.\<close>

lemma rename_to_invalid_name: "validateName new \<noteq> None \<Longrightarrow> fst (Open b u new w) \<noteq> Ok ct"
  using Open_OkD(1)[of b u new w ct "snd (Open b u new w)"] by (metis prod.collapse)

text \<open>Without a default container, renaming dereferences a nil pointer.\<close>

lemma rename_panics_without_default:
  assumes "Open (n_build ns) u (rename_current cmd) w = (Ok ct, w1)"
    and "LockUntilProcessDeath ct FullContainerLock NoWaitForLock w1 = (Ok (), w2)"
    and "DefaultContainer (n_build ns) u w2 = (Ok None, w3)"
  shows "rename_Execute ns u cmd w = (Abort (Panic ''nil pointer dereference''), w3)"
  using assms
  by (simp add: rename_Execute_def or_failure_run isDefaultContainer_def wrap_run seq_def panic_def abort_def)

section \<open>Changing settings\<close>

text \<open>The visited flags of the three plain settings; an error among them is never lost.\<close>

lemma visit_settings:
  "each_acc (visit_config ns c) (ct, err) names w = (Ok (ct', None), w') \<Longrightarrow>
     err = None \<and> Name ct' = Name ct \<and> Path ct' = Path ct \<and>
     Cfg ct' = (Cfg ct)\<lparr>Auth := (if ''auth'' \<in> set names then cc_auth c else Auth (Cfg ct)),
       ShareCgroupfs := (if ''share-cgroupfs'' \<in> set names then cc_shareCgroupfs c else ShareCgroupfs (Cfg ct)),
       VirtualNetwork := (if ''virtual-network'' \<in> set names then cc_virtualNetwork c else VirtualNetwork (Cfg ct))\<rparr>"
proof (induction names arbitrary: ct err w)
  case Nil
  then show ?case by (cases "Cfg ct") (simp add: ret_def)
next
  case (Cons name names)
  obtain r w1 where v: "visit_config ns c (ct, err) name w = (r, w1)" by fastforce
  then obtain ct1 err1 where r: "r = Ok (ct1, err1)"
    and rest: "each_acc (visit_config ns c) (ct1, err1) names w1 = (Ok (ct', None), w')"
    using Cons.prems by (cases r) (auto simp: seq_def)
  have "(err1 = None \<longrightarrow> err = None) \<and> Name ct1 = Name ct \<and> Path ct1 = Path ct \<and>
      Cfg ct1 = (if name = ''auth'' then (Cfg ct)\<lparr>Auth := cc_auth c\<rparr>
        else if name = ''share-cgroupfs'' then (Cfg ct)\<lparr>ShareCgroupfs := cc_shareCgroupfs c\<rparr>
        else if name = ''virtual-network'' then (Cfg ct)\<lparr>VirtualNetwork := cc_virtualNetwork c\<rparr> else Cfg ct)"
    using v unfolding r visit_config_def
    by (auto simp: seq_def attempt_def print_def ret_def Let_def split: if_splits sum.splits res.splits prod.splits)
  then show ?case using Cons.IH[OF rest] by (cases "Cfg ct") auto
qed

text \<open>What the option of a list does to it, if it was given.\<close>

definition list_setting :: "string \<Rightarrow> string list \<Rightarrow> ArrayTransformValue \<Rightarrow> string list \<Rightarrow> string list" where
  "list_setting name given v old =
     (if name \<notin> set given then old
      else case atv_kind v of
        arrayTransformAdd \<Rightarrow> old @ filter (\<lambda>x. x \<notin> set old) (atv_items v)
      | arrayTransformDel \<Rightarrow> filter (\<lambda>x. x \<notin> set (atv_items v)) old
      | arrayTransformSet \<Rightarrow> atv_items v)"

lemma apply_setting:
  assumes "name \<notin> set given \<Longrightarrow> v = atv_zero"
  shows "fst (atv_Apply v old) = list_setting name given v old"
  using assms by (auto simp: list_setting_def atv_Apply_eq atv_zero_def split: arrayTransformKind.splits)

lemma config_options_kept:
  assumes "parse_command b (Config_cmd new_config) args app0 = Ok (given, pos, app, Config_cmd c)" and "app_inv b app0"
  shows "config_inv c" and "f \<in> set config_SetFlags \<Longrightarrow> f_Name f \<notin> set given \<Longrightarrow> f_String f c = f_String f new_config"
proof -
  have run: "flag_parse (flag_lookup (both_flags (setGlobalFlags b) Config_cmd the_config config_SetFlags)) args
      (app0, Config_cmd new_config) = (Ok (given, pos), (app, Config_cmd c))"
    using assms(1) by (auto simp: parse_command_def split: prod.splits res.splits)
  have inv: "config_inv new_config" by (rule config_flags.start_inv) simp
  note frame = config_line.parse_frame[OF run]
  show "config_inv c" using frame inv assms(2) by auto
  assume f: "f \<in> set config_SetFlags" "f_Name f \<notin> set given"
  let ?g = "lift_flag (\<lambda>(a, d). the_config d) (\<lambda>x (a, d). (a, Config_cmd x)) f :: (nsboxApp \<times> command) Flag"
  have "?g \<in> set (both_flags (setGlobalFlags b) Config_cmd the_config config_SetFlags)"
    using f(1) by (simp add: both_flags_def right_flags_def)
  then have "f_String ?g (app, Config_cmd c) = f_String ?g (app0, Config_cmd new_config)"
    using frame inv assms(2) f(2) by auto
  then show "f_String f c = f_String f new_config" by simp
qed

text \<open>The settings that are visited are those on the command line.\<close>

lemma visited_given:
  assumes "name \<in> f_Name ` set config_SetFlags"
  shows "name \<in> set (visited_flags b (Config_cmd c) given) \<longleftrightarrow> name \<in> set given"
proof -
  obtain f where f: "f \<in> set config_SetFlags" "name = f_Name f" using assms by blast
  let ?g = "lift_flag (\<lambda>(a, d). the_config d) (\<lambda>x (a, d). (a, Config_cmd x)) f :: (nsboxApp \<times> command) Flag"
  have "?g \<in> set (wrapper_SetFlags b (Config_cmd c))" "f_Name ?g = name"
    using f by (simp_all add: both_flags_def right_flags_def)
  then show ?thesis unfolding visited_flags_def set_map set_flag_Visit by blast
qed

text \<open>An array option is applied as it was given, or leaves the old value alone.\<close>

lemma given_lists:
  assumes "parse_command b (Config_cmd new_config) args app0 = Ok (given, pos, app, Config_cmd c)" and "app_inv b app0"
  shows "fst (atv_Apply (extraBindMounts c) xs) = list_setting ''extra-bind-mounts'' given (extraBindMounts c) xs"
    "fst (atv_Apply (extraCapabilities c) xs) = list_setting ''extra-capabilities'' given (extraCapabilities c) xs"
    "fst (atv_Apply (cc_privateDirs c) xs) = list_setting ''private-dirs'' given (cc_privateDirs c) xs"
    "fst (atv_Apply (cc_shareDevices c) xs) = list_setting ''share-devices'' given (cc_shareDevices c) xs"
    "fst (atv_Apply (cc_syscallFilters c) xs) = list_setting ''syscall-filters'' given (cc_syscallFilters c) xs"
    "fst (atv_Apply (cc_xdgDesktopExtra c) xs) = list_setting ''xdg-desktop-extra'' given (cc_xdgDesktopExtra c) xs"
    "fst (atv_Apply (cc_xdgDesktopExports c) xs) = list_setting ''xdg-desktop-exports'' given (cc_xdgDesktopExports c) xs"
proof -
  note opt = config_options_kept[OF assms]
  have lists: "fst (atv_Apply (v c) xs) = list_setting name given (v c) xs"
    if "flag_ArrayVar name v upd \<in> set config_SetFlags" "atv_valid (v c)" "v new_config = atv_zero"
    for name v and upd :: "(ArrayTransformValue \<Rightarrow> ArrayTransformValue) \<Rightarrow> configCommand \<Rightarrow> configCommand"
    by (rule apply_setting)
      (use opt(2)[OF that(1)] that(2,3) atv.str_inj[OF _ atv.valid_fresh] in \<open>simp add: flag_ArrayVar_def\<close>)
  show "fst (atv_Apply (extraBindMounts c) xs) = list_setting ''extra-bind-mounts'' given (extraBindMounts c) xs"
    by (rule lists[where upd = extraBindMounts_update]) (use opt(1) in \<open>simp_all add: config_SetFlags_def new_config_def config_inv_def\<close>)
  show "fst (atv_Apply (extraCapabilities c) xs) = list_setting ''extra-capabilities'' given (extraCapabilities c) xs"
    by (rule lists[where upd = extraCapabilities_update]) (use opt(1) in \<open>simp_all add: config_SetFlags_def new_config_def config_inv_def\<close>)
  show "fst (atv_Apply (cc_privateDirs c) xs) = list_setting ''private-dirs'' given (cc_privateDirs c) xs"
    by (rule lists[where upd = cc_privateDirs_update]) (use opt(1) in \<open>simp_all add: config_SetFlags_def new_config_def config_inv_def\<close>)
  show "fst (atv_Apply (cc_shareDevices c) xs) = list_setting ''share-devices'' given (cc_shareDevices c) xs"
    by (rule lists[where upd = cc_shareDevices_update]) (use opt(1) in \<open>simp_all add: config_SetFlags_def new_config_def config_inv_def\<close>)
  show "fst (atv_Apply (cc_syscallFilters c) xs) = list_setting ''syscall-filters'' given (cc_syscallFilters c) xs"
    by (rule lists[where upd = cc_syscallFilters_update]) (use opt(1) in \<open>simp_all add: config_SetFlags_def new_config_def config_inv_def\<close>)
  show "fst (atv_Apply (cc_xdgDesktopExtra c) xs) = list_setting ''xdg-desktop-extra'' given (cc_xdgDesktopExtra c) xs"
    by (rule lists[where upd = cc_xdgDesktopExtra_update]) (use opt(1) in \<open>simp_all add: config_SetFlags_def new_config_def config_inv_def\<close>)
  show "fst (atv_Apply (cc_xdgDesktopExports c) xs) = list_setting ''xdg-desktop-exports'' given (cc_xdgDesktopExports c) xs"
    by (rule lists[where upd = cc_xdgDesktopExports_update]) (use opt(1) in \<open>simp_all add: config_SetFlags_def new_config_def config_inv_def\<close>)
qed

text \<open>
  C16: \<^verbatim>\<open>nsbox config\<close> changes the settings that were given and no others: each plain
  setting becomes the value given for it, each list gets the new items, loses the items
  named, or is replaced, and what was not given stays.
\<close>

theorem config_changes_given:
  assumes "parse_command b (Config_cmd new_config) args app0 = Ok (given, pos, app, Config_cmd c)" and "app_inv b app0"
    and "each_acc (visit_config ns c) (ct, None) (visited_flags b (Config_cmd c) given) w = (Ok (ct', None), w')"
    and "old = Cfg ct"
  shows "Name ct' = Name ct \<and> Path ct' = Path ct \<and> apply_lists c (Cfg ct') = old\<lparr>
    Auth := (if ''auth'' \<in> set given then cc_auth c else Auth old),
    ShareCgroupfs := (if ''share-cgroupfs'' \<in> set given then cc_shareCgroupfs c else ShareCgroupfs old),
    VirtualNetwork := (if ''virtual-network'' \<in> set given then cc_virtualNetwork c else VirtualNetwork old),
    ExtraBindMounts := list_setting ''extra-bind-mounts'' given (extraBindMounts c) (ExtraBindMounts old),
    ExtraCapabilities := list_setting ''extra-capabilities'' given (extraCapabilities c) (ExtraCapabilities old),
    PrivateDirs := list_setting ''private-dirs'' given (cc_privateDirs c) (PrivateDirs old),
    ShareDevices := list_setting ''share-devices'' given (cc_shareDevices c) (ShareDevices old),
    SyscallFilters := list_setting ''syscall-filters'' given (cc_syscallFilters c) (SyscallFilters old),
    XdgDesktopExtra := list_setting ''xdg-desktop-extra'' given (cc_xdgDesktopExtra c) (XdgDesktopExtra old),
    XdgDesktopExports := list_setting ''xdg-desktop-exports'' given (cc_xdgDesktopExports c) (XdgDesktopExports old)\<rparr>"
proof -
  have "''auth'' \<in> f_Name ` set config_SetFlags" "''share-cgroupfs'' \<in> f_Name ` set config_SetFlags"
    "''virtual-network'' \<in> f_Name ` set config_SetFlags" by (simp_all add: config_flags)
  note given = this[THEN visited_given]
  show ?thesis
    using visit_settings[OF assms(3)] unfolding given assms(4)
    by (simp add: apply_lists_def given_lists[OF assms(1,2)])
qed

end
