(* ===== verification/Witnesses_Commands.thy ===== *)
theory Witnesses_Commands
  imports Witnesses_Programs Nsbox_Main Varlink_Host Session_Events Lock_Protocol Command_Facts
begin

text \<open>
  The command line on the machine of \<^verbatim>\<open>Witnesses\<close>: the program is installed in \<^verbatim>\<open>/x\<close>,
  the caller's environment has one whitelisted entry.
\<close>

section \<open>Running again\<close>

definition exe_world :: world where
  "exe_world = sample_world\<lparr>disk :=
     [([''x''], dir_node 1), ([''x'', ''bin''], dir_node 2), ([''x'', ''bin'', ''nsbox''], file_node 3 (Raw '''')),
      ([''x'', ''libexec''], dir_node 4), ([''x'', ''libexec'', ''nsbox''], dir_node 5),
      ([''x'', ''libexec'', ''nsbox'', ''nsbox-invoker''], file_node 6 (Raw ''''))],
     proc_uid := 1000, environ := [''LANG=C'', ''FOO=1'']\<rparr>"

definition sample_info :: info_sys where
  "sample_info = \<lparr>i_systemd = None, i_machined = None, i_MemoryCurrent = (\<lambda>_. Inl (Msg ''unknown'')),
     i_Timestamp = (\<lambda>_. Inl (Msg ''unknown'')), i_RFC1123 = (\<lambda>_. ''''), i_humanTime = (\<lambda>_. ''''), i_humanBytes = (\<lambda>_. '''')\<rparr>"

definition sample_gtk :: gtk where
  "sample_gtk = \<lparr>gtk_open = (\<lambda>_. None), gtk_symbol = (\<lambda>_. None), gtk_sizes = (\<lambda>_ _. []), gtk_lookup = (\<lambda>_ _ _. None)\<rparr>"

definition sample_ns :: nsbox_sys where
  "sample_ns = \<lparr>n_build = sample_build, n_exe = sample_exe, n_branch_first = True, n_create = sample_create,
     n_gtk = sample_gtk, n_info = sample_info, n_kill = sample_kill, n_transient = sample_transient,
     n_session = sample_session, n_stdio = stdioFlags, n_crypt = Inr, n_ReadPassword = Inr ''p'', n_Scanln = ''y''\<rparr>"

definition sample_main :: main_sys where
  "sample_main = \<lparr>ms_ns = sample_ns, ms_userdb = d_userdb sample_daemon, ms_LookPath = (\<lambda>n. Inr (''/b/'' @ n)),
     ms_Exec = (\<lambda>_. None), ms_Getwd = Inr ''/w'',
     ms_select = (\<lambda>rest. case rest of [] \<Rightarrow> None | n # args \<Rightarrow> Some (n, args)), ms_other = (\<lambda>_. ExitUsageError)\<rparr>"

definition given_app :: nsboxApp where
  "given_app = \<lparr>verbose = True, app_sudo = False, workdir = ''/w''\<rparr>"

definition given_delete :: command where
  "given_delete = Delete_cmd (new_delete\<lparr>delete_yes := True\<rparr>)"

lemma ms_build_sample: "ms_build sample_main = sample_build"
  by (simp add: sample_main_def sample_ns_def)

lemma first_parse:
  "parse_globals sample_build [''-v'', ''delete'', ''-y'', ''c''] (initial_app ''/w'') =
     Ok ([''v''], [''delete'', ''-y'', ''c''], given_app)"
  "registered_command ''delete'' = Some (Delete_cmd new_delete)"
  "parse_command sample_build (Delete_cmd new_delete) [''-y'', ''c''] given_app = Ok ([''y''], [''c''], given_app, given_delete)"
  by code_simp+

definition redirected :: "string list" where
  "redirected = [''delete'', ''LANG=C'', ''::'', ''-v=true'', ''-y=true'', ''-workdir=/w'', ''--'', ''c'']"

lemma reexec_run:
  "fst (privilegedReexec sample_main [''v''] [''y''] given_app given_delete [''c''] exe_world) =
     Abort (Execed ''/b/pkexec'' ([''pkexec'', ''/x/libexec/nsbox/nsbox-invoker''] @ redirected) [''LANG=C'', ''FOO=1''])"
  by code_simp

definition invoker_world :: world where
  "invoker_world = exe_world\<lparr>environ := [''HOME=/root'']\<rparr>"

lemma invoke_run:
  "fst (invoker_main sample_build (Inr ''/x/libexec/nsbox/nsbox-invoker'') (\<lambda>_. None) redirected invoker_world) =
     Abort (Execed ''/x/bin/nsbox'' [''/x/bin/nsbox'', ''delete'', ''-v=true'', ''-y=true'', ''-workdir=/w'', ''--'', ''c'']
       [''HOME=/root'', ''LANG=C''])"
  by code_simp

theorem reexec_same_command_witness:
  "\<exists>names. parse_command sample_build (Delete_cmd new_delete)
      [''-v=true'', ''-y=true'', ''-workdir=/w'', ''--'', ''c''] (initial_app ''/'') = Ok (names, [''c''], given_app, given_delete) \<and>
    set names = {''workdir'', ''v'', ''y''}"
proof -
  obtain w1 where w1: "privilegedReexec sample_main [''v''] [''y''] given_app given_delete [''c''] exe_world =
      (Abort (Execed ''/b/pkexec'' (''pkexec'' # ''/x/libexec/nsbox/nsbox-invoker'' # redirected) [''LANG=C'', ''FOO=1'']), w1)"
    using reexec_run by (metis append_Cons append_Nil prod.collapse)
  obtain v1 where v1: "invoker_main (ms_build sample_main) (Inr ''/x/libexec/nsbox/nsbox-invoker'') (\<lambda>_. None) redirected invoker_world =
     (Abort (Execed ''/x/bin/nsbox'' (''/x/bin/nsbox'' # [''delete'', ''-v=true'', ''-y=true'', ''-workdir=/w'', ''--'', ''c''])
       [''HOME=/root'', ''LANG=C'']), v1)"
    using invoke_run by (metis ms_build_sample prod.collapse)
  from reexec_same_command[OF first_parse(1)[folded ms_build_sample] first_parse(2)
      first_parse(3)[folded ms_build_sample] w1 v1, of "''/''"]
  show ?thesis by (auto simp: ms_build_sample)
qed

theorem invoker_environment_witness:
  "\<exists>es. [''HOME=/root'', ''LANG=C''] = environ invoker_world @ es \<and> list_all env_ok es"
proof -
  obtain v1 where v1: "invoker_main sample_build (Inr ''/x/libexec/nsbox/nsbox-invoker'') (\<lambda>_. None) redirected invoker_world =
     (Abort (Execed ''/x/bin/nsbox'' [''/x/bin/nsbox'', ''delete'', ''-v=true'', ''-y=true'', ''-workdir=/w'', ''--'', ''c'']
       [''HOME=/root'', ''LANG=C'']), v1)"
    using invoke_run by (metis prod.collapse)
  from invoker_environment[where b = sample_build and exe = "Inr ''/x/libexec/nsbox/nsbox-invoker''"
      and failing = "\<lambda>_. None" and argv = redirected and w = invoker_world] v1
  show ?thesis by simp
qed

theorem unprivileged_never_executes_witness:
  "\<exists>r w'. execute_command sample_main sample_user [] given_app (Delete_cmd new_delete) [''-y'', ''c''] exe_world = (r, w') \<and>
    same_os exe_world w' \<and> (r = Ok ExitUsageError \<or> (\<exists>a. r = Abort a))"
proof -
  obtain r w' where run: "execute_command sample_main sample_user [] given_app (Delete_cmd new_delete) [''-y'', ''c''] exe_world = (r, w')"
    by fastforce
  have "proc_uid exe_world \<noteq> 0" by (simp add: exe_world_def)
  from unprivileged_never_executes[OF this first_parse(2) _ run] run show ?thesis by auto
qed

section \<open>A session\<close>

text \<open>One signal comes before the session is entered, one while another is passed on.\<close>

definition sample_events :: "session_event list" where
  "sample_events = [Ev_MakeRaw True, Ev_FollowSize, Ev_Relay, Ev_Signal SIGINT, Ev_RelayDone,
     Ev_Entered NsenterSession, Ev_Signal SIGTSTP, Ev_Signal SIGINT, Ev_RelayDone]"

lemma sample_stdin: "flag_set 7 stdinPtyFlag"
  by (simp add: flag_set_def stdinPtyFlag_def)

lemma sample_session_run:
  obtains s where "session_run ''m'' 7 sample_events s" and "s_phase s = S_Waiting" and "s_relaying s = None"
    and "s_handle s = Some NsenterSession" and "map fst (s_sent s) = [SIGTSTP]"
proof -
  have "map_option (\<lambda>s. (s_phase s, s_relaying s, s_handle s, map fst (s_sent s)))
      (session_steps ''m'' 7 session_start sample_events) = Some (S_Waiting, None, Some NsenterSession, [SIGTSTP])"
    by (simp add: sample_events_def session_step_def process_gone_def signal_step_def relay_step_def session_start_def
        sample_stdin)
  then obtain s where s: "session_steps ''m'' 7 session_start sample_events = Some s"
    "(s_phase s, s_relaying s, s_handle s, map fst (s_sent s)) = (S_Waiting, None, Some NsenterSession, [SIGTSTP])"
    by (elim map_option_eq_Some [THEN iffD1, THEN exE]) simp
  have "session_run ''m'' 7 ([] @ sample_events) s" by (rule session_run_steps[OF run_start s(1)])
  then show ?thesis using that s(2) by simp
qed



end
