(* ===== verification/Export_Facts.thy ===== *)
theory Export_Facts
  imports Integration
begin

text \<open>
  The switch between the two export directories (\<^verbatim>\<open>UpdateDesktopFiles\<close>): whichever call
  fails, the link \<^verbatim>\<open>exports\<close> names a directory that is still complete.
\<close>

text \<open>Where the link, the temporary link and the two instances are.\<close>

definition exports_link :: "loc \<Rightarrow> loc" where "exports_link cs = cs @ [''exports'']"

definition exports_temp :: "loc \<Rightarrow> loc" where "exports_temp cs = cs @ [''exports.tmp'']"

definition exports_dir :: "loc \<Rightarrow> nat \<Rightarrow> loc" where "exports_dir cs n = cs @ [''exports.'' @ show_nat n]"

lemma export_names: "plain ''exports''" "plain ''exports.tmp''" "plain (''exports.'' @ show_nat k)"
  "show_nat k \<noteq> ''tmp''"
  using show_nat_hd[of k] by (auto simp: plain_def is_digit_def dest: show_nat_digits)

lemma exports_apart [simp]:
  "\<not> prefix (exports_link cs) (exports_dir cs n @ rest)" "\<not> prefix (exports_temp cs) (exports_dir cs n @ rest)"
  "\<not> prefix (exports_dir cs n) (exports_link cs)" "\<not> prefix (exports_temp cs) (exports_link cs)"
  "prefix (exports_dir cs k) (exports_dir cs n @ rest) \<longleftrightarrow> k = n"
  using export_names(4)[of n] by (auto simp: exports_link_def exports_temp_def exports_dir_def dest: show_nat_inj)

lemma exports_paths:
  assumes "located ct cs w"
  shows "ExportsLink ct True = path_of (exports_temp cs)" "ExportsLink ct False = path_of (exports_link cs)"
    "ExportsInstance ct n = path_of (exports_dir cs n)"
  using path_join_child[OF assms] export_names
  by (simp_all add: ExportsLink_def ExportsInstance_def exports_link_def exports_temp_def exports_dir_def)

lemma exports_resolve:
  assumes "located ct cs w"
  shows "resolve False w (path_of (exports_temp cs)) = Inr (exports_temp cs)"
    "resolve False w (path_of (exports_dir cs n)) = Inr (exports_dir cs n)" "exports_temp cs \<noteq> []"
  using locatedD[OF assms] export_names by (simp_all add: exports_temp_def exports_dir_def)

text \<open>The steps before the old instance is dropped.\<close>

lemma switch_exports_run:
  assumes "located ct cs w" and run: "switch_exports ct (ExportsInstance ct n) old w = (r, w')"
  obtains (kept) e where "r = Err e" "fs_get (disk w') (exports_link cs) = fs_get (disk w) (exports_link cs)"
      "\<And>q. \<not> prefix (exports_temp cs) q \<Longrightarrow> \<not> prefix (exports_link cs) q \<Longrightarrow> fs_get (disk w') q = fs_get (disk w) q"
  | (switched) i w1 where "located ct cs w1" "fs_get (disk w1) (exports_link cs) = Some i"
      "i_kind i = Symlink (path_of (exports_dir cs n))"
      "\<And>q. \<not> prefix (exports_temp cs) q \<Longrightarrow> \<not> prefix (exports_link cs) q \<Longrightarrow> fs_get (disk w1) q = fs_get (disk w) q"
      "(case old of None \<Rightarrow> ret () | Some k \<Rightarrow> wrap ''failed to delete old instance dir''
          (os_RemoveAll (path_of (exports_dir cs k)))) w1 = (r, w')"
proof -
  let ?tgt = "path_of (exports_dir cs n)"
  let ?swap = "seq (wrap ''failed to symlink new instance dir'' (os_Symlink ?tgt (path_of (exports_temp cs)))) (\<lambda>_.
    wrap ''failed to rename onto new instance dir'' (os_Rename (path_of (exports_temp cs)) (path_of (exports_link cs))))"
  let ?drop = "case old of None \<Rightarrow> ret () | Some k \<Rightarrow> wrap ''failed to delete old instance dir''
    (os_RemoveAll (path_of (exports_dir cs k)))"
  have run': "seq ?swap (\<lambda>_. ?drop) w = (r, w')"
    using run unfolding switch_exports_def exports_paths[OF assms(1)] by (simp add: seq_assoc)
  obtain rs w1 where swap: "?swap w = (rs, w1)" by fastforce
  have eff: "(\<forall>q. \<not> prefix (exports_temp cs) q \<longrightarrow> \<not> prefix (exports_link cs) q \<longrightarrow> fs_get (disk w1) q = fs_get (disk w) q) \<and>
    (case rs of
       Ok _ \<Rightarrow> (\<exists>i. fs_get (disk w1) (exports_link cs) = Some i \<and> i_kind i = Symlink ?tgt)
     | Err _ \<Rightarrow> fs_get (disk w1) (exports_link cs) = fs_get (disk w) (exports_link cs)
     | Abort _ \<Rightarrow> False) \<and> same_locks w w1"
    using symlink_rename_effect[OF locatedD(3,2)[OF assms(1)] export_names(2,1) _ swap[unfolded exports_link_def exports_temp_def]]
    unfolding exports_link_def exports_temp_def by simp
  show thesis
  proof (cases rs)
    case (Ok u)
    then obtain i where "fs_get (disk w1) (exports_link cs) = Some i" "i_kind i = Symlink ?tgt" using eff by auto
    moreover have "solid (disk w1) cs"
    proof (rule solid_cong[OF locatedD(3)[OF assms(1)]])
      fix q assume "prefix q cs"
      then have "\<not> prefix (exports_temp cs) q" "\<not> prefix (exports_link cs) q"
        by (auto simp: exports_link_def exports_temp_def dest!: prefix_length_le)
      then show "fs_get (disk w1) q = fs_get (disk w) q" using eff by blast
    qed
    then have "located ct cs w1" using locatedD[OF assms(1)] by (simp add: located_def)
    ultimately show thesis using switched[of w1 i] eff run' swap Ok by (auto simp: seq_def)
  next
    case (Err e)
    then show thesis using kept[of e] eff run' swap by (auto simp: seq_def)
  qed (use eff in simp)
qed

text \<open>
  C25: switching a container's exports is atomic and safe: whichever call fails, the link
  \<^verbatim>\<open>exports\<close> either is what it was and the instance it may name is untouched, or names the
  new instance; the new instance is never altered by the switch. On success the link names
  the new instance and the old one is gone; the old one is deleted only after the link has
  left it. Nothing else in the file system changes, but for the temporary link.
\<close>

theorem switch_exports_atomic:
  assumes "located ct cs w" and "n = new_instance old"
    and "switch_exports ct (ExportsInstance ct n) old w = (r, w')"
  shows "(\<forall>rest. fs_get (disk w') (exports_dir cs n @ rest) = fs_get (disk w) (exports_dir cs n @ rest)) \<and>
    (\<forall>q. \<not> prefix (exports_link cs) q \<longrightarrow> \<not> prefix (exports_temp cs) q \<longrightarrow>
       (\<forall>k. old = Some k \<longrightarrow> \<not> prefix (exports_dir cs k) q) \<longrightarrow> fs_get (disk w') q = fs_get (disk w) q) \<and>
    (case r of
       Ok _ \<Rightarrow> (\<exists>i. fs_get (disk w') (exports_link cs) = Some i \<and> i_kind i = Symlink (ExportsInstance ct n)) \<and>
         (\<forall>k rest. old = Some k \<longrightarrow> fs_get (disk w') (exports_dir cs k @ rest) = None)
     | Err _ \<Rightarrow> (\<exists>i. fs_get (disk w') (exports_link cs) = Some i \<and> i_kind i = Symlink (ExportsInstance ct n)) \<or>
         fs_get (disk w') (exports_link cs) = fs_get (disk w) (exports_link cs) \<and>
         (\<forall>k rest. old = Some k \<longrightarrow> fs_get (disk w') (exports_dir cs k @ rest) =
            fs_get (disk w) (exports_dir cs k @ rest))
     | Abort _ \<Rightarrow> False)"
proof -
  note inst = exports_paths(3)[OF assms(1)]
  have differ: "old = Some k \<Longrightarrow> k \<noteq> n" for k by (auto simp: assms(2) new_instance_def)
  from assms(1,3) show ?thesis
  proof (cases rule: switch_exports_run)
    case (kept e)
    then show ?thesis by simp
  next
    case (switched i w1)
    show ?thesis
    proof (cases old)
      case None
      then show ?thesis using switched inst by (auto simp: ret_def)
    next
      case (Some k)
      from exports_resolve(2)[OF switched(1)] show ?thesis
        by (cases rule: os_RemoveAll_cases[where q = "exports_dir cs k"])
          (use switched Some inst differ in \<open>auto simp: run_simps\<close>)
    qed
  qed
qed

text \<open>
  A temporary link that an interrupted switch has left behind is never removed: every
  later switch fails on it.
\<close>

lemma stale_temporary_link:
  assumes "located ct cs w" and "fs_get (disk w) (exports_temp cs) = Some i"
  shows "\<exists>e w'. switch_exports ct target old w = (Err e, w') \<and> same_os w w'"
proof -
  from exports_resolve(1,3)[OF assms(1)] show ?thesis
    by (cases rule: os_Symlink_cases[where tgt = target])
      (use assms(2) exports_paths[OF assms(1)] in \<open>auto simp: switch_exports_def run_simps\<close>)
qed

section \<open>What an exported file runs\<close>

text \<open>A line that a desktop reads as a command, and one that stays in the container.\<close>

definition confined_prefix :: "build \<Rightarrow> Container \<Rightarrow> string" where
  "confined_prefix b ct = ''Exec='' @ ProductName b @ '' run -no-replay -- '' @ Name ct @ '' ''"

definition confined_line :: "build \<Rightarrow> Container \<Rightarrow> string \<Rightarrow> bool" where
  "confined_line b ct line \<longleftrightarrow> (has_prefix line ''Exec='' \<longrightarrow> has_prefix line (confined_prefix b ct))"

definition confined_text :: "build \<Rightarrow> Container \<Rightarrow> string \<Rightarrow> bool" where
  "confined_text b ct t \<longleftrightarrow> (\<exists>rows. t = concat (map (\<lambda>l. l @ [CHR 0x0A]) rows) \<and>
     (\<forall>l\<in>set rows. CHR 0x0A \<notin> set l \<and> confined_line b ct l))"

lemma confined_text_Nil: "confined_text b ct ''''"
  unfolding confined_text_def by (rule exI[of _ "[]"]) simp

lemma confined_text_append:
  "confined_text b ct t \<Longrightarrow> CHR 0x0A \<notin> set l \<Longrightarrow> confined_line b ct l \<Longrightarrow> confined_text b ct (t @ l @ [CHR 0x0A])"
  unfolding confined_text_def by (elim exE, rule_tac x = "rows @ [l]" in exI) auto

lemma confined_text_lines:
  assumes "confined_text b ct t"
  shows "\<forall>l\<in>set (split_on CHR 0x0A t). confined_line b ct l"
proof -
  have "split_on CHR 0x0A (concat (map (\<lambda>l. l @ [CHR 0x0A]) rows)) = rows @ ['''']"
    if "\<forall>l\<in>set rows. CHR 0x0A \<notin> set l" for rows
    using that by (induction rows) (auto simp: split_on_append_sep)
  then show ?thesis
    using assms by (auto simp: confined_text_def confined_line_def has_prefix_def)
qed

text \<open>GTK names icons by files whose path is one line.\<close>

definition one_line_icons :: "gtk \<Rightarrow> bool" where
  "one_line_icons g \<longleftrightarrow> (\<forall>ctx icon sz p. gtk_lookup g ctx icon sz = Some p \<longrightarrow> CHR 0x0A \<notin> set p)"

lemma lookup_path: "lookupIconBySize g ctx icon sz = Inr i \<Longrightarrow> gtk_lookup g ctx icon sz = Some (icon_Path i)"
  by (auto simp: lookupIconBySize_def split: option.splits)

lemma found_iff: "i \<in> set (case x of Inl _ \<Rightarrow> [] | Inr j \<Rightarrow> [j]) \<longleftrightarrow> x = Inr i"
  by (cases x) auto

lemma FindIcon_one_line:
  assumes "one_line_icons g" and "i \<in> set (FindIcon g ctx icon)"
  shows "CHR 0x0A \<notin> set (icon_Path i)"
proof -
  obtain sz where "lookupIconBySize g ctx icon sz = Inr i"
    using assms(2) by (cases "gtk_sizes g ctx icon = []") (auto simp: FindIcon_def Let_def found_iff)
  then show ?thesis using assms(1) lookup_path unfolding one_line_icons_def by blast
qed

lemma resolve_icon_line:
  assumes "one_line_icons g" and "resolve_icon g icon ctxs line icons = (line', icons')" and "CHR 0x0A \<notin> set line"
    and "\<not> has_prefix line ''Exec=''"
  shows "CHR 0x0A \<notin> set line' \<and> \<not> has_prefix line' ''Exec=''"
  using assms(2)
proof (induction ctxs arbitrary: icons)
  case (Cons c ctxs)
  have "CHR 0x0A \<notin> set (icon_Path (hd (FindIcon g c icon)))" if "length (FindIcon g c icon) = 1"
    using FindIcon_one_line[OF assms(1), of _ c icon] that by (cases "FindIcon g c icon") auto
  then show ?case using Cons by (auto simp: Let_def has_prefix_def split: if_splits)
qed (use assms in simp)

lemma trim_one_line: "CHR 0x0A \<notin> set s \<Longrightarrow> CHR 0x0A \<notin> set (trim_space s)"
  unfolding trim_space_def by (metis set_dropWhileD set_rev)

lemma translate_line_confined:
  assumes "one_line_icons g" and "CHR 0x0A \<notin> set raw" and "CHR 0x0A \<notin> set (ProductName b)" and "CHR 0x0A \<notin> set (Name ct)"
    and "translate_line b g ct ctxs raw icons = (line, icons')"
  shows "CHR 0x0A \<notin> set line \<and> confined_line b ct line"
proof -
  let ?l = "trim_space raw"
  have nl: "CHR 0x0A \<notin> set ?l" using assms(2) by (rule trim_one_line)
  show ?thesis
  proof (cases rule: split_n2_cases[of "CHR ''=''" ?l])
    case none
    then have "line = ?l" using assms(5) by (auto simp: translate_line_def Let_def split: if_splits)
    then show ?thesis using none nl by (auto simp: confined_line_def has_prefix_def prefix_def)
  next
    case (found key v)
    have exec: "has_prefix ?l ''Exec='' \<longleftrightarrow> key = ''Exec''"
    proof
      assume "has_prefix ?l ''Exec=''"
      then obtain u where "?l = ''Exec'' @ CHR ''='' # u" by (auto simp: has_prefix_def prefix_def)
      then have "split_n2 CHR ''='' ?l = [''Exec'', u]" by (simp only: split_n2_append) (simp add: split_n2_append)
      then show "key = ''Exec''" using found(3) by simp
    qed (use found in \<open>auto simp: has_prefix_def\<close>)
    show ?thesis
    proof (cases "key = ''Exec''")
      case True
      then have "line = confined_prefix b ct @ v"
        using assms(5) found by (auto simp: translate_line_def Let_def confined_prefix_def has_prefix_def)
      then show ?thesis
        using assms(3,4) nl found(1) by (auto simp: confined_line_def confined_prefix_def has_prefix_def)
    next
      case False
      then have no: "\<not> has_prefix ?l ''Exec=''" using exec by simp
      have "CHR 0x0A \<notin> set line \<and> \<not> has_prefix line ''Exec=''"
      proof (cases "key = ''Icon'' \<and> \<not> has_prefix ?l ''['' \<and> \<not> has_prefix ?l ''#'' \<and> ?l \<noteq> ''''")
        case True
        then have "resolve_icon g v ctxs ?l icons = (line, icons')"
          using assms(5) found(3) by (simp add: translate_line_def Let_def)
        then show ?thesis using resolve_icon_line[OF assms(1) _ nl no] by blast
      next
        case other: False
        then have "line = ?l" using assms(5) found(3) False by (auto simp: translate_line_def Let_def split: if_splits)
        then show ?thesis using nl no by simp
      qed
      then show ?thesis by (simp add: confined_line_def)
    qed
  qed
qed

lemma file_append_cases:
  assumes "q \<noteq> []"
  obtains (same) e w' where "file_append q s w = (Err e, w')" "same_os w w'"
  | (more) i t w' where "file_append q s w = (Ok (), w')" "fs_get (disk w) q = Some i" "i_kind i = Regular (Raw t)"
      "fs_get (disk w') q = Some (i\<lparr>i_kind := Regular (Raw (t @ s))\<rparr>)" "\<And>p. p \<noteq> q \<Longrightarrow> fs_get (disk w') p = fs_get (disk w) p"
proof (cases "fault w (tick w)")
  case (Some x)
  then show thesis using same by (cases x) (auto simp: file_append_def sys_def same_os_tick)
next
  case None
  let ?w = "w\<lparr>tick := Suc (tick w)\<rparr>"
  have node: "node_at ?w q = fs_get (disk w) q" using assms by (simp add: node_at_def)
  show thesis
  proof (cases "\<exists>i t. fs_get (disk w) q = Some i \<and> i_kind i = Regular (Raw t)")
    case True
    then obtain i t where "fs_get (disk w) q = Some i" "i_kind i = Regular (Raw t)" by blast
    then show thesis using more None node by (simp add: file_append_def sys_def set_node_def)
  next
    case False
    then have "\<exists>e. file_append q s w = (Err e, ?w)"
      using None node by (auto simp: file_append_def sys_def Let_def split: option.splits kind.splits content.splits)
    then show thesis using same same_os_tick by blast
  qed
qed

lemma attempt_run: "attempt m w = (case m w of (Ok x, w') \<Rightarrow> (Ok (Inr x), w') | (Err e, w') \<Rightarrow> (Ok (Inl e), w') | (Abort a, w') \<Rightarrow> (Abort a, w'))"
  by (simp add: attempt_def split: prod.splits res.splits)

definition exported_text :: "build \<Rightarrow> Container \<Rightarrow> loc \<Rightarrow> world \<Rightarrow> bool" where
  "exported_text b ct q w \<longleftrightarrow> (\<exists>i t. fs_get (disk w) q = Some i \<and> i_kind i = Regular (Raw t) \<and> confined_text b ct t)"

lemma export_lines_confined:
  assumes "one_line_icons g" and "CHR 0x0A \<notin> set (ProductName b)" and "CHR 0x0A \<notin> set (Name ct)" and "q \<noteq> []"
  shows "export_lines b g ct ctxs q rows icons w = (r, w') \<Longrightarrow> \<forall>raw\<in>set rows. CHR 0x0A \<notin> set raw \<Longrightarrow> exported_text b ct q w \<Longrightarrow>
    exported_text b ct q w' \<and> (\<forall>p. p \<noteq> q \<longrightarrow> fs_get (disk w') p = fs_get (disk w) p) \<and> (\<exists>icons'. r = Ok icons')"
proof (induction rows arbitrary: icons w)
  case Nil
  then show ?case by (auto simp: ret_def)
next
  case (Cons raw rows)
  obtain line icons1 where tr: "translate_line b g ct ctxs raw icons = (line, icons1)" by fastforce
  have line: "CHR 0x0A \<notin> set line" "confined_line b ct line"
    using translate_line_confined[OF assms(1) _ assms(2,3) tr] Cons.prems(2) by simp_all
  have step: "\<exists>x w1. attempt (file_append q (line @ [CHR 0x0A])) w = (Ok x, w1) \<and> exported_text b ct q w1 \<and>
      (\<forall>p. p \<noteq> q \<longrightarrow> fs_get (disk w1) p = fs_get (disk w) p)"
    using assms(4)
  proof (cases rule: file_append_cases[where s = "line @ [CHR 0x0A]" and w = w])
    case (same e w1)
    then show ?thesis using Cons.prems(3) by (auto simp: attempt_run exported_text_def same_osD)
  next
    case (more i t w1)
    then have "confined_text b ct t" using Cons.prems(3) by (auto simp: exported_text_def)
    then show ?thesis using more confined_text_append[OF _ line] by (auto simp: attempt_run exported_text_def)
  qed
  then obtain x w1 where s: "attempt (file_append q (line @ [CHR 0x0A])) w = (Ok x, w1)" "exported_text b ct q w1"
    "\<forall>p. p \<noteq> q \<longrightarrow> fs_get (disk w1) p = fs_get (disk w) p" by blast
  have "export_lines b g ct ctxs q rows icons1 w1 = (r, w')" using Cons.prems(1) tr s(1) by (simp add: seq_def)
  then show ?case using Cons.IH Cons.prems(2) s by simp
qed

lemma split_on_no_sep_part: "l \<in> set (split_on c s) \<Longrightarrow> c \<notin> set l"
  using split_on_parts by blast

lemma scan_lines_one_line: "scan_lines s = (rows, long) \<Longrightarrow> \<forall>raw\<in>set rows. CHR 0x0A \<notin> set raw"
proof -
  assume "scan_lines s = (rows, long)"
  then have "set rows \<subseteq> drop_cr ` set (split_on CHR 0x0A s)"
    by (auto simp: scan_lines_def Let_def dest!: set_takeWhileD in_set_butlastD split: if_splits)
  moreover have "set (drop_cr l) \<subseteq> set l" for l by (auto simp: drop_cr_def dest: in_set_butlastD)
  ultimately show ?thesis using split_on_no_sep_part by blast
qed


text \<open>
  But the key is compared as it stands: with a space before the equals sign, which
  desktops allow, the container's command is exported unchanged, for the host to run.
\<close>

lemma spaced_Exec_escapes:
  "translate_line b g ct ctxs ''Exec = evil'' icons = (''Exec = evil'', icons)"
proof -
  have "trim_space ''Exec = evil'' = ''Exec = evil''" "split_n2 CHR ''='' ''Exec = evil'' = [''Exec '', '' evil'']" by code_simp+
  then show ?thesis by (simp add: translate_line_def has_prefix_def)
qed

end
