(* ===== verification/Host_Program.thy ===== *)
theory Host_Program
  imports Nsbox_Host Varlink_Host
begin

text \<open>
  \<^verbatim>\<open>cmd/nsbox-host\<close> as a whole: its commands and its \<^verbatim>\<open>main\<close>. The \<^verbatim>\<open>subcommands\<close>
  package, which picks the command a line names among those registered and handles the
  built-in ones, and the varlink and systemd libraries are parameters.
\<close>

record host_sys =
  hs_listen :: "string \<Rightarrow> unit io"
  hs_dial :: "string \<Rightarrow> err option"
  hs_call :: "string \<Rightarrow> unit io"
  hs_SdNotify :: "unit io"
  hs_setsid :: "err option"
  hs_Exec :: "string \<Rightarrow> err option"
  hs_select :: "string list \<Rightarrow> string list \<Rightarrow> (string \<times> string list) option"
  hs_other :: "string list \<Rightarrow> exit_status"

section \<open>The commands\<close>

text \<open>Every flag set has \<^verbatim>\<open>-v\<close>, and only \<^verbatim>\<open>enter\<close> has more.\<close>

definition host_flags :: "string \<Rightarrow> bool flag option" where
  "host_flags name = (if name = ''v'' then Some (True, set_bool) else None)"

definition service_ParsePositional :: "string list \<Rightarrow> err + string" where
  "service_ParsePositional args = (case ExpectArgs 1 args of Inl e \<Rightarrow> Inl e | Inr xs \<Rightarrow> Inr (xs ! 0))"

definition service_Execute :: "host_sys \<Rightarrow> string \<Rightarrow> exit_status io" where
  "service_Execute hs container =
     handled (startPtyServiceAndNotifyHost (hs_listen hs) (hs_dial hs) (hs_call hs) (hs_SdNotify hs))"

definition reload_exports_ParsePositional :: "string list \<Rightarrow> err + unit" where
  "reload_exports_ParsePositional args = (case ExpectArgs 0 args of Inl e \<Rightarrow> Inl e | Inr _ \<Rightarrow> Inr ())"

definition reload_exports_Execute :: "host_sys \<Rightarrow> exit_status io" where
  "reload_exports_Execute hs = handled (reloadExports (hs_dial hs) (hs_call hs))"

text \<open>A command without flags of its own, as the package runs it.\<close>

definition run_plain :: "(string list \<Rightarrow> err + 'c) \<Rightarrow> ('c \<Rightarrow> exit_status io) \<Rightarrow> string list \<Rightarrow> exit_status io" where
  "run_plain ParsePositional Execute argv = (case flag_parse host_flags argv False of
      (Ok (_, args), _) \<Rightarrow> wrapper_Execute ParsePositional (ret ()) Execute args
    | _ \<Rightarrow> ret ExitUsageError)"

definition host_command :: "host_sys \<Rightarrow> string \<Rightarrow> string list \<Rightarrow> exit_status io" where
  "host_command hs name args =
     (if name = ''reload-exports'' then run_plain reload_exports_ParsePositional (\<lambda>_. reload_exports_Execute hs) args
      else if name = ''service'' then run_plain service_ParsePositional (service_Execute hs) args
      else if name = ''enter'' then enter_run (hs_setsid hs) (hs_Exec hs) args
      else ret (hs_other hs (name # args)))"

section \<open>The program\<close>

text \<open>\<^verbatim>\<open>os.Unsetenv\<close>\<close>

definition os_Unsetenv :: "string \<Rightarrow> unit io" where
  "os_Unsetenv name w = (Ok (), w\<lparr>environ := filter (\<lambda>e. \<not> has_prefix e (name @ ''='')) (environ w)\<rparr>)"

definition host_main :: "host_sys \<Rightarrow> string list \<Rightarrow> unit io" where
  "host_main hs argv =
     seq (get_state environ) (\<lambda>env.
     seq (if getenv env internalEnv \<noteq> '''' then os_Unsetenv internalEnv else ret ()) (\<lambda>_.
     case flag_parse host_flags argv False of
       (Ok (_, rest), _) \<Rightarrow>
         seq (case hs_select hs (host_commands env) rest of
                None \<Rightarrow> ret (hs_other hs rest)
              | Some (name, args) \<Rightarrow>
                  if name \<in> set (host_commands env) then host_command hs name args else ret (hs_other hs rest))
           (\<lambda>status. abort (Exited (exit_number status)))
     | (Err _, _) \<Rightarrow> abort (Exited 2)
     | (Abort a, _) \<Rightarrow> abort a))"

section \<open>What becomes of the environment\<close>

definition same_env :: "world \<Rightarrow> world \<Rightarrow> bool" where
  "same_env w w' \<longleftrightarrow> environ w' = environ w"

interpretation same_env: frame same_env
  by unfold_locales (simp_all add: same_env_def)

lemma keeps_env_pty: "keeps same_env (ConnectPtys setsid i out err)"
proof -
  have "keeps same_env (unix_Open p d)" "keeps same_env (unix_Dup2 old new)" for p d old new
    unfolding keeps_def unix_Open_def unix_Dup2_def sys_def at_path_def same_env_def Let_def
    by (auto split: sum.splits option.splits if_splits)
  then show ?thesis
    unfolding ConnectPtys_def connect_pty_def by (auto intro!: same_env.keeps_all split: option.splits)
qed

lemma returns_pty: "returns (ConnectPtys setsid i out err)"
proof -
  have "returns (unix_Open p d)" "returns (unix_Dup2 old new)" for p d old new
    unfolding unix_Open_def unix_Dup2_def
    by (rule returns_sys; auto simp: returns_def at_path_def split: sum.splits option.splits if_splits)+
  then have "returns (connect_pty setsid x)" for x
    unfolding connect_pty_def by (auto intro!: returns_all split: option.splits prod.splits)
  then show ?thesis unfolding ConnectPtys_def by (simp add: returns_seq returns_ret)
qed

lemma setenv_members: "e \<in> set (setenv name v env) \<Longrightarrow> e = name @ ''='' @ v \<or> e \<in> set env"
  by (induction env) (auto split: if_splits)

text \<open>The environment after the marker is taken out.\<close>

definition unmarked :: "string list \<Rightarrow> string list" where
  "unmarked env = filter (\<lambda>e. \<not> has_prefix e (internalEnv @ ''='')) env"

lemma getenv_unmarked: "getenv (unmarked env) internalEnv = ''''"
proof (induction env)
  case (Cons e env)
  have "has_prefix e (internalEnv @ ''='')" if "split_n2 CHR ''='' e = [internalEnv, v]" for v
    using that by (cases rule: split_n2_cases[of "CHR ''=''" e]) (auto simp: has_prefix_def)
  then show ?case using Cons by (auto simp: unmarked_def split: list.splits)
qed (simp add: unmarked_def)

lemma getenv_setenv_other:
  assumes "CHR ''='' \<notin> set name" and "name \<noteq> other" and "CHR ''='' \<notin> set other"
  shows "getenv (setenv name v env) other = getenv env other"
proof (induction env)
  case Nil
  then show ?case using assms split_n2_append[OF assms(1), of v] by simp
next
  case (Cons e env)
  have own: "split_n2 CHR ''='' (name @ ''='' @ u) = [name, u]" for u using split_n2_append[OF assms(1), of u] by simp
  show ?case
  proof (cases "has_prefix e (name @ ''='')")
    case True
    then obtain u where "e = name @ ''='' @ u" by (auto simp: has_prefix_def prefix_def)
    then show ?thesis using own assms(2) True by simp
  next
    case False
    then show ?thesis using Cons by (auto split: list.splits)
  qed
qed

text \<open>What \<^verbatim>\<open>enter\<close> does once its options are read.\<close>

definition enter_script :: string where
  "enter_script = ''/run/host/nsbox/scripts/nsbox-enter-setup.sh''"

definition session_env :: "bool \<Rightarrow> string list \<Rightarrow> string list" where
  "session_env noReplay env = (if noReplay then setenv ''NSBOX_NO_REPLAY'' ''1'' env else env)"

lemma getenv_session_env: "getenv (session_env noReplay (unmarked env)) internalEnv = ''''"
  using getenv_setenv_other[of "''NSBOX_NO_REPLAY''" internalEnv "''1''" "unmarked env"] getenv_unmarked
  by (simp add: session_env_def internalEnv_def)

lemma enter_run_outcome:
  assumes "flag_parse enter_SetFlags argv enter_fresh = (Ok (names, args), c)" and "enter_ParsePositional c args = None"
  shows "\<exists>w'. enter_run setsid failing argv w = (Ok ExitFailure, w') \<and>
      (failing enter_script \<noteq> None \<or> en_stdin c \<noteq> '''' \<or> en_stdout c \<noteq> '''' \<or> en_stderr c \<noteq> '''') \<or>
    enter_run setsid failing argv w =
      (Abort (Execed enter_script (enter_script # en_cwd c # args) (session_env (en_noReplay c) (environ w))), w') \<and>
      failing enter_script = None"
proof -
  have args: "args \<noteq> []" using assms(2) by (auto simp: enter_ParsePositional_def)
  have run: "enter_run setsid failing argv = handled (seq (ConnectPtys setsid (en_stdin c) (en_stdout c) (en_stderr c)) (\<lambda>_.
      SetupContainerSession failing (en_uid c) (en_cwd c) (en_noReplay c) args))"
    using assms args by (simp add: enter_run_def enter_Execute_def)
  obtain rc w1 where pty: "ConnectPtys setsid (en_stdin c) (en_stdout c) (en_stderr c) w = (rc, w1)" by fastforce
  have env: "environ w1 = environ w" using keepsD[OF keeps_env_pty pty] by (simp add: same_env_def)
  have step: "\<exists>w2. SetupContainerSession failing uid dir noReplay rest w1 = (case failing enter_script of
      Some e \<Rightarrow> (Err (Wrapped ''failed to exec command'' e), w2)
    | None \<Rightarrow> (Abort (Execed enter_script (enter_script # dir # rest) (session_env noReplay (environ w))), w2))" for uid dir noReplay rest
    unfolding SetupContainerSession_def session_env_def
    by (auto simp: enter_script_def Let_def os_Setenv_def unix_Exec_def run_simps ret_def env split: option.splits)
  show ?thesis
  proof (cases rc)
    case (Ok u)
    obtain w2 where "SetupContainerSession failing (en_uid c) (en_cwd c) (en_noReplay c) args w1 = (case failing enter_script of
        Some e \<Rightarrow> (Err (Wrapped ''failed to exec command'' e), w2)
      | None \<Rightarrow> (Abort (Execed enter_script (enter_script # en_cwd c # args) (session_env (en_noReplay c) (environ w))), w2))"
      using step by blast
    then show ?thesis
      using run pty Ok by (cases "failing enter_script") (auto simp: handled_def run_simps HandleError_def ret_def)
  next
    case (Err e)
    have "en_stdin c \<noteq> '''' \<or> en_stdout c \<noteq> '''' \<or> en_stderr c \<noteq> ''''"
      using pty Err by (auto simp: ConnectPtys_def connect_pty_def run_simps ret_def)
    then show ?thesis using run pty Err by (auto simp: handled_def run_simps HandleError_def ret_def)
  next
    case (Abort a)
    then show ?thesis using pty returnsD[OF returns_pty] by auto
  qed
qed

section \<open>The program's guarantees\<close>

text \<open>Parsing flags comes to an end if setting each of them does.\<close>

lemma returns_flag_parse:
  assumes "\<And>name b upd v. lookup name = Some (b, upd) \<Longrightarrow> returns (upd v)"
  shows "returns (flag_parse lookup args)"
proof (induction "length args" arbitrary: args rule: less_induct)
  case less
  show ?case
  proof (cases args)
    case (Cons a rest)
    have "returns (flag_parse lookup rest')" if "flag_argument b v rest = Some (u, rest')" for b v u rest'
      by (rule less) (use that Cons in \<open>auto simp: flag_argument_def split: if_splits option.splits list.splits\<close>)
    then show ?thesis
      unfolding Cons flag_parse.simps(2) using assms
      by (auto intro!: returns_seq split: option.splits)
  qed auto
qed

lemma host_flags_returns: "flag_parse host_flags argv b \<noteq> (Abort a, b')"
proof -
  have "returns (flag_parse host_flags argv)"
    by (rule returns_flag_parse) (auto simp: host_flags_def returns_def set_bool_def split: if_splits option.splits)
  then show ?thesis by (rule returnsD)
qed

lemma run_plain_outcome:
  assumes "\<And>x w a w'. Execute x w = (Abort a, w') \<Longrightarrow> a = Blocked"
  shows "run_plain ParsePositional Execute argv w = (Abort a, w') \<Longrightarrow> a = Blocked"
  using assms by (auto simp: run_plain_def wrapper_Execute_def ret_def split: res.splits prod.splits sum.splits)

text \<open>The commands other than \<^verbatim>\<open>enter\<close> come back, or wait for ever.\<close>

lemma reload_exports_returns:
  assumes "\<And>s. returns (hs_call hs s)"
  shows "returns (reload_exports_Execute hs)"
proof -
  have "returns (reloadExports (hs_dial hs) (hs_call hs))"
    unfolding reloadExports_def varlinkConnect_def using assms
    by (auto intro!: returns_seq returns_wrap split: option.splits)
  then show ?thesis
    unfolding reload_exports_Execute_def handled_def by (intro returns_seq returns_attempt) auto
qed

lemma service_blocks:
  assumes "\<And>s. returns (hs_listen hs s)" and "\<And>s. returns (hs_call hs s)" and "returns (hs_SdNotify hs)"
    and "service_Execute hs name w = (Abort a, w')"
  shows "a = Blocked"
proof -
  have listen: "returns (wrap m1 (StartPtyService (hs_listen hs)))" for m1
    unfolding StartPtyService_def Let_def using assms(1)
    by (intro returns_all returns_os) auto
  have dial: "returns (varlinkConnect (hs_dial hs))" by (auto simp: varlinkConnect_def split: option.splits)
  have notify: "returns (if b then hs_SdNotify hs else ret ())" for b using assms(3) by auto
  have call: "returns (wrap m1 (hs_call hs s))" for m1 s using assms(2) by (intro returns_wrap)
  have last: "\<And>x w w' a. seq m (\<lambda>x. f x) w = (Abort a, w') \<Longrightarrow> returns m \<Longrightarrow>
      (\<And>x w w' a. f x w = (Abort a, w') \<Longrightarrow> a = Blocked) \<Longrightarrow> a = Blocked" for m :: "'b io" and f :: "'b \<Rightarrow> 'c io"
    by (auto simp: seq_def dest: returnsD split: prod.splits res.splits)
  have "startPtyServiceAndNotifyHost (hs_listen hs) (hs_dial hs) (hs_call hs) (hs_SdNotify hs) w = (Abort a, w')"
    using assms(4) by (auto simp: service_Execute_def handled_def seq_def attempt_def ret_def split: prod.splits res.splits)
  then show ?thesis
    unfolding startPtyServiceAndNotifyHost_def
    by (elim last) (auto simp: abort_def intro: listen dial notify call assms(3))
qed

text \<open>
  C27: \<^verbatim>\<open>nsbox-host\<close> executes another program only for a session: only when the marker
  \<^verbatim>\<open>NSBOX_INTERNAL\<close> was in its environment, only the setup script, with a directory and a
  command, and the marker is not in the environment that is passed on. This holds for
  every command line, however the \<^verbatim>\<open>subcommands\<close> package picks a command from it.
\<close>

theorem host_main_executes:
  assumes "\<And>s. returns (hs_listen hs s)" and "\<And>s. returns (hs_call hs s)" and "returns (hs_SdNotify hs)"
    and "host_main hs argv w = (Abort (Execed path cmd env), w')"
  shows "getenv (environ w) internalEnv \<noteq> '''' \<and> path = enter_script \<and> (\<exists>dir rest. cmd = path # dir # rest \<and> rest \<noteq> []) \<and>
    getenv env internalEnv = '''' \<and> (\<exists>noReplay. env = session_env noReplay (unmarked (environ w)))"
proof -
  let ?internal = "getenv (environ w) internalEnv \<noteq> ''''"
  define w1 where "w1 = (if ?internal then w\<lparr>environ := unmarked (environ w)\<rparr> else w)"
  obtain name args where c: "name \<in> set (host_commands (environ w))" "host_command hs name args w1 = (Abort (Execed path cmd env), w')"
    using assms(4) host_flags_returns
    by (auto simp: host_main_def run_simps ret_def abort_def os_Unsetenv_def w1_def unmarked_def
        split: prod.splits res.splits option.splits if_splits)
  have "name = ''enter''"
  proof (rule ccontr)
    assume other: "name \<noteq> ''enter''"
    have "Execed path cmd env = Blocked"
    proof (cases "name = ''reload-exports''")
      case True
      then have run: "run_plain reload_exports_ParsePositional (\<lambda>_. reload_exports_Execute hs) args w1 = (Abort (Execed path cmd env), w')"
        using c(2) by (simp add: host_command_def)
      show ?thesis
        by (rule run_plain_outcome[OF _ run]) (use returnsD[OF reload_exports_returns[OF assms(2)]] in blast)
    next
      case False
      show ?thesis
      proof (cases "name = ''service''")
        case True
        then have run: "run_plain service_ParsePositional (service_Execute hs) args w1 = (Abort (Execed path cmd env), w')"
          using c(2) by (simp add: host_command_def)
        show ?thesis by (rule run_plain_outcome[OF _ run]) (rule service_blocks[OF assms(1-3)])
      qed (use False other c(2) in \<open>simp add: host_command_def ret_def\<close>)
    qed
    then show False by simp
  qed
  then have run: "enter_run (hs_setsid hs) (hs_Exec hs) args w1 = (Abort (Execed path cmd env), w')" "?internal"
    using c by (auto simp: host_command_def host_commands_def split: if_splits)
  then obtain names pos st where p: "flag_parse enter_SetFlags args enter_fresh = (Ok (names, pos), st)" "enter_ParsePositional st pos = None"
    by (auto simp: enter_run_def ret_def split: res.splits prod.splits option.splits)
  then have "pos \<noteq> []" by (auto simp: enter_ParsePositional_def)
  then show ?thesis
    using enter_run_outcome[OF p, of "hs_setsid hs" "hs_Exec hs" w1] run getenv_session_env[of "en_noReplay st" "environ w"]
    by (auto simp: w1_def)
qed

text \<open>
  C22: from the session to the command: the command line that a session builds, run by
  \<^verbatim>\<open>nsbox-host\<close> inside the container with the session's marker, either fails with status
  1 or executes the setup script with the session's directory, its environment assignments
  and its command, word for word; without terminals to connect, it fails only if the
  script cannot be executed. The process has the environment of \<^verbatim>\<open>nsbox-host\<close> without
  the marker, and with the request not to replay playbooks exactly if the session made it.
\<close>

theorem session_command_executed:
  assumes "mset order = mset stdioFlags" and "0 \<le> spec_uid spec" and "spec_uid spec < 2 ^ 63" and "spec_cwd spec \<noteq> ''''"
    and "getenv (environ w) internalEnv \<noteq> ''''"
    and "\<And>cmds name args. name \<in> set cmds \<Longrightarrow> hs_select hs cmds (name # args) = Some (name, args)"
    and "host_main hs (tl (buildNsboxHostCommand order spec)) w = (r, w')"
  shows "r = Abort (Exited 1) \<and> (ptyPath spec \<noteq> '''' \<or> hs_Exec hs enter_script \<noteq> None) \<or>
    hs_Exec hs enter_script = None \<and>
    r = Abort (Execed enter_script
      (enter_script # spec_cwd spec # ''env'' # map (\<lambda>(name, value). name @ ''='' @ value) (spec_env spec) @ spec_command spec)
      (session_env (spec_noReplay spec) (unmarked (environ w))))"
proof -
  let ?args = "''env'' # map (\<lambda>(name, value). name @ ''='' @ value) (spec_env spec) @ spec_command spec"
  let ?argv = "drop 2 (buildNsboxHostCommand order spec)"
  define w1 where "w1 = w\<lparr>environ := unmarked (environ w)\<rparr>"
  obtain names st where p: "flag_parse enter_SetFlags ?argv enter_fresh = (Ok (names, ?args), st)"
    and st: "en_cwd st = spec_cwd spec" "en_uid st = spec_uid spec" "en_noReplay st = spec_noReplay spec"
      "ptyPath spec = '''' \<longrightarrow> en_stdin st = '''' \<and> en_stdout st = '''' \<and> en_stderr st = ''''"
    using enter_reads_what_host_sends[OF assms(1) _ assms(3)] assms(2) by fastforce
  have pos: "enter_ParsePositional st ?args = None" using st assms(2,4) by (simp add: enter_ParsePositional_def)
  have argv: "tl (buildNsboxHostCommand order spec) = ''enter'' # ?argv" by (simp add: buildNsboxHostCommand_def)
  have "flag_parse host_flags (''enter'' # ?argv) False = (Ok ([], ''enter'' # ?argv), False)"
    by (simp add: flag_parse_positional is_flag_arg_def ret_def)
  moreover have enter: "''enter'' \<in> set (host_commands (environ w))" using assms(5) by (simp add: host_commands_def)
  ultimately have run: "host_main hs (''enter'' # ?argv) w =
      seq (enter_run (hs_setsid hs) (hs_Exec hs) ?argv) (\<lambda>status. abort (Exited (exit_number status))) w1"
    using assms(5) assms(6)[OF enter]
    by (simp add: host_main_def run_simps os_Unsetenv_def w1_def unmarked_def host_command_def)
  have env: "environ w1 = unmarked (environ w)" by (simp add: w1_def)
  show ?thesis
    using enter_run_outcome[OF p pos, of "hs_setsid hs" "hs_Exec hs" w1] run assms(7) st
    unfolding argv env by (auto simp: seq_def abort_def)
qed

text \<open>
  A reload asked for inside the container, with varlink carrying the call to the host:
  it succeeds exactly if the host has updated the desktop files and sent its reply.
\<close>

lemma reload_exports_end_to_end:
  assumes "hs_dial hs varlink_address = None" and "vc_Reply call = None"
    and "hs_call hs = (\<lambda>s. varlink_handle b g ct (if s = ''NotifyStart'' then NotifyStart_method else NotifyReloadExports_method) call)"
    and "reload_exports_Execute hs w = (Ok st, w')"
  shows "st = ExitSuccess \<longleftrightarrow> (\<exists>w1. UpdateDesktopFiles b g ct w = (Ok (), w1))"
proof -
  obtain ru w1 where u: "UpdateDesktopFiles b g ct w = (ru, w1)" by fastforce
  have "reload_exports_Execute hs w = handled (wrap ''failed to send reload exports message''
      (seq (UpdateDesktopFiles b g ct) (\<lambda>_. request ''Reply'' [''NotifyReloadExports''] None))) w"
    using assms(1,2) by (simp add: reload_exports_Execute_def reloadExports_def varlinkConnect_def assms(3)
        varlink_handle_def NotifyReloadExports_def)
  then show ?thesis
    using assms(4) u by (cases ru) (auto simp: handled_def run_simps HandleError_def ret_def request_def)
qed

end
