(* ===== verification/Sudo_Facts.thy ===== *)
theory Sudo_Facts
  imports Sudo_Access
begin

text \<open>
  What \<^verbatim>\<open>GetSudoAccess\<close> decides, against a declarative reading of the sudoers dump: the
  last specification that lets the user run everything counts, and the last word on
  authentication in it.
\<close>

section \<open>Authentication\<close>

text \<open>The values of the option \<^verbatim>\<open>authenticate\<close> in a specification, in order.\<close>

definition auth_values :: "cvtsudoersOption list \<Rightarrow> json list" where
  "auth_values opts = List.map_filter (\<lambda>opt. map_of opt ''authenticate'') opts"

definition spec_auth_values :: "cvtsudoersUserSpec \<Rightarrow> json list" where
  "spec_auth_values spec = concat (map (\<lambda>c. auth_values (Options c)) (CommandSpecs spec))"

fun is_bool :: "json \<Rightarrow> bool" where
  "is_bool (JBool b) = True"
| "is_bool _ = False"

definition well_typed :: "cvtsudoersUserSpec \<Rightarrow> bool" where
  "well_typed spec \<longleftrightarrow> list_all is_bool (spec_auth_values spec)"

definition last_word :: "bool \<Rightarrow> json list \<Rightarrow> bool" where
  "last_word b vs = (if vs = [] then b else last vs = JBool True)"

definition asks_password :: "cvtsudoersUserSpec \<Rightarrow> bool" where
  "asks_password spec = last_word True (spec_auth_values spec)"

lemma last_word_simps [simp]:
  "last_word b [] = b"
  "last_word b (JBool c # vs) = last_word c vs"
  "list_all is_bool vs \<Longrightarrow> last_word b (vs @ us) = last_word (last_word b vs) us"
  by (simp_all add: last_word_def)

lemma scan_options_eq:
  "scan_options b opts = (if list_all is_bool (auth_values opts) then Ok (last_word b (auth_values opts))
     else Abort (Panic ''interface conversion''))"
proof (induction opts arbitrary: b)
  case (Cons opt opts)
  show ?case
  proof (cases "map_of opt ''authenticate''")
    case None
    then show ?thesis using Cons by (simp add: auth_values_def List.map_filter_def)
  next
    case (Some v)
    then show ?thesis using Cons by (cases v) (simp_all add: auth_values_def List.map_filter_def)
  qed
qed (simp add: auth_values_def List.map_filter_def)

lemma scan_commands_eq:
  "scan_commands a b cs =
     (if list_all is_bool (concat (map (\<lambda>c. auth_values (Options c)) cs))
      then Ok (a \<or> list_ex (\<lambda>c. list_ex (\<lambda>x. x = ''ALL'') (Commands c)) cs,
        last_word b (concat (map (\<lambda>c. auth_values (Options c)) cs)))
      else Abort (Panic ''interface conversion''))"
  by (induction cs arbitrary: a b) (auto simp: scan_options_eq)

section \<open>The decision\<close>

text \<open>The reference: no loop, no state.\<close>

definition sudo_reference :: "Userdata \<Rightarrow> cvtsudoersUserSpec list \<Rightarrow> SudoAccess" where
  "sudo_reference usrdata specs = (case find (grants usrdata) (rev specs) of
      None \<Rightarrow> NoSudo
    | Some spec \<Rightarrow> if asks_password spec then CanSudo else CanSudoNoPasswd)"

lemma scan_userSpecs_eq:
  "scan_userSpecs usrdata acc specs =
     (if list_all well_typed specs then Ok (case find (grants usrdata) (rev specs) of
        None \<Rightarrow> acc
      | Some spec \<Rightarrow> if asks_password spec then CanSudo else CanSudoNoPasswd)
      else Abort (Panic ''interface conversion''))"
proof (induction specs arbitrary: acc)
  case (Cons spec specs)
  have cmds: "scan_commands False True (CommandSpecs spec) =
      (if well_typed spec then Ok (runs_all spec, asks_password spec) else Abort (Panic ''interface conversion''))"
    by (simp add: scan_commands_eq well_typed_def runs_all_def asks_password_def spec_auth_values_def)
  have step: "scan_userSpecs usrdata acc (spec # specs) =
      (if well_typed spec then scan_userSpecs usrdata
         (if grants usrdata spec then (if asks_password spec then CanSudo else CanSudoNoPasswd) else acc) specs
       else Abort (Panic ''interface conversion''))"
    by (simp add: cmds grants_def userSpecSearch_iff)
  show ?case
    unfolding step Cons
    by (cases "find (grants usrdata) (rev specs)"; cases "grants usrdata spec") (simp_all add: find_append)
qed simp

text \<open>
  C7: \<^verbatim>\<open>GetSudoAccess\<close> over a dump of the host's sudoers is the reference: it depends on
  the last specification that lets a matching user run everything, and in it on the last
  value of \<^verbatim>\<open>authenticate\<close>. It panics exactly if such a value is not a boolean, anywhere
  in the dump; a dump that cannot be had or read grants nothing, nor does its absence.
\<close>

theorem GetSudoAccess_reference:
  "GetSudoAccess True sudo_group db tools usrdata =
     (case cvtsudoers_LookPath tools of Inl _ \<Rightarrow> Ok NoSudo | Inr _ \<Rightarrow>
       (case cvtsudoers_Output tools of Inl _ \<Rightarrow> Ok NoSudo | Inr out \<Rightarrow>
         (case cvtsudoers_Unmarshal tools out of Inl _ \<Rightarrow> Ok NoSudo | Inr specs \<Rightarrow>
            if list_all well_typed specs then Ok (sudo_reference usrdata specs)
            else Abort (Panic ''interface conversion''))))"
  by (auto simp: GetSudoAccess_def checkSudoAccessViaCvtsudoers_def scan_userSpecs_eq sudo_reference_def of_sum_def
      wrap_res_def split: sum.splits)

text \<open>
  The last value wins over all commands of a specification: a user who may run
  everything with a password and one program without it needs no password at all
  inside the container.
\<close>

lemma nopasswd_widened:
  assumes "Username (User usrdata) = ''u''"
  shows "sudo_reference usrdata [\<lparr>UserList = [\<lparr>cu_Username = ''u'', cu_Userid = 0, cu_Usergroup = '''', cu_Usergid = 0\<rparr>],
      CommandSpecs = [\<lparr>Commands = [''ALL''], Options = []\<rparr>,
        \<lparr>Commands = [''/usr/bin/true''], Options = [[(''authenticate'', JBool False)]]\<rparr>]\<rparr>] = CanSudoNoPasswd"
  using assms by (simp add: sudo_reference_def grants_def runs_all_def user_matches_def asks_password_def
      spec_auth_values_def auth_values_def List.map_filter_def last_word_def)

text \<open>
  An entry without a numeric group is read as group 0: whatever its name, it matches
  every user who is in the group root.
\<close>

lemma group_root_matches_all:
  assumes "g \<in> set (Groups usrdata)" and "g_Gid g = ''0''" and "cu_Usergid u = 0"
  shows "group_matches usrdata u"
proof -
  have "show_nat 0 = ''0''" by code_simp
  then show ?thesis using assms by (auto simp: group_matches_def list_ex_iff intro!: bexI[of _ g])
qed

end
