(* ===== verification/Witnesses_Facts.thy ===== *)
theory Witnesses_Facts
  imports Witnesses_Commands Export_Facts Host_Program Sudo_Facts
begin

text \<open>
  The locks and the commands on the machine of \<^verbatim>\<open>Witnesses\<close>: process 1 takes all locks
  of the container \<^verbatim>\<open>c\<close>; \<^verbatim>\<open>c\<close> is configured, deleted, and renamed beside a default
  container \<^verbatim>\<open>k\<close>.
\<close>

section \<open>Several processes\<close>

definition machine_of :: "world \<Rightarrow> machine" where
  "machine_of w = \<lparr>m_disk = disk w, m_ino = next_ino w, m_locks = (\<lambda>_. None), m_procs = (\<lambda>_. w), m_held = (\<lambda>_. [])\<rparr>"

lemma view_machine_of: "flocks w = (\<lambda>_. None) \<Longrightarrow> view p (machine_of w) = w"
  by (simp add: view_def machine_of_def)

lemma table_machine_of: "table_of cs (machine_of w) l = None"
  by (simp add: table_of_def lock_owner_def machine_of_def split: option.splits)

lemma machine_of_ok:
  assumes "lockable ct cs w" and "flocks w = (\<lambda>_. None)" and "fds w = (\<lambda>_. None)"
    and "\<forall>(q, i)\<in>set (disk w). i_ino i < next_ino w"
    and "\<And>a b i j. fs_get (disk w) (lock_loc cs a) = Some i \<Longrightarrow> fs_get (disk w) (lock_loc cs b) = Some j \<Longrightarrow>
      i_ino i = i_ino j \<Longrightarrow> a = b"
  shows "machine_ok ct cs (machine_of w)"
proof -
  have "i_ino i < next_ino w" if "fs_get (disk w) q = Some i" for q i
    using that assms(4) by (auto simp: fs_get_def dest: map_of_SomeD)
  then have "files_ok cs (machine_of w)"
    using assms(5) by (auto simp: files_ok_def machine_of_def)
  moreover have "held_ok cs (machine_of w)"
    by (simp add: held_ok_def lock_owner_def machine_of_def split: option.splits)
  moreover have "fds_ok w" using assms(2,3) by (simp add: fds_ok_def)
  ultimately show ?thesis using assms(1,2) by (simp add: machine_ok_def view_machine_of)
qed

lemma sample_lock_files:
  "fs_get sample_disk (lock_loc sample_loc l) = (case l of
      RunLock \<Rightarrow> Some (file_node 7 (Raw '''')) | FullContainerLock \<Rightarrow> Some (dir_node 5) | _ \<Rightarrow> None)"
  by (induction l) code_simp+

lemma sample_machine_ok: "machine_ok sample_ct sample_loc (machine_of sample_world)"
proof (rule machine_of_ok)
  show "lockable sample_ct sample_loc sample_world" unfolding sample_world_def by (rule sample_lockable)
  show "\<forall>(q, i)\<in>set (disk sample_world). i_ino i < next_ino sample_world" by code_simp
  fix a b i j
  assume "fs_get (disk sample_world) (lock_loc sample_loc a) = Some i" "fs_get (disk sample_world) (lock_loc sample_loc b) = Some j"
    "i_ino i = i_ino j"
  then show "a = b"
    by (cases a; cases b) (auto simp: sample_world_def world_with_def sample_lock_files file_node_def dir_node_def)
qed (simp_all add: sample_world_def world_with_def)

lemma sample_view: "view p (machine_of sample_world) = sample_world"
  by (rule view_machine_of) (simp add: sample_world_def world_with_def)

lemma sample_lock:
  obtains held w where "Lock sample_ct FullContainerLock NoWaitForLock (view 1 (machine_of sample_world)) = (Ok held, w)"
proof -
  have "plain_file sample_loc (machine_of sample_world) l" for l
    by (cases l) (auto simp: plain_file_def machine_of_def sample_world_def world_with_def sample_lock_files file_node_def)
  moreover have "calm (view 1 (machine_of sample_world))"
    unfolding sample_view by (simp add: calm_def sample_world_def world_with_def)
  ultimately show ?thesis
    using Lock_granted[OF sample_machine_ok, of 1 FullContainerLock NoWaitForLock] that by (auto simp: table_machine_of)
qed

theorem lock_protocol_refines_witness:
  "\<exists>m. lock_run sample_ct (machine_of sample_world)
      [Granted 1 FullContainerLock, Granted 1 RunLock, Granted 1 ExportsLock, Granted 1 ConfigLock] m \<and>
    table_run (table_of sample_loc (machine_of sample_world))
      [Granted 1 FullContainerLock, Granted 1 RunLock, Granted 1 ExportsLock, Granted 1 ConfigLock] (table_of sample_loc m) \<and>
    fst ` set (m_held m 1) \<inter> fst ` set (m_held m 2) = {}"
proof -
  obtain held w where "Lock sample_ct FullContainerLock NoWaitForLock (view 1 (machine_of sample_world)) = (Ok held, w)"
    by (rule sample_lock)
  from Lock_run[OF sample_machine_ok this] obtain m where
    m: "lock_run sample_ct (machine_of sample_world) (map (Granted 1) (levels_of FullContainerLock)) m" by auto
  have es: "map (Granted 1) (levels_of FullContainerLock) =
      [Granted 1 FullContainerLock, Granted 1 RunLock, Granted 1 ExportsLock, Granted 1 ConfigLock]"
    by (simp add: levels_of_def lower_levels_def)
  from lock_protocol_refines[OF sample_machine_ok m] have
    "table_run (table_of sample_loc (machine_of sample_world)) (map (Granted 1) (levels_of FullContainerLock)) (table_of sample_loc m)"
    "fst ` set (m_held m 1) \<inter> fst ` set (m_held m 2) = {}" by simp_all
  with m show ?thesis unfolding es by (intro exI[of _ m] conjI)
qed

theorem Lock_all_or_nothing_witness:
  "\<exists>held w m. Lock sample_ct FullContainerLock NoWaitForLock (view 1 (machine_of sample_world)) = (Ok held, w) \<and>
    view 1 m = w \<and> table_of sample_loc m RunLock = Some 1"
proof -
  obtain held w where l: "Lock sample_ct FullContainerLock NoWaitForLock (view 1 (machine_of sample_world)) = (Ok held, w)"
    by (rule sample_lock)
  from Lock_all_or_nothing[OF sample_machine_ok l] l show ?thesis
    by (auto simp: levels_of_def lower_levels_def)
qed

section \<open>The command line and the configuration\<close>

definition given_config :: configCommand where
  "given_config = new_config\<lparr>extraBindMounts := \<lparr>atv_kind = arrayTransformAdd, atv_items = [''/a'', ''/b'']\<rparr>,
     cc_virtualNetwork := True\<rparr>"

lemma config_parse:
  "parse_command sample_build (Config_cmd new_config) [''-extra-bind-mounts=+/a,/b'', ''-virtual-network'', ''c''] (initial_app ''/w'') =
     Ok ([''extra-bind-mounts'', ''virtual-network''], [''c''], initial_app ''/w'', Config_cmd given_config)"
  by code_simp

lemma initial_app_inv: "app_inv b (initial_app dir)"
  by (simp add: app_inv_def initial_app_def)

theorem command_line_typed_witness:
  "command_valid (Config_cmd given_config) \<and> arguments_fit (Config_cmd given_config) (length [''c'']) \<and>
    f_String (flag_StringVar ''workdir'' workdir workdir_update) (initial_app ''/w'') = ''/w''"
proof -
  have "Config_cmd new_config \<in> set registered" by (simp add: registered_def)
  from command_line_typed[OF this initial_app_inv config_parse]
  have "\<forall>d. command_ParsePositional (Config_cmd given_config) [''c''] = Inr d \<longrightarrow>
      command_valid d \<and> arguments_fit (Config_cmd given_config) (length [''c''])" by blast
  then show ?thesis
    by (simp add: expect1_def ExpectArgs_def given_config_def initial_app_def flag_vars)
qed

lemma config_visit:
  "fst (each_acc (visit_config sample_ns given_config) (sample_ct, None)
     (visited_flags sample_build (Config_cmd given_config) [''extra-bind-mounts'', ''virtual-network'']) sample_world) =
   Ok (sample_ct\<lparr>Cfg := sample_config\<lparr>VirtualNetwork := True\<rparr>\<rparr>, None)"
  by code_simp

theorem config_changes_given_witness:
  "apply_lists given_config (sample_config\<lparr>VirtualNetwork := True\<rparr>) =
     sample_config\<lparr>VirtualNetwork := True, ExtraBindMounts := [''/a'', ''/b'']\<rparr>"
proof -
  obtain w' where "each_acc (visit_config sample_ns given_config) (sample_ct, None)
     (visited_flags sample_build (Config_cmd given_config) [''extra-bind-mounts'', ''virtual-network'']) sample_world =
   (Ok (sample_ct\<lparr>Cfg := sample_config\<lparr>VirtualNetwork := True\<rparr>\<rparr>, None), w')"
    using config_visit by (metis prod.collapse)
  from config_changes_given[OF config_parse initial_app_inv this refl] show ?thesis
    by (simp add: sample_ct_def sample_config_def zero_config_def list_setting_def given_config_def new_config_def)
qed

theorem UpdateConfig_atomic_witness:
  "\<exists>w'. UpdateConfig sample_ct sample_world = (Ok (), w') \<and> config_acceptable (Cfg sample_ct) \<and>
    (\<exists>i. fs_get (disk w') (sample_loc @ [''config.json'']) = Some i \<and>
       i_kind i = Regular (Doc (encode_config (Cfg sample_ct))))"
proof -
  have loc: "located sample_ct sample_loc sample_world"
    using sample_lockable[of "\<lambda>_. None"] by (simp add: lockable_def sample_world_def)
  have link: "no_link (disk sample_world) (sample_loc @ [''config.json.tmp''])" by code_simp
  have "fst (UpdateConfig sample_ct sample_world) = Ok ()" by code_simp
  then obtain w' where "UpdateConfig sample_ct sample_world = (Ok (), w')" by (metis prod.collapse)
  with UpdateConfig_atomic[OF loc link this] show ?thesis by auto
qed

section \<open>Deleting and renaming\<close>

definition sample_delete :: deleteCommand where
  "sample_delete = new_delete\<lparr>delete_name := ''c'', delete_yes := True\<rparr>"

lemma sample_container_loc: "container_loc sample_build sample_user ''c'' = sample_loc"
  by code_simp

lemma ns_build: "n_build sample_ns = sample_build"
  by (simp add: sample_ns_def)

lemma sample_no_links: "list_all (\<lambda>level. no_link sample_disk (lock_loc sample_loc level)) lower_levels"
  by code_simp

theorem delete_Execute_safe_witness:
  "\<exists>r w'. delete_Execute sample_ns sample_user sample_delete sample_world = (r, w') \<and> delete_agreed sample_ns sample_delete \<and>
    (\<forall>q. \<not> prefix sample_loc q \<longrightarrow> fs_get (disk w') q = fs_get (disk sample_world) q) \<and>
    (r = Ok ExitSuccess \<longrightarrow> (\<forall>q. prefix sample_loc q \<longrightarrow> fs_get (disk w') q = None))"
proof -
  obtain r w' where run: "delete_Execute sample_ns sample_user sample_delete sample_world = (r, w')" by fastforce
  have d: "disk sample_world = sample_disk" by (simp add: sample_world_def world_with_def)
  have yes: "delete_agreed sample_ns sample_delete" by (simp add: delete_agreed_def sample_delete_def)
  have "sample_loc = container_loc (n_build sample_ns) sample_user (delete_name sample_delete)"
    by (simp add: ns_build sample_delete_def sample_container_loc)
  from delete_Execute_safe[OF _ this _ _ sample_fds_ok(1) run] show ?thesis
    using run yes sample_layout sample_solid sample_no_links by (simp add: ns_build d)
qed

text \<open>Beside \<^verbatim>\<open>c\<close> there is the container \<^verbatim>\<open>k\<close>, the default one; \<^verbatim>\<open>c\<close> is renamed to \<^verbatim>\<open>d\<close>.\<close>

definition other_loc :: loc where
  "other_loc = [''v'', ''nsbox'', ''u'', ''inventory'', ''k'']"

definition default_node :: inode where
  "default_node = \<lparr>i_ino = 13, i_kind = Symlink ''/v/nsbox/u/inventory/k'', i_mode = 511, i_uid = 0, i_gid = 0\<rparr>"

definition rename_world :: world where
  "rename_world = sample_world\<lparr>disk := (other_loc, dir_node 11) #
     (other_loc @ [''config.json''], file_node 12 (Doc (encode_config sample_config))) #
     ([''v'', ''nsbox'', ''u'', ''default''], default_node) # sample_disk\<rparr>"

definition sample_rename :: renameCommand where
  "sample_rename = \<lparr>rename_current = ''c'', rename_new = ''d''\<rparr>"

lemma rename_world_fields:
  "flocks rename_world = (\<lambda>_. None)" "fds rename_world = (\<lambda>_. None)" "next_ino rename_world = 20"
  "fault rename_world = (\<lambda>_. None)"
  by (simp_all add: rename_world_def sample_world_def world_with_def)

lemma rename_lockable: "lockable sample_ct sample_loc w" if "disk w = disk rename_world"
proof (rule lockable_same_disk[OF _ that])
  show "lockable sample_ct sample_loc rename_world"
    by (simp add: lockable_def located_def) code_simp
qed

lemma rename_lock_files:
  "fs_get (disk rename_world) (lock_loc sample_loc l) = (case l of
      RunLock \<Rightarrow> Some (file_node 7 (Raw '''')) | FullContainerLock \<Rightarrow> Some (dir_node 5) | _ \<Rightarrow> None)"
  by (induction l) code_simp+

lemma rename_open:
  obtains w1 where "Open (n_build sample_ns) sample_user ''c'' rename_world = (Ok sample_ct, w1)" and "same_os rename_world w1"
proof -
  have "fst (Open (n_build sample_ns) sample_user ''c'' rename_world) = Ok sample_ct" by code_simp
  then show ?thesis using that keepsD[OF keeps_Open] by (metis prod.collapse)
qed

lemma rename_locked:
  assumes "same_os rename_world w1"
  obtains held w2 where "Lock sample_ct FullContainerLock NoWaitForLock w1 = (Ok held, w2)" and "calm w2"
proof -
  note s = same_osD[OF assms]
  have "machine_ok sample_ct sample_loc (machine_of w1)"
  proof (rule machine_of_ok)
    show "\<forall>(q, i)\<in>set (disk w1). i_ino i < next_ino w1" unfolding s by code_simp
    fix a b i j
    assume "fs_get (disk w1) (lock_loc sample_loc a) = Some i" "fs_get (disk w1) (lock_loc sample_loc b) = Some j"
      "i_ino i = i_ino j"
    then show "a = b"
      unfolding s rename_lock_files by (cases a; cases b) (auto simp: file_node_def dir_node_def)
  qed (simp_all add: s rename_world_fields rename_lockable)
  moreover have "view p (machine_of w1) = w1" for p by (rule view_machine_of) (simp add: s rename_world_fields)
  moreover have "plain_file sample_loc (machine_of w1) l" for l
    by (cases l) (auto simp: plain_file_def machine_of_def s rename_lock_files file_node_def)
  moreover have "calm w1" by (simp add: calm_def s rename_world_fields)
  ultimately show ?thesis
    using Lock_granted[of sample_ct sample_loc "machine_of w1" 1 FullContainerLock NoWaitForLock] that
    by (auto simp: table_machine_of)
qed

lemma rename_default:
  assumes "same_but_locks sample_loc rename_world w" and "calm w"
  obtains w' where "DefaultContainer sample_build sample_user w =
    (Ok (Some \<lparr>Name = ''k'', Path = ContainerDefault sample_build sample_user, Cfg = legacy_image sample_config\<rparr>), w')"
proof -
  have same: "fs_get (disk w) q = fs_get (disk rename_world) q" if "\<not> prefix sample_loc q" for q
    using assms(1) not_below_not_lock[OF that] by (simp add: same_but_locks_def)
  have "fst (DefaultContainer sample_build sample_user w) =
    Ok (Some \<lparr>Name = ''k'', Path = ContainerDefault sample_build sample_user, Cfg = legacy_image sample_config\<rparr>)"
  proof (rule DefaultContainer_linked[OF sample_layout assms(2), of "''k''"
        "file_node 12 (Doc (encode_config sample_config))" sample_config default_node])
    show "validateName ''k'' = None" by code_simp
    have sol: "solid (disk rename_world) (user_loc sample_build sample_user @ [''inventory'', ''k''])" by code_simp
    show "solid (disk w) (user_loc sample_build sample_user @ [''inventory'', ''k''])"
    proof (rule solid_cong[OF sol])
      fix q assume "prefix q (user_loc sample_build sample_user @ [''inventory'', ''k''])"
      then have "\<not> prefix sample_loc q"
        by (auto simp: sample_loc_def sample_user_loc prefix_Cons append_eq_Cons_conv)
      then show "fs_get (disk w) q = fs_get (disk rename_world) q" by (rule same)
    qed
    have "fs_get (disk w) (user_loc sample_build sample_user @ [''inventory'', ''k'', ''config.json'']) =
        fs_get (disk rename_world) (user_loc sample_build sample_user @ [''inventory'', ''k'', ''config.json''])"
      by (rule same) code_simp
    also have "\<dots> = Some (file_node 12 (Doc (encode_config sample_config)))" by code_simp
    finally show "fs_get (disk w) (user_loc sample_build sample_user @ [''inventory'', ''k'', ''config.json'']) =
        Some (file_node 12 (Doc (encode_config sample_config)))" .
    have "fs_get (disk w) (user_loc sample_build sample_user @ [''default'']) =
        fs_get (disk rename_world) (user_loc sample_build sample_user @ [''default''])"
      by (rule same) code_simp
    also have "\<dots> = Some default_node" by code_simp
    finally show "fs_get (disk w) (user_loc sample_build sample_user @ [''default'']) = Some default_node" .
    show "i_kind default_node = Symlink (path_of (user_loc sample_build sample_user @ [''inventory'', ''k'']))" by code_simp
  qed (simp add: file_node_def)
  then show ?thesis using that by (metis prod.collapse)
qed

lemma rename_moved:
  assumes "same_but_locks sample_loc rename_world w" and "calm w"
  obtains w' where "Rename sample_ct ''d'' w = (Ok (), w')"
proof -
  let ?I = "inventory_loc sample_build sample_user"
  have same: "fs_get (disk w) q = fs_get (disk rename_world) q" if "\<forall>l. q \<noteq> lock_loc sample_loc l" for q
    using assms(1) that by (simp add: same_but_locks_def)
  have sol: "solid (disk w) sample_loc"
    by (rule same_but_locks_solid[OF assms(1)]) code_simp+
  have I: "sample_loc = ?I @ [''c'']" "list_all plain ?I" "plain ''d''" "plain ''c''" by code_simp+
  have solI: "solid (disk w) ?I" using sol unfolding I(1) by (rule solid_append)
  have free: "fs_get (disk w) (?I @ [''d'']) = None"
  proof -
    have "\<not> prefix sample_loc (?I @ [''d''])" by code_simp
    then have "fs_get (disk w) (?I @ [''d'']) = fs_get (disk rename_world) (?I @ [''d''])"
      using same not_below_not_lock by blast
    also have "\<dots> = None" by code_simp
    finally show ?thesis .
  qed
  obtain i where i: "fs_get (disk w) (?I @ [''c'']) = Some i"
    using sol unfolding I(1) solid_snoc by (auto simp: dir_at_def split: option.splits)
  have path: "Path sample_ct = path_of (?I @ [''c''])"
    "path_join [path_dir (Path sample_ct), ''d''] = path_of (?I @ [''d''])" by code_simp+
  have "\<exists>w'. Rename sample_ct ''d'' w = (Ok (), w')"
    unfolding Rename_def path(2) unfolding path(1)
    using assms(2) solI I(2-4) i free by (simp add: os_Rename_def calm_sys at_path_def)
  then show ?thesis using that by blast
qed

lemma rename_runs:
  obtains w' where "rename_Execute sample_ns sample_user sample_rename rename_world = (Ok ExitSuccess, w')"
proof -
  obtain w1 where op: "Open (n_build sample_ns) sample_user ''c'' rename_world = (Ok sample_ct, w1)" "same_os rename_world w1"
    by (rule rename_open)
  obtain held w2 where lock: "Lock sample_ct FullContainerLock NoWaitForLock w1 = (Ok held, w2)" "calm w2"
    by (rule rename_locked[OF op(2)])
  have "fds_ok w1" using op(2) by (simp add: same_osD fds_ok_def rename_world_fields)
  from Lock_outcome(1)[OF lock(1) rename_lockable this] have sbl: "same_but_locks sample_loc rename_world w2"
    using op(2) same_but_locks_disk[OF same_os_imp(2)[OF op(2)]] same_but_locks.frame_trans by (simp add: same_osD) blast
  obtain w3 where d: "DefaultContainer (n_build sample_ns) sample_user w2 =
    (Ok (Some \<lparr>Name = ''k'', Path = ContainerDefault sample_build sample_user, Cfg = legacy_image sample_config\<rparr>), w3)"
    unfolding ns_build by (rule rename_default[OF sbl lock(2)])
  have s3: "same_os w2 w3" using keepsD[OF keeps_DefaultContainer d] .
  have "same_but_locks sample_loc rename_world w3"
    using sbl same_but_locks_disk[OF same_os_imp(2)[OF s3]] same_but_locks.frame_trans by blast
  moreover have "calm w3" using lock(2) s3 by (simp add: calm_def same_osD)
  ultimately obtain w4 where m: "Rename sample_ct ''d'' w3 = (Ok (), w4)" by (rule rename_moved)
  have "rename_Execute sample_ns sample_user sample_rename rename_world = (Ok ExitSuccess, w4)"
    using op(1) lock(1) d m
    by (simp add: rename_Execute_def sample_rename_def or_failure_run LockUntilProcessDeath_def isDefaultContainer_def
        wrap_run on_err_run seq_def ret_def succeed_def)
  then show ?thesis using that by blast
qed


section \<open>The bus inside a container\<close>


section \<open>Exports\<close>

text \<open>The container exports its second instance, and the first one has been filled.\<close>

definition exports_world :: world where
  "exports_world = sample_world\<lparr>disk := sample_disk @
     [(sample_loc @ [''exports.0''], dir_node 12), (sample_loc @ [''exports.1''], dir_node 13),
      (sample_loc @ [''exports''],
       \<lparr>i_ino = 14, i_kind = Symlink ''/v/nsbox/u/inventory/c/exports.1'', i_mode = 511, i_uid = 0, i_gid = 0\<rparr>)]\<rparr>"

theorem switch_exports_atomic_witness:
  "\<exists>w'. switch_exports sample_ct (ExportsInstance sample_ct 0) (Some 1) exports_world = (Ok (), w') \<and>
     (\<exists>i. fs_get (disk w') (exports_link sample_loc) = Some i \<and> i_kind i = Symlink ''/v/nsbox/u/inventory/c/exports.0'') \<and>
     fs_get (disk w') (exports_dir sample_loc 0) = Some (dir_node 12) \<and> fs_get (disk w') (exports_dir sample_loc 1) = None"
proof -
  have "fst (switch_exports sample_ct (ExportsInstance sample_ct 0) (Some 1) exports_world) = Ok ()" by code_simp
  then obtain w' where w': "switch_exports sample_ct (ExportsInstance sample_ct 0) (Some 1) exports_world = (Ok (), w')"
    by (metis prod.collapse)
  have "solid (disk exports_world) sample_loc" "path_of sample_loc = Path sample_ct" "list_all plain sample_loc" by code_simp+
  then have located: "located sample_ct sample_loc exports_world" by (simp add: located_def)
  have "0 = new_instance (Some 1)" by (simp add: new_instance_def)
  note atomic = switch_exports_atomic[OF located this w']
  have "ExportsInstance sample_ct 0 = ''/v/nsbox/u/inventory/c/exports.0''"
    "fs_get (disk exports_world) (exports_dir sample_loc 0) = Some (dir_node 12)" by code_simp+
  moreover have "fs_get (disk w') (exports_dir sample_loc 0 @ []) = fs_get (disk exports_world) (exports_dir sample_loc 0 @ [])"
    "fs_get (disk w') (exports_dir sample_loc 1 @ []) = None"
    using atomic by (auto simp del: append_Nil2)
  ultimately show ?thesis using w' atomic by simp
qed

section \<open>The program inside the container\<close>

definition sample_host :: host_sys where
  "sample_host = \<lparr>hs_listen = (\<lambda>_. ret ()), hs_dial = (\<lambda>_. None), hs_call = (\<lambda>_. ret ()), hs_SdNotify = ret (),
     hs_setsid = None, hs_Exec = (\<lambda>_. None),
     hs_select = (\<lambda>cmds args. case args of [] \<Rightarrow> None | name # rest \<Rightarrow> Some (name, rest)), hs_other = (\<lambda>_. ExitUsageError)\<rparr>"

definition marked_world :: world where
  "marked_world = sample_world\<lparr>environ := [''A=b'', ''NSBOX_INTERNAL=1'']\<rparr>"

definition plain_spec :: containerEntrySpec where
  "plain_spec = sample_spec\<lparr>ptyPath := '''', spec_noReplay := True\<rparr>"

theorem session_command_executed_witness:
  "fst (host_main sample_host (tl (buildNsboxHostCommand stdioFlags plain_spec)) marked_world) =
    Abort (Execed enter_script [enter_script, ''/w'', ''env'', ''A=b'', ''ls'', ''-l''] [''A=b'', ''NSBOX_NO_REPLAY=1''])"
proof -
  obtain r w' where run: "host_main sample_host (tl (buildNsboxHostCommand stdioFlags plain_spec)) marked_world = (r, w')"
    by fastforce
  have "session_env True (unmarked (environ marked_world)) = [''A=b'', ''NSBOX_NO_REPLAY=1'']" by code_simp
  moreover have "getenv (environ marked_world) internalEnv \<noteq> ''''" "spec_cwd plain_spec \<noteq> ''''" by code_simp+
  ultimately show ?thesis
    using session_command_executed[OF refl _ _ _ _ _ run] run
    by (simp add: plain_spec_def sample_spec_def sample_host_def)
qed

theorem host_main_executes_witness:
  "getenv (environ marked_world) internalEnv = ''1'' \<and>
    (\<exists>w'. host_main sample_host (tl (buildNsboxHostCommand stdioFlags plain_spec)) marked_world =
        (Abort (Execed enter_script [enter_script, ''/w'', ''env'', ''A=b'', ''ls'', ''-l''] [''A=b'', ''NSBOX_NO_REPLAY=1'']), w')) \<and>
    getenv [''A=b'', ''NSBOX_NO_REPLAY=1''] internalEnv = ''''"
proof -
  let ?cmd = "[enter_script, ''/w'', ''env'', ''A=b'', ''ls'', ''-l'']" and ?env = "[''A=b'', ''NSBOX_NO_REPLAY=1'']"
  have "fst (host_main sample_host (tl (buildNsboxHostCommand stdioFlags plain_spec)) marked_world) = Abort (Execed enter_script ?cmd ?env)"
    by code_simp
  then obtain w' where run: "host_main sample_host (tl (buildNsboxHostCommand stdioFlags plain_spec)) marked_world =
      (Abort (Execed enter_script ?cmd ?env), w')" by (metis prod.collapse)
  have "returns (hs_listen sample_host s)" "returns (hs_call sample_host s)" "returns (hs_SdNotify sample_host)" for s
    by (simp_all add: sample_host_def returns_ret)
  from host_main_executes[OF this run] run show ?thesis by (simp add: marked_world_def internalEnv_def)
qed

text \<open>A desktop file in the container's storage, exported into the first instance.\<close>

definition desktop_world :: world where
  "desktop_world = exports_world\<lparr>disk := disk exports_world @
     [(sample_loc @ [''storage'', ''x.desktop''], file_node 15 (Raw (''[Desktop Entry]'' @ CHR 0x0A # ''Exec=ls -l'' @ [CHR 0x0A])))]\<rparr>"

definition sample_context :: exportContext where
  "sample_context = \<lparr>x_ct = sample_ct, x_iconCtxs = [], x_icons = [],
     x_targetApplicationsDir = ''/v/nsbox/u/inventory/c/exports.0'', x_targetIconsDir = ''/i''\<rparr>"


end
