(* ===== verification/Spec2Isabelle.thy ===== *)
theory Spec2Isabelle
  imports Args Channel Logging Witnesses_Facts
begin

text \<open>
  Verification of nsbox, a program that runs containers of whole distributions through
  \<^verbatim>\<open>systemd-nspawn\<close>. This file is the root: it imports every theory of the development
  and describes them. All paths are relative to \<^verbatim>\<open>src/\<close>.

  \<^bold>\<open>The programs and how they interact.\<close> \<^verbatim>\<open>nsbox\<close> (\<^verbatim>\<open>cmd/nsbox\<close>) reads a command line; without
  privileges it runs \<^verbatim>\<open>nsbox-invoker\<close> through \<^verbatim>\<open>pkexec\<close> or \<^verbatim>\<open>sudo\<close>, which runs \<^verbatim>\<open>nsbox\<close>
  again as root with the same options. The commands work on containers: directories
  with a configuration, a root file system and lock files, in a user's inventory. \<^verbatim>\<open>nsbox
  run\<close> asks systemd for a transient unit that runs \<^verbatim>\<open>nsboxd\<close>, which prepares the container
  and runs \<^verbatim>\<open>systemd-nspawn\<close>; then \<^verbatim>\<open>nsbox\<close> enters the container with a session. Inside,
  \<^verbatim>\<open>nsbox-host\<close> hands out terminals and reports to the host over varlink.

  \<^bold>\<open>How the source is translated.\<close> A Go function is a function on the state \<open>world\<close> of
  process and machine (\<open>'a io\<close>) that returns a value, an error or an end of control:
  \<open>Ok\<close>, \<open>Err\<close>, \<open>Abort\<close> (a panic, an exit, an \<^verbatim>\<open>exec\<close>, a wait that does not end). \<open>seq\<close>,
  \<open>wrap\<close>, \<open>attempt\<close>, \<open>defer_do\<close> and \<open>each\<close> are its control flow. System calls consult a
  table \<open>fault\<close> of calls that fail, so every error path is a path of the model; a theorem
  about all states is about all such tables. What other programs and services answer
  (systemd, machined, firewalld, GTK, registries, terminals, the kernel's SELinux files,
  third-party packages) is a parameter, a record per component; what is asked of them is
  recorded in \<open>calls\<close>. A theorem that needs a parameter to behave names the behaviour.

  \<^item> \<open>Prelude\<close>: outcomes and control flow; \<open>keeps\<close>, \<open>returns\<close> and the locale \<open>frame\<close>, through
    which every component states what it leaves alone.
  \<^item> \<open>Go_Strings\<close>, \<open>Go_Path\<close>, \<open>Go_Regexp\<close>, \<open>Go_Flag\<close>, \<open>Go_Glob\<close>, \<open>Flag_Sets\<close>: the parts of Go's
    standard library the source uses. Regular expressions are matched by derivatives.
    The locale \<open>flag_value\<close> is the contract of one flag's type, \<open>forwarding\<close> that of a
    flag set whose flags can be printed and parsed again.
  \<^item> \<open>File_System\<close>, \<open>File_Laws\<close>: the tree of inodes (locale \<open>tree_store\<close>), path resolution,
    the calls of \<^verbatim>\<open>os\<close>, \<^verbatim>\<open>ioutil\<close> and \<^verbatim>\<open>unix\<close>, and their laws. Resolution follows at most 40
    links, as the kernel does.
  \<^item> \<open>Args\<close>, \<open>Userdata\<close>, \<open>Sudo_Access\<close>, \<open>Paths\<close>: \<^verbatim>\<open>internal/args\<close>, \<^verbatim>\<open>userdata\<close>, \<^verbatim>\<open>paths\<close>.
  \<^item> \<open>Container\<close> (configuration, its JSON form and its checks), \<open>Container_Ops\<close> (operations),
    \<open>Container_Life\<close> (creation and publishing), \<open>Container_Locks\<close> (locks and deletion),
    \<open>Container_Info\<close>: \<^verbatim>\<open>internal/container\<close>. \<open>Lock_Protocol\<close> lets several processes run
    these locks on one machine, in any interleaving, and proves that the lock files refine
    a table of levels and holders (\<open>table_step\<close>); \<open>machine_ok\<close> is its invariant.
  \<^item> \<open>Inventory\<close>, \<open>Images\<close> (with \<^verbatim>\<open>internal/release\<close>), \<open>Create\<close>, \<open>Kill\<close>, \<open>Nspawn\<close>, \<open>Network\<close>,
    \<open>Selinux\<close>, \<open>Nsbus\<close>, \<open>Transport\<close>, \<open>Pty_Service\<close>, \<open>Session\<close>, \<open>Integration\<close> (with \<^verbatim>\<open>gtkicons\<close>), \<open>Varlink_Host\<close>: the
    packages of the same names under \<^verbatim>\<open>internal/\<close>.
  \<^item> \<open>Sudo_Facts\<close>: the sudo decision equals a reference without loops; \<open>Export_Facts\<close>: the switch
    of the export directories, and what an exported desktop file can run; \<open>Channel\<close>: the
    connections of \<open>Transport\<close>; \<open>Logging\<close>: \<^verbatim>\<open>internal/log\<close>.
  \<^item> \<open>Daemon\<close>, \<open>Daemon_Facts\<close>: \<^verbatim>\<open>internal/daemon/direct.go\<close>; \<open>Transient\<close>: \<^verbatim>\<open>transient.go\<close> and
    \<^verbatim>\<open>cmd/nsboxd\<close>; \<open>Nsbox_Host\<close>, \<open>Host_Program\<close>: \<^verbatim>\<open>cmd/nsbox-host\<close>,
    up to the script it executes for a session, end to end.
  \<^item> \<open>Command_Line\<close> (flags and arguments), \<open>Commands\<close> (what each command does), \<open>Nsbox_Main\<close>
    (re-execution, \<^verbatim>\<open>cmd/nsbox-invoker\<close>): \<^verbatim>\<open>cmd/nsbox\<close>.
    \<open>Command_Facts\<close>: the commands' guarantees, and the rules for a configuration
    (\<open>config_acceptable\<close>) that the regular expressions of the check amount to.
  \<^item> \<open>Session_Events\<close>: signals, window sizes and the raw terminal of a session as a step
    relation, with the goroutines' steps interleaved (\<open>session_run\<close>).
  \<^item> \<open>Witnesses\<close>, \<open>Witnesses_Programs\<close>, \<open>Witnesses_Commands\<close>, \<open>Witnesses_Facts\<close>: a small machine on which every
    property with hypotheses is applied.

  \<^bold>\<open>Bounds.\<close> Loops are structural except: \<open>ResolveChain\<close>, whose recursion over images need
  not end, has fuel and a theorem that the length of a well-founded chain is enough;
  the walk over a directory tree is bounded by the depth of the tree; path resolution by
  the links allowed. \<open>copyForever\<close> (\<open>Nsbus\<close>) is a \<^verbatim>\<open>partial_function\<close>: it may not return.

  \<^bold>\<open>Not modelled.\<close> The copying of terminal data and of bus messages is the runtime's (only whether
  it ends is stated); the varlink stub stands for generated code; messages to standard error are kept in \<open>Logging\<close> only; the
  clock, the journal's output and progress displays are left out. Other processes are
  interleaved with the locking calls (\<open>Lock_Protocol\<close>); elsewhere they may hold locks, but
  do not change the file system during a run.
\<close>

end
